theory Spec2Isabelle
  imports Complex_Main "HOL-Library.Sublist" "HOL-Library.Log_Nat"
begin

section \<open>JavaScript numbers and strings\<close>

text \<open>
  The progress arithmetic of \<^verbatim>\<open>components/FileUpload.tsx\<close> is done on JavaScript numbers,
  that is on IEEE 754 binary64 values. A number is modelled as the rational value of a
  finite double or as one of the three special values. Every arithmetic operation rounds
  its exact result to the nearest double, a tie going to the even significand; results
  of magnitude \<^verbatim>\<open>2^1024\<close> or more after rounding are the infinities, and below
  \<^verbatim>\<open>2^-1022\<close> the spacing of the doubles stays \<^verbatim>\<open>2^-1074\<close> (subnormal numbers). The
  sign of zero is not modelled.
\<close>

datatype jsnum = Num rat | PosInf | NegInf | NaN

text \<open>The binade of a non-zero number: the \<open>e\<close> with \<open>2 powi e \<le> \<bar>r\<bar> < 2 powi (e + 1)\<close>.\<close>

definition binade :: "rat \<Rightarrow> int" where
  "binade r =
     (if 1 \<le> \<bar>r\<bar> then bitlen \<lfloor>\<bar>r\<bar>\<rfloor> - 1 else - bitlen (\<lceil>1 / \<bar>r\<bar>\<rceil> - 1))"

text \<open>The exponent of the spacing of the doubles around \<open>r\<close>: 53 significant bits.\<close>

definition quantum :: "rat \<Rightarrow> int" where
  "quantum r = max (binade r - 52) (- 1074)"

definition round_ties_even :: "rat \<Rightarrow> int" where
  "round_ties_even x =
     (let n = \<lfloor>x\<rfloor>; d = x - of_int n
      in if d < 1 / 2 then n else if 1 / 2 < d then n + 1 else if even n then n else n + 1)"

definition rounded :: "rat \<Rightarrow> rat" where
  "rounded r = of_int (round_ties_even (r / 2 powi quantum r)) * 2 powi quantum r"

definition overflow_threshold :: rat where
  "overflow_threshold = 2 ^ 1024"

text \<open>The double nearest to an exact result.\<close>

definition fl64 :: "rat \<Rightarrow> jsnum" where
  "fl64 r =
     (if r = 0 then Num 0
      else if overflow_threshold \<le> \<bar>rounded r\<bar> then (if 0 < r then PosInf else NegInf)
      else Num (rounded r))"

text \<open>
  \<^verbatim>\<open>a / b\<close> for two finite numbers (the source divides by the page count only, a
  non-negative number), \<^verbatim>\<open>x * y\<close> and \<^verbatim>\<open>x + y\<close>.
\<close>

fun js_div :: "rat \<Rightarrow> rat \<Rightarrow> jsnum" where
  "js_div a b =
     (if b = 0 then (if a = 0 then NaN else if 0 < a then PosInf else NegInf)
      else fl64 (a / b))"

fun js_mul :: "jsnum \<Rightarrow> jsnum \<Rightarrow> jsnum" where
  "js_mul (Num a) (Num b) = fl64 (a * b)"
| "js_mul (Num a) PosInf = (if a = 0 then NaN else if 0 < a then PosInf else NegInf)"
| "js_mul (Num a) NegInf = (if a = 0 then NaN else if 0 < a then NegInf else PosInf)"
| "js_mul PosInf (Num b) = (if b = 0 then NaN else if 0 < b then PosInf else NegInf)"
| "js_mul NegInf (Num b) = (if b = 0 then NaN else if 0 < b then NegInf else PosInf)"
| "js_mul PosInf PosInf = PosInf"
| "js_mul PosInf NegInf = NegInf"
| "js_mul NegInf PosInf = NegInf"
| "js_mul NegInf NegInf = PosInf"
| "js_mul NaN y = NaN"
| "js_mul x NaN = NaN"

fun js_add :: "jsnum \<Rightarrow> jsnum \<Rightarrow> jsnum" where
  "js_add (Num a) (Num b) = fl64 (a + b)"
| "js_add NaN y = NaN"
| "js_add x NaN = NaN"
| "js_add PosInf NegInf = NaN"
| "js_add NegInf PosInf = NaN"
| "js_add PosInf y = PosInf"
| "js_add x PosInf = PosInf"
| "js_add NegInf y = NegInf"
| "js_add x NegInf = NegInf"

text \<open>
  \<^verbatim>\<open>Math.round\<close>: the nearest integer, a tie going up. The result is exact: the nearest
  integer of a double is a double.
\<close>

definition round_half_up :: "rat \<Rightarrow> int" where
  "round_half_up r = \<lfloor>r + 1 / 2\<rfloor>"

fun Math_round :: "jsnum \<Rightarrow> jsnum" where
  "Math_round (Num r) = Num (of_int (round_half_up r))"
| "Math_round x = x"

fun Math_min :: "jsnum \<Rightarrow> jsnum \<Rightarrow> jsnum" where
  "Math_min NaN y = NaN"
| "Math_min x NaN = NaN"
| "Math_min NegInf y = NegInf"
| "Math_min x NegInf = NegInf"
| "Math_min PosInf y = y"
| "Math_min x PosInf = x"
| "Math_min (Num a) (Num b) = Num (min a b)"

text \<open>The comparison \<^verbatim>\<open>x <= y\<close> of two numbers; it is false when either is \<^verbatim>\<open>NaN\<close>.\<close>

fun js_le :: "jsnum \<Rightarrow> jsnum \<Rightarrow> bool" where
  "js_le NaN y = False"
| "js_le x NaN = False"
| "js_le NegInf y = True"
| "js_le x PosInf = True"
| "js_le PosInf y = False"
| "js_le x NegInf = False"
| "js_le (Num a) (Num b) = (a \<le> b)"

text \<open>The number a decimal literal of the source denotes, such as \<^verbatim>\<open>0.1\<close>.\<close>

definition js_literal :: "rat \<Rightarrow> jsnum" where
  "js_literal r = fl64 r"

text \<open>Decimal digits of an integer.\<close>

definition digit_char :: "nat \<Rightarrow> char" where
  "digit_char d = ''0123456789'' ! d"

fun string_of_nat :: "nat \<Rightarrow> string" where
  "string_of_nat n =
     (if 10 \<le> n then string_of_nat (n div 10) @ [digit_char (n mod 10)]
      else [digit_char n])"

definition string_of_int :: "int \<Rightarrow> string" where
  "string_of_int k =
     (if 0 \<le> k then string_of_nat (nat k) else CHR ''-'' # string_of_nat (nat (- k)))"

text \<open>
  Strings are lists of 8-bit characters; the accented letters of the Portuguese messages
  are the characters with their Latin-1 code.
\<close>

abbreviation a_acute :: char where "a_acute \<equiv> CHR 0xE1"
abbreviation a_tilde :: char where "a_tilde \<equiv> CHR 0xE3"
abbreviation i_acute :: char where "i_acute \<equiv> CHR 0xED"
abbreviation newline :: char where "newline \<equiv> CHR 0x0A"

text \<open>
  \<^verbatim>\<open>String.prototype.trim\<close> removes white space and line terminators from both ends:
  TAB, LF, VT, FF, CR, SPACE and NBSP among the 8-bit characters.
\<close>

definition is_whitespace :: "char \<Rightarrow> bool" where
  "is_whitespace c =
     (c = CHR 0x09 \<or> c = CHR 0x0A \<or> c = CHR 0x0B \<or> c = CHR 0x0C \<or> c = CHR 0x0D
      \<or> c = CHR 0x20 \<or> c = CHR 0xA0)"

definition trim :: "string \<Rightarrow> string" where
  "trim s = rev (dropWhile is_whitespace (rev (dropWhile is_whitespace s)))"

section \<open>State of the upload component\<close>

datatype status_type = Info | Success | Warning | Error

record status_message =
  sm_text :: string
  sm_type :: status_type

text \<open>The uploaded \<^verbatim>\<open>File\<close>: its name and its media type (\<^verbatim>\<open>file.type\<close>).\<close>

record upload_file =
  file_name :: string
  file_type :: string

text \<open>
  The cell \<^verbatim>\<open>ocrPageProgressDataRef.current\<close>. The two page counters are natural numbers:
  a page count is far below \<^verbatim>\<open>2^53\<close>, where counting in doubles is exact.
\<close>

record page_progress_data =
  currentPage :: nat
  totalPages :: nat
  baseProgress :: jsnum
  pageBudget :: jsnum

text \<open>
  The calls that leave the component: each call of \<^verbatim>\<open>setProcessingProgress\<close>, of the PDF
  library and of the recognition engine. A \<^verbatim>\<open>terminate\<close> call is \<open>WorkerTerminated\<close>
  when it resolves and \<open>TerminateRejected\<close> when it rejects; \<open>PromiseRejected\<close> is an
  error that leaves the operation uncaught.
\<close>

datatype effect =
    SetProgress jsnum
  | GetDocument
  | CreateWorker
  | WorkerCreated
  | WorkerTerminated
  | GetPage nat
  | RecognizeCall
  | PageCleanup nat
  | TerminateRejected
  | PromiseRejected string

text \<open>
  The React state the component reads and writes (\<^verbatim>\<open>useAppContext\<close> and the local
  \<^verbatim>\<open>useState\<close> cells), the progress cell, the delays of the pending
  \<^verbatim>\<open>clearStatusMessageAfterDelay\<close> timers, and a trace. The trace is not in the source: it
  records the calls above in the order of execution, each with what an observer sees at
  that moment, the raw extracted text and the progress cell.
\<close>

record app_state =
  rawExtractedText :: string
  isLoading :: bool
  statusMessage :: "status_message option"
  currentFile :: "upload_file option"
  processingProgress :: jsnum
  processingMessage :: string
  ocrPageProgressDataRef :: page_progress_data
  timers :: "nat list"
  trace :: "(effect \<times> string \<times> page_progress_data) list"

definition effects :: "app_state \<Rightarrow> effect list" where
  "effects st = map fst (trace st)"

text \<open>How often a call is in the trace.\<close>

definition calls :: "effect \<Rightarrow> app_state \<Rightarrow> nat" where
  "calls e st = count_list (effects st) e"

definition initial_state :: app_state where
  "initial_state =
     \<lparr>rawExtractedText = [], isLoading = False, statusMessage = None, currentFile = None,
      processingProgress = Num 0, processingMessage = [],
      ocrPageProgressDataRef =
        \<lparr>currentPage = 0, totalPages = 0, baseProgress = Num 0, pageBudget = Num 0\<rparr>,
      timers = [], trace = []\<rparr>"

definition setRawExtractedText :: "string \<Rightarrow> app_state \<Rightarrow> app_state" where
  "setRawExtractedText t st = st\<lparr>rawExtractedText := t\<rparr>"

definition setIsLoading :: "bool \<Rightarrow> app_state \<Rightarrow> app_state" where
  "setIsLoading b st = st\<lparr>isLoading := b\<rparr>"

definition setStatusMessage :: "status_message option \<Rightarrow> app_state \<Rightarrow> app_state" where
  "setStatusMessage m st = st\<lparr>statusMessage := m\<rparr>"

definition setCurrentFile :: "upload_file option \<Rightarrow> app_state \<Rightarrow> app_state" where
  "setCurrentFile f st = st\<lparr>currentFile := f\<rparr>"

definition setProcessingMessage :: "string \<Rightarrow> app_state \<Rightarrow> app_state" where
  "setProcessingMessage m st = st\<lparr>processingMessage := m\<rparr>"

definition log_effect :: "effect \<Rightarrow> app_state \<Rightarrow> app_state" where
  "log_effect e st =
     st\<lparr>trace := trace st @ [(e, rawExtractedText st, ocrPageProgressDataRef st)]\<rparr>"

definition setProcessingProgress :: "jsnum \<Rightarrow> app_state \<Rightarrow> app_state" where
  "setProcessingProgress v st = log_effect (SetProgress v) (st\<lparr>processingProgress := v\<rparr>)"

text \<open>\<^verbatim>\<open>clearStatusMessageAfterDelay(delay = 5000)\<close> only schedules a timer.\<close>

definition clearStatusMessageAfterDelay :: "nat \<Rightarrow> app_state \<Rightarrow> app_state" where
  "clearStatusMessageAfterDelay delay st = st\<lparr>timers := timers st @ [delay]\<rparr>"

section \<open>The external collaborators\<close>

text \<open>
  \<^verbatim>\<open>TesseractProgressUpdate\<close>: a status and an optional progress fraction
  (\<open>None\<close> when \<^verbatim>\<open>typeof m.progress\<close> is not \<^verbatim>\<open>'number'\<close>). The fraction the engine
  reports is a finite double.
\<close>

record tesseract_update =
  status :: string
  progress :: "rat option"

datatype page_result =
    GetPageFails string
  | NoCanvasContext
  | RenderFails string
  | Recognize "tesseract_update list" "string + string"

text \<open>
  What the run-time, the PDF library and the recognition engine answer for the file being
  processed. An error is the text the \<^verbatim>\<open>catch\<close> block interpolates
  (\<^verbatim>\<open>error instanceof Error ? error.message : String(error)\<close>).
  \<^item> \<open>env_closureMessage\<close>: the \<^verbatim>\<open>processingMessage\<close> of the render that created the
    logger closures; the loggers compare with it and not with the current state.
  \<^item> \<open>env_number_text\<close>: the text of a number above \<^verbatim>\<open>2^53\<close> in a template literal
    (shortest digits, exponent notation from \<^verbatim>\<open>1e21\<close>), which is not computed here.
  \<^item> \<open>env_terminate k\<close>: what the \<^verbatim>\<open>terminate\<close> call answers that comes after \<open>k\<close> earlier
    ones in the trace: it resolves (\<open>None\<close>) or rejects.
\<close>

record ocr_env =
  env_closureMessage :: string
  env_number_text :: "rat \<Rightarrow> string"
  env_arrayBuffer_error :: "string option"
  env_getDocument :: "string + nat"
  env_createWorker_updates :: "tesseract_update list"
  env_createWorker_error :: "string option"
  env_page :: "nat \<Rightarrow> page_result"
  env_image_updates :: "tesseract_update list"
  env_image_result :: "string + string"
  env_terminate :: "nat \<Rightarrow> string option"

section \<open>The progress loggers\<close>

text \<open>
  A number inside a template literal. The source interpolates results of \<^verbatim>\<open>Math.round\<close>,
  which are integers and up to \<^verbatim>\<open>2^53\<close> are printed digit by digit, and page counters,
  which are page counts of a parsed PDF and printed digit by digit.
\<close>

definition number_text :: "ocr_env \<Rightarrow> jsnum \<Rightarrow> string" where
  "number_text env x =
     (case x of
        Num r \<Rightarrow> if \<bar>r\<bar> \<le> 2 ^ 53 then string_of_int \<lfloor>r\<rfloor> else env_number_text env r
      | PosInf \<Rightarrow> ''Infinity''
      | NegInf \<Rightarrow> ''-Infinity''
      | NaN \<Rightarrow> ''NaN'')"

text \<open>\<^verbatim>\<open>(m.progress || 0)\<close>\<close>

definition progress_or_zero :: "tesseract_update \<Rightarrow> rat" where
  "progress_or_zero m = (case progress m of None \<Rightarrow> 0 | Some p \<Rightarrow> p)"

definition is_loading_status :: "string \<Rightarrow> bool" where
  "is_loading_status s =
     (s = ''loading tesseract core'' \<or> s = ''initializing api''
      \<or> s = ''loading language traineddata'' \<or> s = ''initializing tesseract'')"

definition percent_text :: "ocr_env \<Rightarrow> rat \<Rightarrow> string" where
  "percent_text env p = number_text env (Math_round (js_mul (Num p) (Num 100)))"

definition recognizing_message :: "ocr_env \<Rightarrow> rat \<Rightarrow> string" where
  "recognizing_message env p = ''Reconhecendo texto... '' @ percent_text env p @ ''%''"

text \<open>\<^verbatim>\<open>imageOcrLogger\<close>\<close>

definition imageOcrLogger :: "ocr_env \<Rightarrow> tesseract_update \<Rightarrow> app_state \<Rightarrow> app_state" where
  "imageOcrLogger env m st =
     (case (status m = ''recognizing text'', progress m) of
        (True, Some p) \<Rightarrow>
          setProcessingMessage (recognizing_message env p)
            (setProcessingProgress (Math_round (js_mul (Num p) (Num 100))) st)
      | _ \<Rightarrow>
          if is_loading_status (status m) then
            (if env_closureMessage env \<noteq> recognizing_message env (progress_or_zero m)
                \<and> progress_or_zero m < 1
             then setProcessingMessage (''Inicializando OCR: '' @ status m) st
             else st)
          else if status m \<noteq> ''initialized api'' \<and> status m \<noteq> ''loaded language traineddata''
                  \<and> progress_or_zero m < 1 then
            (if status m \<noteq> ''recognizing text'' then setProcessingMessage (status m) st else st)
          else st)"

definition page_word :: string where
  "page_word = ''p'' @ [a_acute] @ ''gina''"

definition analysing_message :: "ocr_env \<Rightarrow> nat \<Rightarrow> nat \<Rightarrow> rat \<Rightarrow> string" where
  "analysing_message env cur tot p =
     ''Analisando '' @ page_word @ '' '' @ string_of_nat cur @ ''/'' @ string_of_nat tot
       @ '' (Progresso OCR: '' @ percent_text env p @ ''%)...''"

text \<open>\<^verbatim>\<open>pageAwarePdfOcrLogger\<close>, reading the progress cell.\<close>

definition pageAwarePdfOcrLogger :: "ocr_env \<Rightarrow> tesseract_update \<Rightarrow> app_state \<Rightarrow> app_state" where
  "pageAwarePdfOcrLogger env m st =
     (let d = ocrPageProgressDataRef st in
      case (status m = ''recognizing text'', progress m) of
        (True, Some p) \<Rightarrow>
          (let currentPageProgress = Math_round (js_mul (Num p) (pageBudget d));
               overallProgress =
                 Math_min (Num 100) (Math_round (js_add (baseProgress d) currentPageProgress))
           in setProcessingMessage (analysing_message env (currentPage d) (totalPages d) p)
                (setProcessingProgress overallProgress st))
      | _ \<Rightarrow>
          if is_loading_status (status m) then
            (if env_closureMessage env
                  \<noteq> analysing_message env (currentPage d) (totalPages d) (progress_or_zero m)
                \<and> progress_or_zero m < 1
             then setProcessingMessage
                    (''Inicializando OCR para '' @ page_word @ '' ''
                       @ string_of_nat (currentPage d) @ '': '' @ status m) st
             else st)
          else if status m \<noteq> ''initialized api'' \<and> status m \<noteq> ''loaded language traineddata''
                  \<and> progress_or_zero m < 1 then
            (if status m \<noteq> ''recognizing text''
             then setProcessingMessage
                    (''Status OCR p'' @ [a_acute] @ ''g. '' @ string_of_nat (currentPage d)
                       @ '': '' @ status m) st
             else st)
          else st)"

text \<open>The engine calls the logger once for each update, in order.\<close>

definition run_logger ::
  "(tesseract_update \<Rightarrow> app_state \<Rightarrow> app_state) \<Rightarrow> tesseract_update list \<Rightarrow> app_state \<Rightarrow> app_state"
where
  "run_logger logger ms st = foldl (\<lambda>s m. logger m s) st ms"

section \<open>The recognition worker\<close>

text \<open>
  \<^verbatim>\<open>initializeTesseractWorker\<close>: the engine reports its loading through the logger, then
  the worker exists or the call rejects.
\<close>

definition initializeTesseractWorker ::
  "ocr_env \<Rightarrow> (tesseract_update \<Rightarrow> app_state \<Rightarrow> app_state) \<Rightarrow> app_state
     \<Rightarrow> string option \<times> app_state"
where
  "initializeTesseractWorker env loggerCallback st =
     (let st1 = run_logger loggerCallback (env_createWorker_updates env)
                  (log_effect CreateWorker st)
      in case env_createWorker_error env of
           Some e \<Rightarrow> (Some e, st1)
         | None \<Rightarrow> (None, log_effect WorkerCreated st1))"

definition terminate_calls :: "app_state \<Rightarrow> nat" where
  "terminate_calls st = calls WorkerTerminated st + calls TerminateRejected st"

text \<open>
  \<^verbatim>\<open>await worker.terminate()\<close>: \<open>Some e\<close> when the call rejects with \<open>e\<close>; and the guarded
  \<^verbatim>\<open>if (worker) await worker.terminate()\<close> of the \<^verbatim>\<open>catch\<close> blocks.
\<close>

definition terminate_worker :: "ocr_env \<Rightarrow> app_state \<Rightarrow> string option \<times> app_state" where
  "terminate_worker env st =
     (case env_terminate env (terminate_calls st) of
        None \<Rightarrow> (None, log_effect WorkerTerminated st)
      | Some e \<Rightarrow> (Some e, log_effect TerminateRejected st))"

definition terminate_if_live :: "ocr_env \<Rightarrow> bool \<Rightarrow> app_state \<Rightarrow> string option \<times> app_state" where
  "terminate_if_live env worker st = (if worker then terminate_worker env st else (None, st))"

section \<open>OCR of an image\<close>

text \<open>
  The result of a \<^verbatim>\<open>try\<close> block: the error thrown (if any), whether the local variable
  \<^verbatim>\<open>worker\<close> is non-null when the block is left, and the state.
\<close>

type_synonym try_result = "string option \<times> bool \<times> app_state"

definition image_empty_status :: status_message where
  "image_empty_status =
     \<lparr>sm_text = ''OCR conclu'' @ [i_acute] @ ''do, mas nenhum texto foi detectado na imagem.'',
      sm_type = Warning\<rparr>"

definition image_success_status :: status_message where
  "image_success_status =
     \<lparr>sm_text = ''Texto da imagem extra'' @ [i_acute] @ ''do com OCR com sucesso!'',
      sm_type = Success\<rparr>"

definition ocrImageFile_try :: "ocr_env \<Rightarrow> app_state \<Rightarrow> try_result" where
  "ocrImageFile_try env st =
     (case initializeTesseractWorker env (imageOcrLogger env) st of
        (Some e, st1) \<Rightarrow> (Some e, False, st1)
      | (None, st1) \<Rightarrow>
          (let st2 = run_logger (imageOcrLogger env) (env_image_updates env)
                       (log_effect RecognizeCall st1)
           in case env_image_result env of
                Inl e \<Rightarrow> (Some e, True, st2)
              | Inr result_text \<Rightarrow>
                  (case terminate_worker env st2 of
                     (Some e, st3) \<Rightarrow> (Some e, True, st3)
                   | (None, st3) \<Rightarrow>
                       if trim result_text = []
                       then (None, False,
                             setStatusMessage (Some image_empty_status)
                               (setRawExtractedText [] st3))
                       else (None, False,
                             clearStatusMessageAfterDelay 5000
                               (setStatusMessage (Some image_success_status)
                                  (setRawExtractedText result_text st3))))))"

text \<open>The \<^verbatim>\<open>catch\<close> block; \<open>Some e\<close> when its own \<^verbatim>\<open>terminate\<close> call rejects with \<open>e\<close>.\<close>

definition ocrImageFile_catch ::
  "ocr_env \<Rightarrow> string \<Rightarrow> bool \<Rightarrow> app_state \<Rightarrow> string option \<times> app_state"
where
  "ocrImageFile_catch env e worker st =
     terminate_if_live env worker
       (setStatusMessage
          (Some \<lparr>sm_text = ''Falha ao processar imagem com OCR: '' @ e, sm_type = Error\<rparr>)
          (setRawExtractedText [] st))"

definition ocrImageFile_finally :: "app_state \<Rightarrow> app_state" where
  "ocrImageFile_finally st =
     setProcessingProgress (Num 0) (setProcessingMessage [] (setIsLoading False st))"

text \<open>
  \<^verbatim>\<open>ocrImageFile\<close>. An error thrown inside the \<^verbatim>\<open>catch\<close> block leaves the function after
  the \<^verbatim>\<open>finally\<close> block has run.
\<close>

definition ocrImageFile :: "ocr_env \<Rightarrow> app_state \<Rightarrow> app_state" where
  "ocrImageFile env st =
     (let st0 = setProcessingProgress (Num 0)
                  (setProcessingMessage ''Processando Imagem (OCR)...'' st)
      in case ocrImageFile_try env st0 of
           (None, worker, st1) \<Rightarrow> ocrImageFile_finally st1
         | (Some e, worker, st1) \<Rightarrow>
             (case ocrImageFile_catch env e worker st1 of
                (None, st2) \<Rightarrow> ocrImageFile_finally st2
              | (Some e2, st2) \<Rightarrow> log_effect (PromiseRejected e2) (ocrImageFile_finally st2)))"

section \<open>OCR of a PDF, page by page\<close>

definition pdf_init_page_data :: "nat \<Rightarrow> page_progress_data" where
  "pdf_init_page_data numPages =
     \<lparr>currentPage = 0, totalPages = numPages, baseProgress = Num 0,
      pageBudget = js_div 100 (of_nat numPages)\<rparr>"

text \<open>The head of the loop body: the progress cell and the render-start update of page \<open>i\<close>.\<close>

definition pdf_begin_page :: "nat \<Rightarrow> nat \<Rightarrow> app_state \<Rightarrow> app_state" where
  "pdf_begin_page numPages i st =
     (let d = (ocrPageProgressDataRef st)
                \<lparr>currentPage := i,
                 baseProgress := js_mul (js_div (of_nat i - 1) (of_nat numPages)) (Num 100)\<rparr>;
          st1 = setProcessingMessage
                  (''Renderizando '' @ page_word @ '' '' @ string_of_nat i @ ''/''
                     @ string_of_nat numPages @ '' do PDF...'')
                  (st\<lparr>ocrPageProgressDataRef := d\<rparr>)
      in setProcessingProgress
           (Math_round (js_add (baseProgress d) (js_mul (pageBudget d) (js_literal (1 / 10)))))
           st1)"

definition no_context_error :: string where
  "no_context_error =
     ''N'' @ [a_tilde] @ ''o foi poss'' @ [i_acute] @ ''vel obter o contexto 2D do canvas.''"

text \<open>
  The loop \<^verbatim>\<open>for (let i = 1; i <= pdfDoc.numPages; i++)\<close>: \<open>Inl\<close> is the error thrown
  out of the loop, \<open>Inr\<close> the text accumulated in \<^verbatim>\<open>fullText\<close>.
\<close>

function pdf_page_loop ::
  "ocr_env \<Rightarrow> nat \<Rightarrow> nat \<Rightarrow> string \<Rightarrow> app_state \<Rightarrow> (string + string) \<times> app_state"
where
  "pdf_page_loop env numPages i fullText st =
     (if i \<le> numPages then
        (let st1 = log_effect (GetPage i) (pdf_begin_page numPages i st) in
         case env_page env i of
           GetPageFails e \<Rightarrow> (Inl e, st1)
         | NoCanvasContext \<Rightarrow> (Inl no_context_error, st1)
         | RenderFails e \<Rightarrow> (Inl e, st1)
         | Recognize updates res \<Rightarrow>
             (let st2 = setProcessingMessage
                          (''Analisando '' @ page_word @ '' '' @ string_of_nat i @ ''/''
                             @ string_of_nat numPages @ '' com OCR...'') st1;
                  st3 = run_logger (pageAwarePdfOcrLogger env) updates
                          (log_effect RecognizeCall st2)
              in case res of
                   Inl e \<Rightarrow> (Inl e, st3)
                 | Inr pageText \<Rightarrow>
                     pdf_page_loop env numPages (Suc i) (fullText @ pageText @ [newline])
                       (log_effect (PageCleanup i) st3)))
      else (Inr fullText, st))"
  by pat_completeness auto
termination
proof (relation "measure (\<lambda>(env, numPages, i, fullText, st). Suc numPages - i)")
  show "wf (measure (\<lambda>(env, numPages, i, fullText, st). Suc numPages - i))"
    by simp
qed (simp only: in_measure prod.case)

definition pdf_empty_status :: status_message where
  "pdf_empty_status =
     \<lparr>sm_text = ''OCR do PDF conclu'' @ [i_acute] @ ''do, mas nenhum texto foi detectado.'',
      sm_type = Warning\<rparr>"

definition pdf_success_status :: status_message where
  "pdf_success_status =
     \<lparr>sm_text = ''Texto do PDF extra'' @ [i_acute] @ ''do com OCR com sucesso!'',
      sm_type = Success\<rparr>"

definition ocrPdfDocument_try :: "ocr_env \<Rightarrow> app_state \<Rightarrow> try_result" where
  "ocrPdfDocument_try env st =
     (case env_arrayBuffer_error env of
        Some e \<Rightarrow> (Some e, False, st)
      | None \<Rightarrow>
         (case env_getDocument env of
            Inl e \<Rightarrow> (Some e, False, log_effect GetDocument st)
          | Inr numPages \<Rightarrow>
             (let st1 = (log_effect GetDocument st)
                          \<lparr>ocrPageProgressDataRef := pdf_init_page_data numPages\<rparr>
              in case initializeTesseractWorker env (pageAwarePdfOcrLogger env) st1 of
                   (Some e, st2) \<Rightarrow> (Some e, False, st2)
                 | (None, st2) \<Rightarrow>
                    (case pdf_page_loop env numPages 1 [] st2 of
                       (Inl e, st3) \<Rightarrow> (Some e, True, st3)
                     | (Inr fullText, st3) \<Rightarrow>
                        (case terminate_worker env st3 of
                           (Some e, st4) \<Rightarrow> (Some e, True, st4)
                         | (None, st4) \<Rightarrow>
                             if trim fullText = []
                             then (None, False,
                                   setStatusMessage (Some pdf_empty_status)
                                     (setRawExtractedText [] st4))
                             else (None, False,
                                   clearStatusMessageAfterDelay 5000
                                     (setStatusMessage (Some pdf_success_status)
                                        (setRawExtractedText (trim fullText) st4))))))))"

definition ocrPdfDocument_catch ::
  "ocr_env \<Rightarrow> string \<Rightarrow> bool \<Rightarrow> app_state \<Rightarrow> string option \<times> app_state"
where
  "ocrPdfDocument_catch env e tesseractWorker st =
     terminate_if_live env tesseractWorker
       (setStatusMessage
          (Some \<lparr>sm_text = ''Falha ao processar PDF com OCR: '' @ e, sm_type = Error\<rparr>)
          (setRawExtractedText [] st))"

definition ocrPdfDocument_finally :: "app_state \<Rightarrow> app_state" where
  "ocrPdfDocument_finally st =
     (setProcessingProgress (Num 0) (setProcessingMessage [] (setIsLoading False st)))
       \<lparr>ocrPageProgressDataRef :=
          \<lparr>currentPage = 0, totalPages = 0, baseProgress = Num 0, pageBudget = Num 0\<rparr>\<rparr>"

definition ocrPdfDocument :: "ocr_env \<Rightarrow> app_state \<Rightarrow> app_state" where
  "ocrPdfDocument env st =
     (let st0 = setProcessingProgress (Num 0)
                  (setProcessingMessage ''Iniciando processamento OCR do PDF...'' st)
      in case ocrPdfDocument_try env st0 of
           (None, tesseractWorker, st1) \<Rightarrow> ocrPdfDocument_finally st1
         | (Some e, tesseractWorker, st1) \<Rightarrow>
             (case ocrPdfDocument_catch env e tesseractWorker st1 of
                (None, st2) \<Rightarrow> ocrPdfDocument_finally st2
              | (Some e2, st2) \<Rightarrow>
                  log_effect (PromiseRejected e2) (ocrPdfDocument_finally st2)))"

section \<open>Accepting a file\<close>

text \<open>The first statements of \<^verbatim>\<open>handleFile\<close>, before the media type is looked at.\<close>

definition handleFile_accept :: "upload_file \<Rightarrow> app_state \<Rightarrow> app_state" where
  "handleFile_accept selectedFile st =
     clearStatusMessageAfterDelay 2000
       (setStatusMessage
          (Some \<lparr>sm_text = ''Carregando arquivo: '' @ file_name selectedFile, sm_type = Info\<rparr>)
          (setRawExtractedText [] (setCurrentFile (Some selectedFile) (setIsLoading True st))))"

definition unsupported_status :: status_message where
  "unsupported_status =
     \<lparr>sm_text = ''Tipo de arquivo n'' @ [a_tilde] @ ''o suportado. Use PDF ou Imagem.'',
      sm_type = Warning\<rparr>"

text \<open>
  \<^verbatim>\<open>handleFile\<close>, with the OCR it starts run to its end (one operation at a time).
\<close>

definition handleFile :: "ocr_env \<Rightarrow> upload_file option \<Rightarrow> app_state \<Rightarrow> app_state" where
  "handleFile env selectedFile st =
     (case selectedFile of
        None \<Rightarrow> st
      | Some f \<Rightarrow>
          (let st1 = handleFile_accept f st in
           if file_type f = ''application/pdf'' then ocrPdfDocument env st1
           else if prefix ''image/'' (file_type f) then ocrImageFile env st1
           else setCurrentFile None
                  (setIsLoading False
                     (clearStatusMessageAfterDelay 5000
                        (setStatusMessage (Some unsupported_status) st1)))))"

section \<open>Observations on a run\<close>

text \<open>The values passed to \<^verbatim>\<open>setProcessingProgress\<close>, oldest first.\<close>

fun progress_values :: "effect list \<Rightarrow> jsnum list" where
  "progress_values [] = []"
| "progress_values (SetProgress v # es) = v # progress_values es"
| "progress_values (e # es) = progress_values es"

definition emitted_progress :: "app_state \<Rightarrow> jsnum list" where
  "emitted_progress st = progress_values (effects st)"

text \<open>The values emitted, and the trace written, between an earlier state and a later one.\<close>

definition emitted_since :: "app_state \<Rightarrow> app_state \<Rightarrow> jsnum list" where
  "emitted_since st st' = drop (length (emitted_progress st)) (emitted_progress st')"

definition trace_since ::
  "app_state \<Rightarrow> app_state \<Rightarrow> (effect \<times> string \<times> page_progress_data) list"
where
  "trace_since st st' = drop (length (trace st)) (trace st')"

text \<open>The raw extracted text an observer sees at the calls of a trace.\<close>

definition texts_seen :: "(effect \<times> string \<times> page_progress_data) list \<Rightarrow> string list" where
  "texts_seen tr = map (\<lambda>(e, t, d). t) tr"

text \<open>The pages started in a trace (\<^verbatim>\<open>pdfDoc.getPage(i)\<close>), each with the progress cell at
  that moment.\<close>

fun page_starts ::
  "(effect \<times> string \<times> page_progress_data) list \<Rightarrow> (nat \<times> page_progress_data) list"
where
  "page_starts [] = []"
| "page_starts ((GetPage i, t, d) # tr) = (i, d) # page_starts tr"
| "page_starts (x # tr) = page_starts tr"

text \<open>
  The update \<^verbatim>\<open>{ status: 'recognizing text', progress: p }\<close> for a decimal literal \<open>p\<close>
  (within the range of the finite doubles).
\<close>

definition literal_value :: "rat \<Rightarrow> rat" where
  "literal_value p = (case js_literal p of Num d \<Rightarrow> d | _ \<Rightarrow> 0)"

definition recognizing :: "rat \<Rightarrow> tesseract_update" where
  "recognizing p = \<lparr>status = ''recognizing text'', progress = Some (literal_value p)\<rparr>"

text \<open>The fractions of the recognition-progress updates among the updates of one call.\<close>

fun recognition_fractions :: "tesseract_update list \<Rightarrow> rat list" where
  "recognition_fractions [] = []"
| "recognition_fractions (m # ms) =
     (case (status m = ''recognizing text'', progress m) of
        (True, Some p) \<Rightarrow> p # recognition_fractions ms
      | _ \<Rightarrow> recognition_fractions ms)"

text \<open>The outcome shown to the user: the type of the status message.\<close>

definition outcome :: "app_state \<Rightarrow> status_type option" where
  "outcome st = map_option sm_type (statusMessage st)"

text \<open>
  Between an earlier state and a later one the trace has only grown, and at every call
  in between the observer saw one of the texts \<open>T\<close>.
\<close>

definition seen_only :: "string set \<Rightarrow> app_state \<Rightarrow> app_state \<Rightarrow> bool" where
  "seen_only T st st' = (\<exists>new. trace st' = trace st @ new \<and> set (texts_seen new) \<subseteq> T)"

text \<open>A step that keeps the text and shows only it.\<close>

definition quiet :: "app_state \<Rightarrow> app_state \<Rightarrow> bool" where
  "quiet st st' =
     (rawExtractedText st' = rawExtractedText st \<and> seen_only {rawExtractedText st} st st')"

subsection \<open>The value a logger emits\<close>

text \<open>The overall progress the PDF logger computes from the progress cell and a fraction.\<close>

definition pdf_overall_progress :: "page_progress_data \<Rightarrow> rat \<Rightarrow> jsnum" where
  "pdf_overall_progress d p =
     Math_min (Num 100)
       (Math_round (js_add (baseProgress d) (Math_round (js_mul (Num p) (pageBudget d)))))"

definition image_overall_progress :: "rat \<Rightarrow> jsnum" where
  "image_overall_progress p = Math_round (js_mul (Num p) (Num 100))"

text \<open>
  The progress cell while page \<open>i\<close> of \<open>N\<close> is processed, in the arithmetic of the source:
  the budget \<^verbatim>\<open>100 / N\<close> and the base \<^verbatim>\<open>((i - 1) / N) * 100\<close>.
\<close>

definition page_cell :: "nat \<Rightarrow> nat \<Rightarrow> page_progress_data" where
  "page_cell N i =
     \<lparr>currentPage = i, totalPages = N,
      baseProgress = js_mul (js_div (of_nat i - 1) (of_nat N)) (Num 100),
      pageBudget = js_div 100 (of_nat N)\<rparr>"

text \<open>The render-start value of page \<open>i\<close>: \<^verbatim>\<open>Math.round(baseProgress + pageBudget * 0.1)\<close>.\<close>

definition render_start_value :: "nat \<Rightarrow> nat \<Rightarrow> jsnum" where
  "render_start_value N i =
     Math_round (js_add (baseProgress (page_cell N i))
                   (js_mul (pageBudget (page_cell N i)) (js_literal (1 / 10))))"

text \<open>Every progress value one page emits: its render start, then one value for each
  recognition fraction.\<close>

definition page_emissions :: "nat \<Rightarrow> nat \<Rightarrow> tesseract_update list \<Rightarrow> jsnum list" where
  "page_emissions N i updates =
     render_start_value N i
       # map (pdf_overall_progress (page_cell N i)) (recognition_fractions updates)"


subsection \<open>Stages of a PDF run\<close>

text \<open>
  The state in which the page loop of \<^verbatim>\<open>ocrPdfDocument\<close> starts, for a file that was read
  and parsed to \<open>numPages\<close> pages and a worker that was created.
\<close>

definition pdf_loop_start :: "ocr_env \<Rightarrow> nat \<Rightarrow> app_state \<Rightarrow> app_state" where
  "pdf_loop_start env numPages st =
     log_effect WorkerCreated
       (run_logger (pageAwarePdfOcrLogger env) (env_createWorker_updates env)
          (log_effect CreateWorker
             ((log_effect GetDocument
                 (setProcessingProgress (Num 0)
                    (setProcessingMessage ''Iniciando processamento OCR do PDF...'' st)))
                \<lparr>ocrPageProgressDataRef := pdf_init_page_data numPages\<rparr>)))"

text \<open>The state after one pass of the loop body for a page that was rendered and
  recognised, the engine having sent \<open>updates\<close>.\<close>

definition pdf_page_done ::
  "ocr_env \<Rightarrow> nat \<Rightarrow> nat \<Rightarrow> tesseract_update list \<Rightarrow> app_state \<Rightarrow> app_state"
where
  "pdf_page_done env numPages i updates st =
     log_effect (PageCleanup i)
       (run_logger (pageAwarePdfOcrLogger env) updates
          (log_effect RecognizeCall
             (setProcessingMessage
                (''Analisando '' @ page_word @ '' '' @ string_of_nat i @ ''/''
                   @ string_of_nat numPages @ '' com OCR...'')
                (log_effect (GetPage i) (pdf_begin_page numPages i st)))))"

text \<open>The end of the \<^verbatim>\<open>try\<close> block of \<^verbatim>\<open>ocrPdfDocument\<close> once the worker is terminated:
  the accumulated text is classified and surfaced.\<close>

definition pdf_surface :: "string \<Rightarrow> app_state \<Rightarrow> app_state" where
  "pdf_surface fullText st =
     (if trim fullText = []
      then setStatusMessage (Some pdf_empty_status) (setRawExtractedText [] st)
      else clearStatusMessageAfterDelay 5000
             (setStatusMessage (Some pdf_success_status)
                (setRawExtractedText (trim fullText) st)))"

subsection \<open>The calls of one operation\<close>

text \<open>How many calls of a kind were made between an earlier state and a later one.\<close>

definition new_calls :: "effect \<Rightarrow> app_state \<Rightarrow> app_state \<Rightarrow> nat" where
  "new_calls e st st' = calls e st' - calls e st"

text \<open>
  The discipline of an operation that starts in \<open>st\<close> and ends in \<open>st'\<close>: at most one
  worker is created; without a worker \<^verbatim>\<open>terminate\<close> is not called; with a worker it is
  called once or twice, and at most one call resolves; when the first call resolves it is
  the only one; a second call is made only after the first one rejected.
\<close>

definition worker_discipline :: "ocr_env \<Rightarrow> app_state \<Rightarrow> app_state \<Rightarrow> bool" where
  "worker_discipline env st st' =
     (let created = new_calls WorkerCreated st st';
          resolved = new_calls WorkerTerminated st st';
          rejected = new_calls TerminateRejected st st'
      in calls WorkerCreated st \<le> calls WorkerCreated st'
         \<and> calls WorkerTerminated st \<le> calls WorkerTerminated st'
         \<and> calls TerminateRejected st \<le> calls TerminateRejected st'
         \<and> created \<le> 1
         \<and> resolved \<le> 1
         \<and> resolved + rejected \<le> 2
         \<and> (created = 0 \<longrightarrow> resolved + rejected = 0)
         \<and> (created = 1 \<longrightarrow> 1 \<le> resolved + rejected)
         \<and> (env_terminate env (terminate_calls st) = None
                \<longrightarrow> resolved = created \<and> rejected = 0)
         \<and> (resolved + rejected = 2 \<longrightarrow> env_terminate env (terminate_calls st) \<noteq> None))"

text \<open>
  How a \<^verbatim>\<open>try\<close> block is left: without a worker; with a live worker and no
  \<^verbatim>\<open>terminate\<close> call yet; with a live worker whose \<^verbatim>\<open>terminate\<close> call rejected; or
  completed, with the worker terminated and the variable cleared.
\<close>

definition try_exit :: "ocr_env \<Rightarrow> app_state \<Rightarrow> try_result \<Rightarrow> bool" where
  "try_exit env st res =
     (case res of (thrown, w, s) \<Rightarrow>
        (calls WorkerCreated s = calls WorkerCreated st
           \<and> calls WorkerTerminated s = calls WorkerTerminated st
           \<and> calls TerminateRejected s = calls TerminateRejected st
           \<and> \<not> w \<and> thrown \<noteq> None)
        \<or> (calls WorkerCreated s = calls WorkerCreated st + 1
           \<and> calls WorkerTerminated s = calls WorkerTerminated st
           \<and> calls TerminateRejected s = calls TerminateRejected st
           \<and> w \<and> thrown \<noteq> None)
        \<or> (calls WorkerCreated s = calls WorkerCreated st + 1
           \<and> calls WorkerTerminated s = calls WorkerTerminated st
           \<and> calls TerminateRejected s = calls TerminateRejected st + 1
           \<and> w \<and> thrown \<noteq> None
           \<and> env_terminate env (terminate_calls st) \<noteq> None)
        \<or> (calls WorkerCreated s = calls WorkerCreated st + 1
           \<and> calls WorkerTerminated s = calls WorkerTerminated st + 1
           \<and> calls TerminateRejected s = calls TerminateRejected st
           \<and> \<not> w \<and> thrown = None
           \<and> env_terminate env (terminate_calls st) = None))"

subsection \<open>Example inputs\<close>

text \<open>A file whose every external call succeeds: a PDF of \<open>n\<close> pages with the given
  updates and text on every page, an image with the given text.\<close>

definition simple_env :: "nat \<Rightarrow> tesseract_update list \<Rightarrow> string \<Rightarrow> ocr_env" where
  "simple_env n updates page_text =
     \<lparr>env_closureMessage = [], env_number_text = (\<lambda>r. []), env_arrayBuffer_error = None,
      env_getDocument = Inr n,
      env_createWorker_updates = [], env_createWorker_error = None,
      env_page = (\<lambda>i. Recognize updates (Inr page_text)),
      env_image_updates = updates, env_image_result = Inr page_text,
      env_terminate = (\<lambda>k. None)\<rparr>"

definition alpha_beta_env :: ocr_env where
  "alpha_beta_env =
     (simple_env 2 [] [])
       \<lparr>env_page := (\<lambda>i. if i = 1 then Recognize [] (Inr ''Alpha'')
                           else Recognize [recognizing (1 / 2)] (Inr ''Beta''))\<rparr>"

definition failing_env :: ocr_env where
  "failing_env = (simple_env 1 [] [])\<lparr>env_page := (\<lambda>i. RenderFails ''render'')\<rparr>"

text \<open>The same file on an engine whose \<^verbatim>\<open>terminate\<close> always rejects.\<close>

definition stuck_env :: ocr_env where
  "stuck_env = (simple_env 1 [] ''abc'')\<lparr>env_terminate := (\<lambda>k. Some ''busy'')\<rparr>"

definition text_file :: upload_file where
  "text_file = \<lparr>file_name = ''notes.txt'', file_type = ''text/plain''\<rparr>"

definition pdf_file :: upload_file where
  "pdf_file = \<lparr>file_name = ''scan.pdf'', file_type = ''application/pdf''\<rparr>"

definition image_file :: upload_file where
  "image_file = \<lparr>file_name = ''scan.png'', file_type = ''image/png''\<rparr>"

section \<open>Rounding to the nearest double\<close>

declare pdf_page_loop.simps [simp del]
declare string_of_nat.simps [simp del]

lemma binade_bounds_pos:
  assumes "0 < r"
  shows "2 powi binade r \<le> r \<and> r < 2 powi (binade r + 1)"
proof (cases "1 \<le> r")
  case True
  let ?n = "\<lfloor>r\<rfloor>"
  have n: "0 < ?n" using True by linarith
  have b1: "1 \<le> bitlen ?n" using n by (auto simp: bitlen_alt_def)
  from bitlen_bounds [OF n] have lo: "2 ^ nat (bitlen ?n - 1) \<le> ?n" and hi: "?n < 2 ^ nat (bitlen ?n)"
    by simp_all
  have e: "binade r = bitlen ?n - 1" using True assms by (simp add: binade_def)
  have "(2::rat) powi (bitlen ?n - 1) = 2 ^ nat (bitlen ?n - 1)"
    using b1 by (simp add: power_int_nonneg_exp)
  also have "\<dots> = of_int (2 ^ nat (bitlen ?n - 1))" by simp
  also have "\<dots> \<le> of_int ?n" using lo by (simp only: of_int_le_iff)
  also have "\<dots> \<le> r" by simp
  finally have A: "2 powi binade r \<le> r" using e by simp
  have "?n + 1 \<le> 2 ^ nat (bitlen ?n)" using hi by simp
  then have "(of_int (?n + 1) :: rat) \<le> of_int (2 ^ nat (bitlen ?n))" by (simp only: of_int_le_iff)
  moreover have "r < of_int (?n + 1)" by linarith
  ultimately have "r < of_int (2 ^ nat (bitlen ?n))" by linarith
  also have "\<dots> = 2 powi (bitlen ?n)" using b1 by (simp add: power_int_nonneg_exp)
  finally have B: "r < 2 powi (binade r + 1)" using e by simp
  from A B show ?thesis ..
next
  case False
  let ?x = "1 / r"
  let ?m = "\<lceil>?x\<rceil> - 1"
  have x1: "1 < ?x" using False assms by simp
  have m: "0 < ?m" using x1 by linarith
  have k1: "1 \<le> bitlen ?m" using m by (auto simp: bitlen_alt_def)
  from bitlen_bounds [OF m] have lo: "2 ^ nat (bitlen ?m - 1) \<le> ?m" and hi: "?m < 2 ^ nat (bitlen ?m)"
    by simp_all
  have e: "binade r = - bitlen ?m" using False assms by (simp add: binade_def)
  have "?m + 1 \<le> 2 ^ nat (bitlen ?m)" using hi by simp
  then have "(of_int (?m + 1) :: rat) \<le> of_int (2 ^ nat (bitlen ?m))" by (simp only: of_int_le_iff)
  moreover have "?x \<le> of_int (?m + 1)" by linarith
  ultimately have "?x \<le> of_int (2 ^ nat (bitlen ?m))" by linarith
  also have "\<dots> = 2 powi (bitlen ?m)" using k1 by (simp add: power_int_nonneg_exp)
  finally have xle: "?x \<le> 2 powi (bitlen ?m)" .
  have pos: "(0::rat) < 2 powi (bitlen ?m)" by simp
  have "1 / 2 powi (bitlen ?m) \<le> (r::rat)"
    using xle assms pos by (simp add: field_simps)
  then have A: "2 powi binade r \<le> r" using e by (simp add: power_int_minus_divide)
  have "(of_int (2 ^ nat (bitlen ?m - 1)) :: rat) \<le> of_int ?m" using lo by (simp only: of_int_le_iff)
  moreover have "of_int ?m < ?x" by linarith
  ultimately have "of_int (2 ^ nat (bitlen ?m - 1)) < ?x" by linarith
  moreover have "(of_int (2 ^ nat (bitlen ?m - 1)) :: rat) = 2 powi (bitlen ?m - 1)"
    using k1 by (simp add: power_int_nonneg_exp)
  ultimately have xgt: "2 powi (bitlen ?m - 1) < ?x" by simp
  have pos2: "(0::rat) < 2 powi (bitlen ?m - 1)" by simp
  have "r < 1 / 2 powi (bitlen ?m - 1)"
    using xgt assms pos2 by (simp add: field_simps)
  also have "\<dots> = 2 powi (- (bitlen ?m - 1))" by (rule power_int_minus_divide [symmetric])
  finally have "r < 2 powi (- (bitlen ?m - 1))" .
  moreover have "binade r + 1 = - (bitlen ?m - 1)" using e by simp
  ultimately have B: "r < 2 powi (binade r + 1)" by (simp only:)
  from A B show ?thesis ..
qed


lemma two_powi_less_iff: "(2::rat) powi a < 2 powi b \<longleftrightarrow> a < b"
proof
  assume l: "(2::rat) powi a < 2 powi b"
  show "a < b"
  proof (rule ccontr)
    assume "\<not> a < b"
    then have "b \<le> a" by simp
    then have "(2::rat) powi b \<le> 2 powi a" by (rule power_int_increasing) simp
    with l show False by simp
  qed
next
  assume "a < b"
  then show "(2::rat) powi a < 2 powi b" by (rule power_int_strict_increasing) simp
qed

lemma two_powi_le_iff: "(2::rat) powi a \<le> 2 powi b \<longleftrightarrow> a \<le> b"
  using two_powi_less_iff [of b a] by (simp add: not_less [symmetric])

lemma binade_abs: "binade (- r) = binade r"
  by (simp add: binade_def)

lemma binade_bounds:
  assumes "r \<noteq> 0"
  shows "2 powi binade r \<le> \<bar>r\<bar> \<and> \<bar>r\<bar> < 2 powi (binade r + 1)"
proof -
  have "binade \<bar>r\<bar> = binade r" by (simp add: binade_def)
  with binade_bounds_pos [of "\<bar>r\<bar>"] assms show ?thesis by simp
qed

lemma binade_unique:
  assumes "2 powi e \<le> \<bar>r\<bar>" and "\<bar>r\<bar> < 2 powi (e + 1)"
  shows "binade r = e"
proof -
  have pos: "(0::rat) < 2 powi e" by simp
  then have "0 < \<bar>r\<bar>" using assms(1) by linarith
  then have r0: "r \<noteq> 0" by simp
  note b = binade_bounds [OF r0]
  have "(2::rat) powi binade r < 2 powi (e + 1)" using b assms(2) by linarith
  then have 1: "binade r < e + 1" by (simp add: two_powi_less_iff)
  have "(2::rat) powi e < 2 powi (binade r + 1)" using b assms(1) by linarith
  then have 2: "e < binade r + 1" by (simp add: two_powi_less_iff)
  from 1 2 show ?thesis by simp
qed

lemma binade_mono:
  assumes "0 < r" and "r \<le> s"
  shows "binade r \<le> binade s"
proof -
  have "(2::rat) powi binade r \<le> r" using binade_bounds_pos [OF assms(1)] by simp
  also have "\<dots> \<le> s" by fact
  also have "\<dots> < 2 powi (binade s + 1)" using binade_bounds_pos [of s] assms by simp
  finally have "binade r < binade s + 1" by (simp add: two_powi_less_iff)
  then show ?thesis by simp
qed

lemma round_ties_even_of_int [simp]: "round_ties_even (of_int n) = n"
  by (simp add: round_ties_even_def)

lemma round_ties_even_cases:
  "round_ties_even x = \<lfloor>x\<rfloor> \<or> round_ties_even x = \<lfloor>x\<rfloor> + 1"
  by (simp add: round_ties_even_def Let_def)

lemma round_ties_even_mono:
  assumes "x \<le> y"
  shows "round_ties_even x \<le> round_ties_even y"
proof (cases "\<lfloor>x\<rfloor> < \<lfloor>y\<rfloor>")
  case True
  have "round_ties_even x \<le> \<lfloor>x\<rfloor> + 1" using round_ties_even_cases [of x] by auto
  also have "\<dots> \<le> \<lfloor>y\<rfloor>" using True by simp
  also have "\<dots> \<le> round_ties_even y" using round_ties_even_cases [of y] by auto
  finally show ?thesis .
next
  case False
  then have eq: "\<lfloor>x\<rfloor> = \<lfloor>y\<rfloor>" using assms floor_mono [of x y] by linarith
  then have "x - of_int \<lfloor>x\<rfloor> \<le> y - of_int \<lfloor>y\<rfloor>" using assms by simp
  then show ?thesis
    using eq by (auto simp add: round_ties_even_def Let_def)
qed

lemma round_ties_even_minus: "round_ties_even (- x) = - round_ties_even x"
proof (cases "x = of_int \<lfloor>x\<rfloor>")
  case True
  then obtain n where "x = of_int n" ..
  then show ?thesis by (simp flip: of_int_minus)
next
  case False
  then have f: "\<lfloor>- x\<rfloor> = - \<lfloor>x\<rfloor> - 1"
    by (simp add: floor_minus ceiling_altdef)
  have d: "- x - of_int (- \<lfloor>x\<rfloor> - 1) = 1 - (x - of_int \<lfloor>x\<rfloor>)" by simp
  have lt: "x - of_int \<lfloor>x\<rfloor> < 1" "0 < x - of_int \<lfloor>x\<rfloor>"
    using False by linarith+
  show ?thesis
    unfolding round_ties_even_def Let_def f d
    using lt by (auto simp add: algebra_simps)
qed


lemma quantum_minus: "quantum (- r) = quantum r"
  by (simp add: quantum_def binade_abs)

lemma rounded_minus: "rounded (- r) = - rounded r"
  by (simp add: rounded_def quantum_minus round_ties_even_minus)

lemma rounded_zero: "rounded 0 = 0"
  by (simp add: rounded_def round_ties_even_def)

lemma quantum_mono:
  assumes "0 < r" and "r \<le> s"
  shows "quantum r \<le> quantum s"
  using binade_mono [OF assms] by (simp add: quantum_def)

lemma rounded_nonneg:
  assumes "0 \<le> r"
  shows "0 \<le> rounded r"
proof -
  have "(0::rat) \<le> r / 2 powi quantum r" using assms by simp
  then have "round_ties_even 0 \<le> round_ties_even (r / 2 powi quantum r)"
    by (rule round_ties_even_mono)
  then have "0 \<le> round_ties_even (r / 2 powi quantum r)"
    using round_ties_even_of_int [of 0] by simp
  then show ?thesis by (simp add: rounded_def)
qed

lemma rounded_pos_mono:
  assumes "0 < r" and "r \<le> s"
  shows "rounded r \<le> rounded s"
proof (cases "quantum r = quantum s")
  case True
  have "r / 2 powi quantum s \<le> s / 2 powi quantum s"
    using assms(2) by (simp add: divide_right_mono)
  then have "round_ties_even (r / 2 powi quantum s) \<le> round_ties_even (s / 2 powi quantum s)"
    by (rule round_ties_even_mono)
  then have "(of_int (round_ties_even (r / 2 powi quantum s)) :: rat)
               \<le> of_int (round_ties_even (s / 2 powi quantum s))"
    by (simp only: of_int_le_iff)
  then show ?thesis
    unfolding rounded_def True by (simp add: mult_right_mono)
next
  case False
  then have lt: "quantum r < quantum s" using quantum_mono [OF assms] by simp
  let ?es = "binade s" and ?er = "binade r" and ?qr = "quantum r" and ?qs = "quantum s"
  have s0: "0 < s" using assms by simp
  have qr: "- 1074 \<le> ?qr" "?er - 52 \<le> ?qr" by (simp_all add: quantum_def)
  have qs: "?qs = ?es - 52" using lt qr by (simp add: quantum_def max_def split: if_splits)
  have er: "?er + 1 \<le> ?es" using lt qr qs by simp
  have k: "0 \<le> ?es - ?qr" using lt qs by simp
  \<comment> \<open>the larger number rounds to at least the start of its binade\<close>
  have "(of_int (2 ^ 52) :: rat) = 2 powi 52" by simp
  also have "\<dots> = 2 powi ?es / 2 powi ?qs"
    unfolding qs by (simp add: power_int_diff)
  also have "\<dots> \<le> s / 2 powi ?qs"
    using binade_bounds_pos [OF s0] by (simp add: divide_right_mono)
  finally have "round_ties_even (of_int (2 ^ 52)) \<le> round_ties_even (s / 2 powi ?qs)"
    by (rule round_ties_even_mono)
  then have "(of_int (2 ^ 52) :: rat) \<le> of_int (round_ties_even (s / 2 powi ?qs))"
    unfolding round_ties_even_of_int by (simp only: of_int_le_iff)
  then have "(of_int (2 ^ 52) :: rat) * 2 powi ?qs \<le> rounded s"
    unfolding rounded_def by (simp add: mult_right_mono)
  moreover have "(of_int (2 ^ 52) :: rat) * 2 powi ?qs = 2 powi ?es"
    unfolding qs using power_int_add [of "2::rat" 52 "?es - 52"] by simp
  ultimately have hi: "2 powi ?es \<le> rounded s" by simp
  \<comment> \<open>the smaller number rounds to at most that\<close>
  have "r < 2 powi (?er + 1)" using binade_bounds_pos [OF assms(1)] by simp
  also have "\<dots> \<le> 2 powi ?es" using er by (simp add: two_powi_le_iff)
  finally have "r / 2 powi ?qr \<le> 2 powi ?es / 2 powi ?qr"
    by (simp add: divide_right_mono)
  also have "\<dots> = 2 powi (?es - ?qr)" by (simp add: power_int_diff)
  also have "\<dots> = of_int (2 ^ nat (?es - ?qr))" using k by (simp add: power_int_nonneg_exp)
  finally have "round_ties_even (r / 2 powi ?qr) \<le> round_ties_even (of_int (2 ^ nat (?es - ?qr)))"
    by (rule round_ties_even_mono)
  then have "(of_int (round_ties_even (r / 2 powi ?qr)) :: rat) \<le> of_int (2 ^ nat (?es - ?qr))"
    unfolding round_ties_even_of_int by (simp only: of_int_le_iff)
  then have "rounded r \<le> of_int (2 ^ nat (?es - ?qr)) * 2 powi ?qr"
    unfolding rounded_def by (simp add: mult_right_mono)
  moreover have "(of_int (2 ^ nat (?es - ?qr)) :: rat) * 2 powi ?qr = 2 powi ?es"
  proof -
    have "(of_int (2 ^ nat (?es - ?qr)) :: rat) = 2 powi (?es - ?qr)"
      using k by (simp add: power_int_nonneg_exp)
    then show ?thesis using power_int_add [of "2::rat" "?es - ?qr" ?qr] by simp
  qed
  ultimately have "rounded r \<le> 2 powi ?es" by simp
  with hi show ?thesis by simp
qed

lemma rounded_mono:
  assumes "r \<le> s"
  shows "rounded r \<le> rounded s"
proof (cases "0 < r")
  case True
  then show ?thesis using assms by (rule rounded_pos_mono)
next
  case r: False
  show ?thesis
  proof (cases "0 \<le> s")
    case True
    have "rounded r = - rounded (- r)" by (simp add: rounded_minus)
    moreover have "0 \<le> rounded (- r)" using r by (intro rounded_nonneg) simp
    ultimately have "rounded r \<le> 0" by simp
    also have "\<dots> \<le> rounded s" using True by (rule rounded_nonneg)
    finally show ?thesis .
  next
    case False
    then have "0 < - s" "- s \<le> - r" using assms by simp_all
    then have "rounded (- s) \<le> rounded (- r)" by (rule rounded_pos_mono)
    then show ?thesis by (simp add: rounded_minus)
  qed
qed

lemma fl64_not_NaN: "fl64 r \<noteq> NaN"
  by (simp add: fl64_def)

lemma fl64_mono:
  assumes "r \<le> s"
  shows "js_le (fl64 r) (fl64 s)"
proof -
  note m = rounded_mono [OF assms]
  have t: "(0::rat) < overflow_threshold" by (simp add: overflow_threshold_def)
  have rn: "r < 0 \<longrightarrow> rounded r \<le> 0"
    using rounded_mono [of r 0] by (simp add: rounded_zero)
  have sn: "s < 0 \<longrightarrow> rounded s \<le> 0"
    using rounded_mono [of s 0] by (simp add: rounded_zero)
  have rp: "0 < r \<longrightarrow> 0 \<le> rounded r" by (simp add: rounded_nonneg)
  have sp: "0 < s \<longrightarrow> 0 \<le> rounded s" by (simp add: rounded_nonneg)
  consider "r = 0" | "0 < r" | "r < 0" by linarith
  then show ?thesis
  proof cases
    case 1
    then have "0 \<le> s" using assms by simp
    then show ?thesis using 1 sp t by (auto simp add: fl64_def)
  next
    case 2
    then have "0 < s" using assms by simp
    then show ?thesis using 2 m rp sp t by (auto simp add: fl64_def abs_if)
  next
    case 3
    consider "s = 0" | "0 < s" | "s < 0" by linarith
    then show ?thesis
    proof cases
      case 1
      then show ?thesis using 3 rn t by (auto simp add: fl64_def)
    next
      case 2
      then show ?thesis using 3 rn sp t by (auto simp add: fl64_def abs_if)
    next
      case 3
      then show ?thesis using \<open>r < 0\<close> m rn sn t by (auto simp add: fl64_def abs_if)
    qed
  qed
qed


lemma fl64_zero: "fl64 0 = Num 0"
  by (simp add: fl64_def)

text \<open>A number whose scaled value is a 53-bit integer is a double.\<close>

lemma fl64_scaled:
  assumes "2 ^ 52 \<le> \<bar>r\<bar> * 2 ^ k" and "\<bar>r\<bar> * 2 ^ k < 2 ^ 53" and "k \<le> 1074"
  shows "fl64 r = Num (of_int (round_ties_even (r * 2 ^ k)) / 2 ^ k)"
proof -
  have p: "(2::rat) powi (- int k) = 1 / 2 ^ k"
    by (simp add: power_int_minus_divide)
  have "(2::rat) powi (52 - int k) = 2 powi 52 * 2 powi (- int k)"
    using power_int_add [of "2::rat" 52 "- int k"] by simp
  also have "\<dots> = 2 ^ 52 / 2 ^ k" using p by simp
  also have "\<dots> \<le> \<bar>r\<bar>" using assms(1) by (simp add: field_simps)
  finally have lo: "2 powi (52 - int k) \<le> \<bar>r\<bar>" .
  have "\<bar>r\<bar> < 2 ^ 53 / 2 ^ k" using assms(2) by (simp add: field_simps)
  also have "\<dots> = 2 powi 53 * 2 powi (- int k)" using p by simp
  also have "\<dots> = 2 powi (52 - int k + 1)"
    using power_int_add [of "2::rat" 53 "- int k"] by (simp add: algebra_simps)
  finally have hi: "\<bar>r\<bar> < 2 powi (52 - int k + 1)" .
  have b: "binade r = 52 - int k" using lo hi by (rule binade_unique)
  have q: "quantum r = - int k" using assms(3) by (simp add: quantum_def b)
  have v: "rounded r = of_int (round_ties_even (r * 2 ^ k)) / 2 ^ k"
    by (simp add: rounded_def q p)
  have "\<bar>r * 2 ^ k\<bar> < 2 ^ 53"
    using assms(2) by (simp add: abs_mult)
  then have "- (2 ^ 53) \<le> r * 2 ^ k" "r * 2 ^ k \<le> 2 ^ 53"
    by linarith+
  then have "round_ties_even (of_int (- (2 ^ 53))) \<le> round_ties_even (r * 2 ^ k)"
    "round_ties_even (r * 2 ^ k) \<le> round_ties_even (of_int (2 ^ 53))"
    by (simp_all add: round_ties_even_mono)
  then have m: "\<bar>round_ties_even (r * 2 ^ k)\<bar> \<le> 2 ^ 53"
    unfolding round_ties_even_of_int by simp
  have "\<bar>rounded r\<bar> = of_int \<bar>round_ties_even (r * 2 ^ k)\<bar> / 2 ^ k"
    unfolding v by (simp add: abs_divide)
  also have "\<dots> \<le> of_int \<bar>round_ties_even (r * 2 ^ k)\<bar> / 1"
    by (rule divide_left_mono) simp_all
  also have "\<dots> = of_int \<bar>round_ties_even (r * 2 ^ k)\<bar>"
    by simp
  also have "\<dots> \<le> of_int (2 ^ 53)" using m by (simp only: of_int_le_iff)
  also have "\<dots> < overflow_threshold" by (simp add: overflow_threshold_def)
  finally have small: "\<not> overflow_threshold \<le> \<bar>rounded r\<bar>" by simp
  have "r \<noteq> 0" using assms(1) by auto
  then show ?thesis using small v by (simp add: fl64_def)
qed

text \<open>Rounding a quotient of numerals, by integer division.\<close>

lemma round_ties_even_fraction:
  assumes "0 < b"
  shows "round_ties_even (of_int a / of_int b) =
           (if 2 * (a mod b) < b then a div b
            else if b < 2 * (a mod b) then a div b + 1
            else if even (a div b) then a div b else a div b + 1)"
proof -
  have f: "\<lfloor>(of_int a / of_int b :: rat)\<rfloor> = a div b"
    by (rule floor_divide_of_int_eq)
  have e: "(of_int a :: rat) = of_int (a div b) * of_int b + of_int (a mod b)"
    by (metis of_int_add of_int_mult div_mult_mod_eq)
  have "(of_int a / of_int b :: rat)
          = (of_int (a div b) * of_int b + of_int (a mod b)) / of_int b"
    by (subst e) simp
  also have "\<dots> = of_int (a div b) + of_int (a mod b) / of_int b"
    using assms by (simp add: add_divide_distrib)
  finally have d: "(of_int a / of_int b :: rat) - of_int (a div b) = of_int (a mod b) / of_int b"
    by simp
  have lt: "(of_int (a mod b) / of_int b :: rat) < 1 / 2 \<longleftrightarrow> 2 * (a mod b) < b"
  proof -
    have "(of_int (a mod b) / of_int b :: rat) < 1 / 2 \<longleftrightarrow> (of_int (2 * (a mod b)) :: rat) < of_int b"
      using assms by (simp add: field_simps)
    then show ?thesis by (simp only: of_int_less_iff)
  qed
  have gt: "(1 / 2 :: rat) < of_int (a mod b) / of_int b \<longleftrightarrow> b < 2 * (a mod b)"
  proof -
    have "(1 / 2 :: rat) < of_int (a mod b) / of_int b \<longleftrightarrow> (of_int b :: rat) < of_int (2 * (a mod b))"
      using assms by (simp add: field_simps)
    then show ?thesis by (simp only: of_int_less_iff)
  qed
  show ?thesis
    unfolding round_ties_even_def Let_def f d lt gt by simp
qed

lemma round_ties_even_numeral_fraction:
  "round_ties_even (numeral a / numeral b) =
     (if 2 * ((numeral a :: int) mod numeral b) < numeral b then numeral a div numeral b
      else if (numeral b :: int) < 2 * (numeral a mod numeral b) then numeral a div numeral b + 1
      else if even ((numeral a :: int) div numeral b) then numeral a div numeral b
      else numeral a div numeral b + 1)"
  using round_ties_even_fraction [of "numeral b" "numeral a"] by simp

lemma round_ties_even_numeral: "round_ties_even (numeral a) = numeral a"
  using round_ties_even_of_int [of "numeral a"] by simp

lemma rounded_exact:
  assumes "r / 2 powi quantum r = of_int m"
  shows "rounded r = r"
proof -
  have "rounded r = of_int m * 2 powi quantum r"
    unfolding rounded_def assms by simp
  also have "\<dots> = r / 2 powi quantum r * 2 powi quantum r"
    using assms by simp
  also have "\<dots> = r" by simp
  finally show ?thesis .
qed

text \<open>Integers up to \<open>2\<^sup>5\<^sup>3\<close> are doubles.\<close>

lemma fl64_small_int:
  assumes "\<bar>n\<bar> \<le> 2 ^ 53"
  shows "fl64 (of_int n) = Num (of_int n)"
proof (cases "n = 0")
  case True
  then show ?thesis by (simp add: fl64_zero)
next
  case False
  let ?r = "of_int n :: rat"
  let ?e = "binade ?r"
  have r0: "?r \<noteq> 0" using False by simp
  note b = binade_bounds [OF r0]
  have abs_r: "\<bar>?r\<bar> = of_int \<bar>n\<bar>" by simp
  have ge1: "(1::rat) \<le> \<bar>?r\<bar>"
  proof -
    have "1 \<le> \<bar>n\<bar>" using False by simp
    then have "(of_int 1 :: rat) \<le> of_int \<bar>n\<bar>" by (simp only: of_int_le_iff)
    then show ?thesis by simp
  qed
  have le53: "\<bar>?r\<bar> \<le> 2 powi 53"
  proof -
    have "(of_int \<bar>n\<bar> :: rat) \<le> of_int (2 ^ 53)" using assms by (simp only: of_int_le_iff)
    then show ?thesis unfolding abs_r by simp
  qed
  have "(2::rat) powi 0 < 2 powi (?e + 1)" using b ge1 by simp
  then have e0: "0 \<le> ?e" by (simp only: two_powi_less_iff)
  have "(2::rat) powi ?e \<le> 2 powi 53" using b le53 by linarith
  then have e53: "?e \<le> 53" by (simp only: two_powi_le_iff)
  have q: "quantum ?r = ?e - 52" using e0 by (simp add: quantum_def)
  have "\<exists>m. ?r / 2 powi quantum ?r = of_int m"
  proof (cases "?e \<le> 52")
    case True
    have "?r / 2 powi (?e - 52) = ?r * 2 powi (52 - ?e)"
      using power_int_minus_divide [of "2::rat" "?e - 52"] by simp
    also have "\<dots> = ?r * 2 ^ nat (52 - ?e)"
      using True by (simp add: power_int_nonneg_exp)
    also have "\<dots> = of_int (n * 2 ^ nat (52 - ?e))" by simp
    finally show ?thesis unfolding q by blast
  next
    case False
    then have e: "?e = 53" using e53 by simp
    have "(2::rat) powi 53 \<le> \<bar>?r\<bar>" using b e by simp
    then have "\<bar>?r\<bar> = 2 ^ 53" using le53 by simp
    then have "(of_int \<bar>n\<bar> :: rat) = of_int (2 ^ 53)" unfolding abs_r by simp
    then have "\<bar>n\<bar> = 2 ^ 53" by (simp only: of_int_eq_iff)
    then have "n = 2 * (if 0 \<le> n then 2 ^ 52 else - (2 ^ 52))"
      by (simp split: if_splits) linarith
    then obtain m where n: "n = 2 * m" ..
    have "?r / 2 powi (?e - 52) = ?r / 2"
      by (simp add: e)
    also have "\<dots> = of_int m"
      by (simp add: n)
    finally show ?thesis unfolding q by blast
  qed
  then obtain m where "?r / 2 powi quantum ?r = of_int m" ..
  then have v: "rounded ?r = ?r" by (rule rounded_exact)
  have "\<bar>?r\<bar> < overflow_threshold"
    using le53 by (simp add: overflow_threshold_def)
  then show ?thesis using r0 v by (simp add: fl64_def)
qed

lemma fl64_numeral:
  "(numeral k :: int) \<le> 2 ^ 53 \<Longrightarrow> fl64 (numeral k) = Num (numeral k)"
  using fl64_small_int [of "numeral k"] by simp

lemma fl64_one: "fl64 1 = Num 1"
  using fl64_small_int [of 1] by simp

lemma fl64_between:
  assumes "0 \<le> r" and "r \<le> of_int n" and "\<bar>n\<bar> \<le> 2 ^ 53"
  shows "\<exists>v. fl64 r = Num v \<and> 0 \<le> v \<and> v \<le> of_int n"
proof -
  have lo: "js_le (Num 0) (fl64 r)"
    using fl64_mono [OF assms(1)] by (simp add: fl64_zero)
  have hi: "js_le (fl64 r) (Num (of_int n))"
    using fl64_mono [OF assms(2)] fl64_small_int [OF assms(3)] by simp
  show ?thesis
    using lo hi by (cases "fl64 r") simp_all
qed

section \<open>Monotone operations\<close>

lemma js_le_refl: "x \<noteq> NaN \<Longrightarrow> js_le x x"
  by (cases x) simp_all

lemma js_le_not_NaN: "js_le x y \<Longrightarrow> x \<noteq> NaN \<and> y \<noteq> NaN"
  by (cases x; cases y) simp_all

lemma Math_round_mono: "js_le x y \<Longrightarrow> js_le (Math_round x) (Math_round y)"
  by (cases x; cases y) (simp_all add: round_half_up_def floor_mono)

lemma Math_min_mono: "js_le x y \<Longrightarrow> js_le (Math_min (Num c) x) (Math_min (Num c) y)"
  by (cases x; cases y) (auto simp add: min_def)

lemma js_le_PosInf: "x \<noteq> NaN \<Longrightarrow> js_le x PosInf"
  by (cases x) simp_all

lemma js_le_NegInf: "y \<noteq> NaN \<Longrightarrow> js_le NegInf y"
  by (cases y) simp_all

lemma js_add_mono: "js_le x y \<Longrightarrow> js_le (js_add (Num b) x) (js_add (Num b) y)"
  by (cases x; cases y)
     (simp_all add: fl64_mono fl64_not_NaN js_le_PosInf js_le_NegInf)

lemma js_mul_mono:
  assumes "0 \<le> g" and "p \<le> q"
  shows "js_le (js_mul (Num p) (Num g)) (js_mul (Num q) (Num g))"
proof -
  have "p * g \<le> q * g" using assms by (simp add: mult_right_mono)
  then show ?thesis by (simp add: fl64_mono)
qed

section \<open>Basic facts about the trace\<close>

lemmas setters =
  setRawExtractedText_def setIsLoading_def setStatusMessage_def setCurrentFile_def
  setProcessingMessage_def setProcessingProgress_def clearStatusMessageAfterDelay_def
  log_effect_def

lemma progress_values_append:
  "progress_values (xs @ ys) = progress_values xs @ progress_values ys"
  by (induction xs rule: progress_values.induct) simp_all

lemma progress_values_map_SetProgress:
  "progress_values (map (\<lambda>p. SetProgress (f p)) ps) = map f ps"
  by (induction ps) simp_all

lemma page_starts_append:
  "page_starts (xs @ ys) = page_starts xs @ page_starts ys"
  by (induction xs rule: page_starts.induct) simp_all

lemma page_starts_SetProgress:
  "page_starts (map (\<lambda>p. (SetProgress (f p), t, d)) ps) = []"
  by (induction ps) simp_all

lemma recognition_fractions_append:
  "recognition_fractions (xs @ ys) = recognition_fractions xs @ recognition_fractions ys"
  by (induction xs) (simp_all split: bool.splits option.splits)

text \<open>A logger leaves the text and the cell alone and writes one entry for each
  recognition fraction.\<close>

lemma pdf_logger_fields:
  "ocrPageProgressDataRef (pageAwarePdfOcrLogger env m st) = ocrPageProgressDataRef st"
  "rawExtractedText (pageAwarePdfOcrLogger env m st) = rawExtractedText st"
  by (simp_all add: pageAwarePdfOcrLogger_def Let_def setters split: bool.splits option.splits)

lemma pdf_logger_trace:
  "trace (pageAwarePdfOcrLogger env m st) =
     trace st @ map (\<lambda>p. (SetProgress (pdf_overall_progress (ocrPageProgressDataRef st) p),
                          rawExtractedText st, ocrPageProgressDataRef st))
                    (recognition_fractions [m])"
  by (simp add: pageAwarePdfOcrLogger_def pdf_overall_progress_def Let_def setters
      split: bool.splits option.splits)

lemma image_logger_fields:
  "ocrPageProgressDataRef (imageOcrLogger env m st) = ocrPageProgressDataRef st"
  "rawExtractedText (imageOcrLogger env m st) = rawExtractedText st"
  by (simp_all add: imageOcrLogger_def Let_def setters split: bool.splits option.splits)

lemma image_logger_trace:
  "trace (imageOcrLogger env m st) =
     trace st @ map (\<lambda>p. (SetProgress (image_overall_progress p),
                          rawExtractedText st, ocrPageProgressDataRef st))
                    (recognition_fractions [m])"
  by (simp add: imageOcrLogger_def image_overall_progress_def Let_def setters
      split: bool.splits option.splits)

lemma run_pdf_logger_fields:
  "ocrPageProgressDataRef (run_logger (pageAwarePdfOcrLogger env) ms st)
     = ocrPageProgressDataRef st"
  "rawExtractedText (run_logger (pageAwarePdfOcrLogger env) ms st) = rawExtractedText st"
  unfolding run_logger_def by (induction ms arbitrary: st) (simp_all add: pdf_logger_fields)

lemma run_pdf_logger_trace:
  "trace (run_logger (pageAwarePdfOcrLogger env) ms st) =
     trace st @ map (\<lambda>p. (SetProgress (pdf_overall_progress (ocrPageProgressDataRef st) p),
                          rawExtractedText st, ocrPageProgressDataRef st))
                    (recognition_fractions ms)"
  unfolding run_logger_def
proof (induction ms arbitrary: st)
  case Nil
  show ?case by simp
next
  case (Cons m ms)
  have "recognition_fractions (m # ms) = recognition_fractions [m] @ recognition_fractions ms"
    using recognition_fractions_append [of "[m]" ms] by simp
  then show ?case
    by (simp only: foldl_Cons Cons.IH pdf_logger_fields pdf_logger_trace map_append
        append_assoc)
qed

lemma run_image_logger_fields:
  "ocrPageProgressDataRef (run_logger (imageOcrLogger env) ms st) = ocrPageProgressDataRef st"
  "rawExtractedText (run_logger (imageOcrLogger env) ms st) = rawExtractedText st"
  unfolding run_logger_def by (induction ms arbitrary: st) (simp_all add: image_logger_fields)

lemma run_image_logger_trace:
  "trace (run_logger (imageOcrLogger env) ms st) =
     trace st @ map (\<lambda>p. (SetProgress (image_overall_progress p),
                          rawExtractedText st, ocrPageProgressDataRef st))
                    (recognition_fractions ms)"
  unfolding run_logger_def
proof (induction ms arbitrary: st)
  case Nil
  show ?case by simp
next
  case (Cons m ms)
  have "recognition_fractions (m # ms) = recognition_fractions [m] @ recognition_fractions ms"
    using recognition_fractions_append [of "[m]" ms] by simp
  then show ?case
    by (simp only: foldl_Cons Cons.IH image_logger_fields image_logger_trace map_append
        append_assoc)
qed

lemma emitted_logged:
  "progress_values (map (fst \<circ> (\<lambda>p. (SetProgress (f p), t, d))) ps) = map f ps"
  by (induction ps) simp_all

lemma emitted_progress_run_pdf_logger:
  "emitted_progress (run_logger (pageAwarePdfOcrLogger env) ms st)
     = emitted_progress st
         @ map (pdf_overall_progress (ocrPageProgressDataRef st)) (recognition_fractions ms)"
  by (simp add: emitted_progress_def effects_def run_pdf_logger_trace progress_values_append
      emitted_logged)

lemma emitted_progress_run_image_logger:
  "emitted_progress (run_logger (imageOcrLogger env) ms st)
     = emitted_progress st @ map image_overall_progress (recognition_fractions ms)"
  by (simp add: emitted_progress_def effects_def run_image_logger_trace progress_values_append
      emitted_logged)

lemma emitted_since_run_pdf_logger:
  "emitted_since st (run_logger (pageAwarePdfOcrLogger env) ms st)
     = map (pdf_overall_progress (ocrPageProgressDataRef st)) (recognition_fractions ms)"
  by (simp add: emitted_since_def emitted_progress_run_pdf_logger)

lemma emitted_since_run_image_logger:
  "emitted_since st (run_logger (imageOcrLogger env) ms st)
     = map image_overall_progress (recognition_fractions ms)"
  by (simp add: emitted_since_def emitted_progress_run_image_logger)

text \<open>Counting calls.\<close>

lemma count_list_logged:
  "\<forall>v. e \<noteq> SetProgress v \<Longrightarrow>
     count_list (map (fst \<circ> (\<lambda>p. (SetProgress (f p), t, d))) ps) e = 0"
  by (induction ps) auto

lemma calls_run_pdf_logger:
  "\<forall>v. e \<noteq> SetProgress v \<Longrightarrow> calls e (run_logger (pageAwarePdfOcrLogger env) ms st) = calls e st"
  by (simp add: calls_def effects_def run_pdf_logger_trace count_list_logged)

lemma calls_run_image_logger:
  "\<forall>v. e \<noteq> SetProgress v \<Longrightarrow> calls e (run_logger (imageOcrLogger env) ms st) = calls e st"
  by (simp add: calls_def effects_def run_image_logger_trace count_list_logged)

lemma calls_setters:
  "calls e (setProcessingMessage m st) = calls e st"
  "calls e (setRawExtractedText t st) = calls e st"
  "calls e (setStatusMessage sm st) = calls e st"
  "calls e (setIsLoading b st) = calls e st"
  "calls e (setCurrentFile f st) = calls e st"
  "calls e (clearStatusMessageAfterDelay n st) = calls e st"
  "calls e (st\<lparr>ocrPageProgressDataRef := d\<rparr>) = calls e st"
  "calls e (log_effect e' st) = calls e st + (if e' = e then 1 else 0)"
  "calls e (setProcessingProgress v st) = calls e st + (if SetProgress v = e then 1 else 0)"
  by (simp_all add: calls_def effects_def setters)

lemma calls_pdf_begin_page:
  "\<forall>v. e \<noteq> SetProgress v \<Longrightarrow> calls e (pdf_begin_page n i st) = calls e st"
  by (auto simp add: pdf_begin_page_def Let_def calls_setters)

lemma calls_pdf_page_loop:
  "(\<forall>v. e \<noteq> SetProgress v) \<and> (\<forall>j. e \<noteq> GetPage j \<and> e \<noteq> PageCleanup j) \<and> e \<noteq> RecognizeCall \<Longrightarrow>
     calls e (snd (pdf_page_loop env n i fullText st)) = calls e st"
proof (induction env n i fullText st rule: pdf_page_loop.induct)
  case (1 env numPages i fullText st)
  show ?case
    apply (subst pdf_page_loop.simps)
    using 1
    by (auto simp add: Let_def calls_setters calls_pdf_begin_page calls_run_pdf_logger
        split: page_result.splits sum.splits)
qed

lemma pdf_page_loop_done: "n < i \<Longrightarrow> pdf_page_loop env n i fullText st = (Inr fullText, st)"
  by (subst pdf_page_loop.simps) simp

section \<open>Reset of the progress state\<close>

lemma pdf_finally_fields:
  "isLoading (ocrPdfDocument_finally s) = False"
  "processingMessage (ocrPdfDocument_finally s) = []"
  "processingProgress (ocrPdfDocument_finally s) = Num 0"
  "ocrPageProgressDataRef (ocrPdfDocument_finally s) =
     \<lparr>currentPage = 0, totalPages = 0, baseProgress = Num 0, pageBudget = Num 0\<rparr>"
  "rawExtractedText (ocrPdfDocument_finally s) = rawExtractedText s"
  "statusMessage (ocrPdfDocument_finally s) = statusMessage s"
  by (simp_all add: ocrPdfDocument_finally_def setters)

lemma image_finally_fields:
  "isLoading (ocrImageFile_finally s) = False"
  "processingMessage (ocrImageFile_finally s) = []"
  "processingProgress (ocrImageFile_finally s) = Num 0"
  "ocrPageProgressDataRef (ocrImageFile_finally s) = ocrPageProgressDataRef s"
  "rawExtractedText (ocrImageFile_finally s) = rawExtractedText s"
  "statusMessage (ocrImageFile_finally s) = statusMessage s"
  by (simp_all add: ocrImageFile_finally_def setters)

lemma log_effect_fields:
  "isLoading (log_effect e s) = isLoading s"
  "processingMessage (log_effect e s) = processingMessage s"
  "processingProgress (log_effect e s) = processingProgress s"
  "ocrPageProgressDataRef (log_effect e s) = ocrPageProgressDataRef s"
  "rawExtractedText (log_effect e s) = rawExtractedText s"
  "statusMessage (log_effect e s) = statusMessage s"
  by (simp_all add: log_effect_def)

text \<open>
  Claim C9. Whatever the collaborators answer and whatever the state before, when
  \<^verbatim>\<open>ocrPdfDocument\<close> or \<^verbatim>\<open>ocrImageFile\<close> has ended the loading flag is false, the
  processing message is the empty string and the processing progress is 0; after
  \<^verbatim>\<open>ocrPdfDocument\<close> the progress cell holds zeros in its four fields.
\<close>

theorem state_reset_after_operation:
  "isLoading (ocrPdfDocument env st) = False
   \<and> processingMessage (ocrPdfDocument env st) = []
   \<and> processingProgress (ocrPdfDocument env st) = Num 0
   \<and> ocrPageProgressDataRef (ocrPdfDocument env st) =
       \<lparr>currentPage = 0, totalPages = 0, baseProgress = Num 0, pageBudget = Num 0\<rparr>
   \<and> isLoading (ocrImageFile env st) = False
   \<and> processingMessage (ocrImageFile env st) = []
   \<and> processingProgress (ocrImageFile env st) = Num 0"
  by (simp add: ocrPdfDocument_def ocrImageFile_def Let_def pdf_finally_fields
      image_finally_fields log_effect_fields split: prod.splits option.splits)

section \<open>Unsupported media types\<close>

text \<open>
  Claim C7 as stated fails: a text file is rejected with a status message of type
  warning, the type of the empty outcome, and not with the error type of a failure.
\<close>

theorem unsupported_type_counterexample:
  "outcome (handleFile failing_env (Some text_file) initial_state) = Some Warning
   \<and> outcome (handleFile failing_env (Some text_file) initial_state) \<noteq> Some Error"
  by (simp add: handleFile_def handleFile_accept_def text_file_def setters outcome_def
      unsupported_status_def)

text \<open>
  Claim C7, amended. A file whose media type is neither \<^verbatim>\<open>application/pdf\<close> nor starts
  with \<^verbatim>\<open>image/\<close> is rejected with a warning, before any resource is allocated: the file
  is dropped, the loading flag is false, the status is the "unsupported type" message of
  type warning, and the trace is unchanged, so no worker was created, no PDF was parsed
  and no progress value was emitted.
\<close>

theorem unsupported_type_rejected:
  assumes "file_type f \<noteq> ''application/pdf''" and "\<not> prefix ''image/'' (file_type f)"
  shows "handleFile env (Some f) st =
           st\<lparr>rawExtractedText := [], isLoading := False,
              statusMessage := Some unsupported_status, currentFile := None,
              timers := timers st @ [2000, 5000]\<rparr>
         \<and> outcome (handleFile env (Some f) st) = Some Warning
         \<and> effects (handleFile env (Some f) st) = effects st
         \<and> calls CreateWorker (handleFile env (Some f) st) = calls CreateWorker st
         \<and> calls GetDocument (handleFile env (Some f) st) = calls GetDocument st
         \<and> emitted_since st (handleFile env (Some f) st) = []"
  using assms
  by (simp add: handleFile_def handleFile_accept_def setters calls_def effects_def
      emitted_since_def emitted_progress_def outcome_def unsupported_status_def)

theorem unsupported_type_rejected_witness:
  "file_type text_file \<noteq> ''application/pdf'' \<and> \<not> prefix ''image/'' (file_type text_file)
   \<and> handleFile failing_env (Some text_file) initial_state =
        initial_state\<lparr>statusMessage := Some unsupported_status, timers := [2000, 5000]\<rparr>
   \<and> effects (handleFile failing_env (Some text_file) initial_state) = []"
proof -
  have h1: "file_type text_file \<noteq> ''application/pdf''"
    by (simp add: text_file_def)
  have h2: "\<not> prefix ''image/'' (file_type text_file)"
    by (simp add: text_file_def)
  show ?thesis
    using h1 h2 unsupported_type_rejected [OF h1 h2, of failing_env initial_state]
    by (simp add: initial_state_def effects_def)
qed

section \<open>Evaluating a run on given answers\<close>

lemma lit_tenth: "js_literal (1 / 10) = Num (3602879701896397 / 36028797018963968)"
  unfolding js_literal_def
  by (simp add: fl64_scaled [where k = 56] round_ties_even_numeral_fraction
      round_ties_even_numeral)

lemma round_half_up_fraction:
  "round_half_up (numeral a / numeral b) = (2 * numeral a + numeral b) div (2 * numeral b)"
proof -
  have "(numeral a / numeral b + 1 / 2 :: rat)
          = of_int (2 * numeral a + numeral b) / of_int (2 * numeral b)"
    by (simp add: field_simps)
  then show ?thesis
    unfolding round_half_up_def by (simp only: floor_divide_of_int_eq)
qed

lemma round_half_up_of_int: "round_half_up (of_int k) = k"
  unfolding round_half_up_def by linarith

lemma round_half_up_whole:
  "round_half_up 0 = 0" "round_half_up 1 = 1" "round_half_up (numeral n) = numeral n"
  using round_half_up_of_int [of 0] round_half_up_of_int [of 1]
    round_half_up_of_int [of "numeral n"] by simp_all

lemmas run_defs =
  ocrPdfDocument_def ocrPdfDocument_try_def ocrPdfDocument_catch_def ocrPdfDocument_finally_def
  ocrImageFile_def ocrImageFile_try_def ocrImageFile_catch_def ocrImageFile_finally_def
  initializeTesseractWorker_def run_logger_def pdf_init_page_data_def pdf_begin_page_def
  pageAwarePdfOcrLogger_def imageOcrLogger_def trim_def is_whitespace_def Let_def setters
  terminate_worker_def terminate_if_live_def terminate_calls_def calls_def effects_def
  round_half_up_fraction round_half_up_whole fl64_zero fl64_one fl64_numeral lit_tenth

section \<open>Lifecycle of the recognition worker\<close>

lemma calls_initializeTesseractWorker_pdf:
  assumes "initializeTesseractWorker env (pageAwarePdfOcrLogger env) st = (r, s)"
  shows "calls WorkerTerminated s = calls WorkerTerminated st"
    and "calls TerminateRejected s = calls TerminateRejected st"
    and "calls WorkerCreated s = calls WorkerCreated st + (if r = None then 1 else 0)"
  using assms
  by (auto simp add: initializeTesseractWorker_def Let_def calls_setters calls_run_pdf_logger
      split: option.splits)

lemma calls_initializeTesseractWorker_image:
  assumes "initializeTesseractWorker env (imageOcrLogger env) st = (r, s)"
  shows "calls WorkerTerminated s = calls WorkerTerminated st"
    and "calls TerminateRejected s = calls TerminateRejected st"
    and "calls WorkerCreated s = calls WorkerCreated st + (if r = None then 1 else 0)"
  using assms
  by (auto simp add: initializeTesseractWorker_def Let_def calls_setters calls_run_image_logger
      split: option.splits)

lemma calls_terminate_worker:
  assumes "terminate_worker env st = (r, s)"
  shows "r = env_terminate env (terminate_calls st)"
    and "calls WorkerCreated s = calls WorkerCreated st"
    and "calls WorkerTerminated s = calls WorkerTerminated st + (if r = None then 1 else 0)"
    and "calls TerminateRejected s = calls TerminateRejected st + (if r = None then 0 else 1)"
  using assms
  by (auto simp add: terminate_worker_def calls_setters split: option.splits)

lemma pdf_try_exit: "try_exit env st (ocrPdfDocument_try env st)"
proof (cases "env_arrayBuffer_error env")
  case (Some e)
  then show ?thesis by (simp add: ocrPdfDocument_try_def try_exit_def)
next
  case None
  show ?thesis
  proof (cases "env_getDocument env")
    case (Inl e)
    with None show ?thesis
      by (simp add: ocrPdfDocument_try_def try_exit_def calls_setters)
  next
    case (Inr numPages)
    let ?s1 = "(log_effect GetDocument st)\<lparr>ocrPageProgressDataRef := pdf_init_page_data numPages\<rparr>"
    have c1: "calls WorkerCreated ?s1 = calls WorkerCreated st"
      "calls WorkerTerminated ?s1 = calls WorkerTerminated st"
      "calls TerminateRejected ?s1 = calls TerminateRejected st"
      by (simp_all add: calls_setters)
    obtain r s2 where init:
      "initializeTesseractWorker env (pageAwarePdfOcrLogger env) ?s1 = (r, s2)"
      by (cases "initializeTesseractWorker env (pageAwarePdfOcrLogger env) ?s1")
    note c2 = calls_initializeTesseractWorker_pdf [OF init]
    show ?thesis
    proof (cases r)
      case (Some e)
      with None Inr init c1 c2 show ?thesis
        by (simp add: ocrPdfDocument_try_def try_exit_def)
    next
      case rNone: None
      obtain res s3 where loop: "pdf_page_loop env numPages 1 [] s2 = (res, s3)"
        by (cases "pdf_page_loop env numPages 1 [] s2")
      have c3: "calls WorkerCreated s3 = calls WorkerCreated s2"
               "calls WorkerTerminated s3 = calls WorkerTerminated s2"
               "calls TerminateRejected s3 = calls TerminateRejected s2"
        using calls_pdf_page_loop [of WorkerCreated env numPages 1 "[]" s2]
          calls_pdf_page_loop [of WorkerTerminated env numPages 1 "[]" s2]
          calls_pdf_page_loop [of TerminateRejected env numPages 1 "[]" s2] loop by simp_all
      have tc: "terminate_calls s3 = terminate_calls st"
        using c1 c2 c3 by (simp add: terminate_calls_def)
      show ?thesis
      proof (cases res)
        case (Inl e)
        with None Inr init rNone loop c1 c2 c3 show ?thesis
          by (simp add: ocrPdfDocument_try_def try_exit_def)
      next
        case (Inr fullText)
        obtain t s4 where tw: "terminate_worker env s3 = (t, s4)"
          by (cases "terminate_worker env s3")
        note c4 = calls_terminate_worker [OF tw]
        have et: "env_terminate env (terminate_calls st) = t"
          using c4(1) tc by simp
        note facts = None \<open>env_getDocument env = Inr numPages\<close> init rNone loop Inr c1 c2 c3
        show ?thesis
        proof (cases t)
          case tNone: None
          from facts tw c4(2-4) et show ?thesis
            unfolding tNone
            by (simp add: ocrPdfDocument_try_def try_exit_def calls_setters)
        next
          case (Some a)
          from facts tw c4(2-4) et show ?thesis
            unfolding Some
            by (simp add: ocrPdfDocument_try_def try_exit_def calls_setters)
        qed
      qed
    qed
  qed
qed

lemma image_try_exit: "try_exit env st (ocrImageFile_try env st)"
proof -
  obtain r s1 where init:
    "initializeTesseractWorker env (imageOcrLogger env) st = (r, s1)"
    by (cases "initializeTesseractWorker env (imageOcrLogger env) st")
  note c1 = calls_initializeTesseractWorker_image [OF init]
  show ?thesis
  proof (cases r)
    case (Some e)
    with init c1 show ?thesis
      by (simp add: ocrImageFile_try_def try_exit_def)
  next
    case rNone: None
    let ?s2 = "run_logger (imageOcrLogger env) (env_image_updates env) (log_effect RecognizeCall s1)"
    have c2: "calls WorkerCreated ?s2 = calls WorkerCreated s1"
      "calls WorkerTerminated ?s2 = calls WorkerTerminated s1"
      "calls TerminateRejected ?s2 = calls TerminateRejected s1"
      by (simp_all add: calls_run_image_logger calls_setters)
    have tc: "terminate_calls ?s2 = terminate_calls st"
      using c1 c2 by (simp add: terminate_calls_def)
    show ?thesis
    proof (cases "env_image_result env")
      case (Inl e)
      with init rNone c1 c2 show ?thesis
        by (simp add: ocrImageFile_try_def try_exit_def Let_def)
    next
      case (Inr result_text)
      obtain t s3 where tw: "terminate_worker env ?s2 = (t, s3)"
        by (cases "terminate_worker env ?s2")
      note c3 = calls_terminate_worker [OF tw]
      have et: "env_terminate env (terminate_calls st) = t"
        using c3(1) tc by simp
      show ?thesis
      proof (cases t)
        case tNone: None
        from init rNone Inr tw c1 c2 c3(2-4) et show ?thesis
          unfolding tNone
          by (simp add: ocrImageFile_try_def try_exit_def Let_def calls_setters)
      next
        case (Some a)
        from init rNone Inr tw c1 c2 c3(2-4) et show ?thesis
          unfolding Some
          by (simp add: ocrImageFile_try_def try_exit_def Let_def calls_setters)
      qed
    qed
  qed
qed

text \<open>The rest of an operation after its \<^verbatim>\<open>try\<close> block, for both operations.\<close>

lemma discipline_after_try:
  assumes ex: "try_exit env st0 (thrown, w, s1)"
    and st0: "calls WorkerCreated st0 = calls WorkerCreated st"
      "calls WorkerTerminated st0 = calls WorkerTerminated st"
      "calls TerminateRejected st0 = calls TerminateRejected st"
    and fin: "\<And>e s. \<forall>v. e \<noteq> SetProgress v \<Longrightarrow> calls e (fin_block s) = calls e s"
    and cat: "\<And>e s. catch_block e s = terminate_if_live env w (prepare e s)"
    and prep: "\<And>x e s. calls x (prepare e s) = calls x s"
    and res: "s' = (case thrown of
                      None \<Rightarrow> fin_block s1
                    | Some e \<Rightarrow> (case catch_block e s1 of
                                  (None, s2) \<Rightarrow> fin_block s2
                                | (Some e2, s2) \<Rightarrow> log_effect (PromiseRejected e2) (fin_block s2)))"
  shows "worker_discipline env st s'"
proof -
  have tc0: "terminate_calls st0 = terminate_calls st"
    using st0 by (simp add: terminate_calls_def)
  show ?thesis
  proof (cases thrown)
    case None
    with ex res st0 tc0 show ?thesis
      by (auto simp add: try_exit_def worker_discipline_def new_calls_def Let_def fin)
  next
    case (Some e)
    show ?thesis
    proof (cases w)
      case False
      with Some ex res st0 tc0 show ?thesis
        by (auto simp add: try_exit_def worker_discipline_def new_calls_def Let_def fin cat
            prep terminate_if_live_def)
    next
      case True
      obtain t s2 where tw: "terminate_worker env (prepare e s1) = (t, s2)"
        by (cases "terminate_worker env (prepare e s1)")
      note c = calls_terminate_worker [OF tw]
      have tcp: "terminate_calls (prepare e s1) = terminate_calls s1"
        by (simp add: terminate_calls_def prep)
      have et: "env_terminate env (terminate_calls s1) = t"
        using c(1) tcp by simp
      have ts1: "terminate_calls s1
                   = calls WorkerTerminated s1 + calls TerminateRejected s1"
        by (simp add: terminate_calls_def)
      have ts: "terminate_calls st = calls WorkerTerminated st + calls TerminateRejected st"
        "terminate_calls st0 = calls WorkerTerminated st + calls TerminateRejected st"
        using st0 by (simp_all add: terminate_calls_def)
      show ?thesis
      proof (cases t)
        case tNone: None
        from Some True ex res st0 tw c(2-4) et ts1 ts show ?thesis
          unfolding tNone
          by (auto simp add: try_exit_def worker_discipline_def new_calls_def Let_def fin cat
              prep terminate_if_live_def calls_setters)
      next
        case tSome: (Some a)
        from Some True ex res st0 tw c(2-4) et ts1 ts show ?thesis
          unfolding tSome
          by (auto simp add: try_exit_def worker_discipline_def new_calls_def Let_def fin cat
              prep terminate_if_live_def calls_setters)
      qed
    qed
  qed
qed


lemma calls_pdf_finally:
  "\<forall>v. e \<noteq> SetProgress v \<Longrightarrow> calls e (ocrPdfDocument_finally s) = calls e s"
  by (auto simp add: ocrPdfDocument_finally_def calls_setters)

lemma calls_image_finally:
  "\<forall>v. e \<noteq> SetProgress v \<Longrightarrow> calls e (ocrImageFile_finally s) = calls e s"
  by (auto simp add: ocrImageFile_finally_def calls_setters)

lemma pdf_worker_discipline: "worker_discipline env st (ocrPdfDocument env st)"
proof -
  let ?st0 = "setProcessingProgress (Num 0)
                (setProcessingMessage ''Iniciando processamento OCR do PDF...'' st)"
  obtain thrown w s1 where tr: "ocrPdfDocument_try env ?st0 = (thrown, w, s1)"
    by (cases "ocrPdfDocument_try env ?st0")
  have ex: "try_exit env ?st0 (thrown, w, s1)"
    using pdf_try_exit [of env ?st0] tr by simp
  show ?thesis
  proof (rule discipline_after_try [OF ex, where fin_block = ocrPdfDocument_finally
        and catch_block = "\<lambda>e s. ocrPdfDocument_catch env e w s"
        and prepare = "\<lambda>e s. setStatusMessage
          (Some \<lparr>sm_text = ''Falha ao processar PDF com OCR: '' @ e, sm_type = Error\<rparr>)
          (setRawExtractedText [] s)"])
    show "ocrPdfDocument env st =
      (case thrown of
         None \<Rightarrow> ocrPdfDocument_finally s1
       | Some e \<Rightarrow>
           (case ocrPdfDocument_catch env e w s1 of
              (None, s2) \<Rightarrow> ocrPdfDocument_finally s2
            | (Some e2, s2) \<Rightarrow> log_effect (PromiseRejected e2) (ocrPdfDocument_finally s2)))"
      by (cases thrown) (simp_all add: ocrPdfDocument_def Let_def tr)
  qed (simp_all add: calls_setters calls_pdf_finally ocrPdfDocument_catch_def)
qed

lemma image_worker_discipline: "worker_discipline env st (ocrImageFile env st)"
proof -
  let ?st0 = "setProcessingProgress (Num 0)
                (setProcessingMessage ''Processando Imagem (OCR)...'' st)"
  obtain thrown w s1 where tr: "ocrImageFile_try env ?st0 = (thrown, w, s1)"
    by (cases "ocrImageFile_try env ?st0")
  have ex: "try_exit env ?st0 (thrown, w, s1)"
    using image_try_exit [of env ?st0] tr by simp
  show ?thesis
  proof (rule discipline_after_try [OF ex, where fin_block = ocrImageFile_finally
        and catch_block = "\<lambda>e s. ocrImageFile_catch env e w s"
        and prepare = "\<lambda>e s. setStatusMessage
          (Some \<lparr>sm_text = ''Falha ao processar imagem com OCR: '' @ e, sm_type = Error\<rparr>)
          (setRawExtractedText [] s)"])
    show "ocrImageFile env st =
      (case thrown of
         None \<Rightarrow> ocrImageFile_finally s1
       | Some e \<Rightarrow>
           (case ocrImageFile_catch env e w s1 of
              (None, s2) \<Rightarrow> ocrImageFile_finally s2
            | (Some e2, s2) \<Rightarrow> log_effect (PromiseRejected e2) (ocrImageFile_finally s2)))"
      by (cases thrown) (simp_all add: ocrImageFile_def Let_def tr)
  qed (simp_all add: calls_setters calls_image_finally ocrImageFile_catch_def)
qed

text \<open>
  Claim C4 as stated fails on an engine whose \<^verbatim>\<open>terminate\<close> rejects: for a one-page PDF
  and for an image, a worker is created, the \<^verbatim>\<open>try\<close> block calls \<^verbatim>\<open>terminate\<close>, the
  call rejects, the \<^verbatim>\<open>catch\<close> block calls it a second time, and no call has resolved
  when the operation ends.
\<close>

theorem worker_terminate_counterexample:
  "calls WorkerCreated (ocrPdfDocument stuck_env initial_state) = 1
   \<and> calls WorkerTerminated (ocrPdfDocument stuck_env initial_state) = 0
   \<and> calls TerminateRejected (ocrPdfDocument stuck_env initial_state) = 2
   \<and> calls WorkerCreated (ocrImageFile stuck_env initial_state) = 1
   \<and> calls WorkerTerminated (ocrImageFile stuck_env initial_state) = 0
   \<and> calls TerminateRejected (ocrImageFile stuck_env initial_state) = 2"
  by (simp add: run_defs pdf_page_loop.simps stuck_env_def simple_env_def initial_state_def)

text \<open>
  Claim C4, amended. In one \<^verbatim>\<open>ocrPdfDocument\<close> or \<^verbatim>\<open>ocrImageFile\<close> run, whatever the
  collaborators answer: at most one worker is created; if none is created \<^verbatim>\<open>terminate\<close>
  is never called; if one is created \<^verbatim>\<open>terminate\<close> is called at least once and at most
  twice, and at most one call resolves. When the first call resolves it is the only call:
  the worker is terminated exactly once, on success, on the empty result and on an error
  thrown before. A second call is made only after the first one rejected (the guarded
  release of the \<^verbatim>\<open>catch\<close> block, the variable not having been cleared); no call follows
  one that resolved.
\<close>

theorem worker_terminate_discipline:
  "worker_discipline env st (ocrPdfDocument env st)
   \<and> worker_discipline env st (ocrImageFile env st)"
  using pdf_worker_discipline image_worker_discipline by blast

theorem worker_terminate_discipline_witness:
  "env_terminate (simple_env 1 [] ''abc'') (terminate_calls initial_state) = None
   \<and> new_calls WorkerCreated initial_state
         (ocrPdfDocument (simple_env 1 [] ''abc'') initial_state) = 1
   \<and> new_calls WorkerTerminated initial_state
         (ocrPdfDocument (simple_env 1 [] ''abc'') initial_state) = 1
   \<and> new_calls TerminateRejected initial_state
         (ocrPdfDocument (simple_env 1 [] ''abc'') initial_state) = 0
   \<and> new_calls WorkerCreated initial_state
         (ocrImageFile (simple_env 1 [] ''abc'') initial_state) = 1
   \<and> new_calls WorkerTerminated initial_state
         (ocrImageFile (simple_env 1 [] ''abc'') initial_state) = 1
   \<and> new_calls TerminateRejected initial_state
         (ocrImageFile (simple_env 1 [] ''abc'') initial_state) = 0
   \<and> env_terminate stuck_env (terminate_calls initial_state) \<noteq> None
   \<and> new_calls WorkerTerminated initial_state (ocrPdfDocument stuck_env initial_state)
       + new_calls TerminateRejected initial_state (ocrPdfDocument stuck_env initial_state) = 2"
proof -
  have h: "env_terminate (simple_env 1 [] ''abc'') (terminate_calls initial_state) = None"
    by (simp add: simple_env_def)
  have c: "new_calls WorkerCreated initial_state
             (ocrPdfDocument (simple_env 1 [] ''abc'') initial_state) = 1"
    "new_calls WorkerCreated initial_state
             (ocrImageFile (simple_env 1 [] ''abc'') initial_state) = 1"
    by (simp_all add: new_calls_def run_defs pdf_page_loop.simps simple_env_def
        initial_state_def)
  have s: "new_calls WorkerTerminated initial_state (ocrPdfDocument stuck_env initial_state)
       + new_calls TerminateRejected initial_state (ocrPdfDocument stuck_env initial_state) = 2"
    by (simp add: new_calls_def run_defs pdf_page_loop.simps stuck_env_def simple_env_def
        initial_state_def)
  show ?thesis
    using h c s worker_terminate_discipline [of "simple_env 1 [] ''abc''" initial_state]
      worker_terminate_discipline [of stuck_env initial_state]
    by (simp add: worker_discipline_def Let_def)
qed

section \<open>Text of earlier documents\<close>

lemma seen_only_refl: "seen_only T st st"
  by (simp add: seen_only_def texts_seen_def)

lemma seen_only_trans:
  assumes "seen_only T a b" and "seen_only T b c"
  shows "seen_only T a c"
proof -
  from assms obtain n1 n2 where "trace b = trace a @ n1" "set (texts_seen n1) \<subseteq> T"
    "trace c = trace b @ n2" "set (texts_seen n2) \<subseteq> T"
    unfolding seen_only_def by blast
  then have "trace c = trace a @ (n1 @ n2) \<and> set (texts_seen (n1 @ n2)) \<subseteq> T"
    by (simp add: texts_seen_def)
  then show ?thesis unfolding seen_only_def by blast
qed

lemma seen_only_mono: "seen_only T a b \<Longrightarrow> T \<subseteq> T' \<Longrightarrow> seen_only T' a b"
  unfolding seen_only_def by blast

lemma seen_only_since:
  "seen_only T st st' \<Longrightarrow> set (texts_seen (trace_since st st')) \<subseteq> T"
  unfolding seen_only_def trace_since_def by auto

lemma seen_only_same_trace: "trace st' = trace st \<Longrightarrow> seen_only T st st'"
  by (simp add: seen_only_def texts_seen_def)

lemma seen_only_log_effect:
  "rawExtractedText st \<in> T \<Longrightarrow> seen_only T st (log_effect e st)"
  by (simp add: seen_only_def texts_seen_def log_effect_def)

lemma seen_only_setProcessingProgress:
  "rawExtractedText st \<in> T \<Longrightarrow> seen_only T st (setProcessingProgress v st)"
  by (simp add: seen_only_def texts_seen_def setters)

lemma seen_only_run_pdf_logger:
  "rawExtractedText st \<in> T \<Longrightarrow> seen_only T st (run_logger (pageAwarePdfOcrLogger env) ms st)"
  by (auto simp add: seen_only_def texts_seen_def run_pdf_logger_trace)

lemma seen_only_run_image_logger:
  "rawExtractedText st \<in> T \<Longrightarrow> seen_only T st (run_logger (imageOcrLogger env) ms st)"
  by (auto simp add: seen_only_def texts_seen_def run_image_logger_trace)

lemma raw_setters:
  "rawExtractedText (setProcessingMessage m st) = rawExtractedText st"
  "rawExtractedText (setStatusMessage sm st) = rawExtractedText st"
  "rawExtractedText (setIsLoading b st) = rawExtractedText st"
  "rawExtractedText (setCurrentFile f st) = rawExtractedText st"
  "rawExtractedText (clearStatusMessageAfterDelay n st) = rawExtractedText st"
  "rawExtractedText (log_effect e st) = rawExtractedText st"
  "rawExtractedText (setProcessingProgress v st) = rawExtractedText st"
  "rawExtractedText (setRawExtractedText t st) = t"
  by (simp_all add: setters)

lemma trace_setters:
  "trace (setProcessingMessage m st) = trace st"
  "trace (setStatusMessage sm st) = trace st"
  "trace (setIsLoading b st) = trace st"
  "trace (setCurrentFile f st) = trace st"
  "trace (clearStatusMessageAfterDelay n st) = trace st"
  "trace (setRawExtractedText t st) = trace st"
  by (simp_all add: setters)

lemma quiet_refl: "quiet st st"
  by (simp add: quiet_def seen_only_refl)

lemma quiet_trans: "quiet a b \<Longrightarrow> quiet b c \<Longrightarrow> quiet a c"
  unfolding quiet_def using seen_only_trans [of "{rawExtractedText a}" a b c] by simp

lemma quiet_same:
  "trace st' = trace st \<Longrightarrow> rawExtractedText st' = rawExtractedText st \<Longrightarrow> quiet st st'"
  by (simp add: quiet_def seen_only_same_trace)

lemma quiet_log_effect: "quiet st (log_effect e st)"
  by (simp add: quiet_def raw_setters seen_only_log_effect)

lemma quiet_setProcessingProgress: "quiet st (setProcessingProgress v st)"
  by (simp add: quiet_def raw_setters seen_only_setProcessingProgress)

lemma quiet_setProcessingMessage: "quiet st (setProcessingMessage m st)"
  by (simp add: quiet_same raw_setters trace_setters)

lemma quiet_run_pdf_logger: "quiet st (run_logger (pageAwarePdfOcrLogger env) ms st)"
  by (simp add: quiet_def run_pdf_logger_fields seen_only_run_pdf_logger)

lemma quiet_run_image_logger: "quiet st (run_logger (imageOcrLogger env) ms st)"
  by (simp add: quiet_def run_image_logger_fields seen_only_run_image_logger)

lemma quiet_pdf_begin_page: "quiet st (pdf_begin_page n i st)"
proof -
  let ?d = "(ocrPageProgressDataRef st)
              \<lparr>currentPage := i,
               baseProgress := js_mul (js_div (of_nat i - 1) (of_nat n)) (Num 100)\<rparr>"
  let ?s1 = "setProcessingMessage
               (''Renderizando '' @ page_word @ '' '' @ string_of_nat i @ ''/''
                  @ string_of_nat n @ '' do PDF...'')
               (st\<lparr>ocrPageProgressDataRef := ?d\<rparr>)"
  have "quiet st ?s1" by (rule quiet_same) (simp_all add: setters)
  moreover have "quiet ?s1 (setProcessingProgress
      (Math_round (js_add (baseProgress ?d) (js_mul (pageBudget ?d) (js_literal (1 / 10))))) ?s1)"
    by (rule quiet_setProcessingProgress)
  ultimately show ?thesis
    unfolding pdf_begin_page_def Let_def by (rule quiet_trans)
qed

lemma quiet_pdf_page_loop: "quiet st (snd (pdf_page_loop env n i fullText st))"
proof (induction env n i fullText st rule: pdf_page_loop.induct)
  case (1 env numPages i fullText st)
  let ?s1 = "log_effect (GetPage i) (pdf_begin_page numPages i st)"
  have q1: "quiet st ?s1"
    using quiet_pdf_begin_page quiet_log_effect by (rule quiet_trans)
  show ?case
  proof (cases "i \<le> numPages")
    case False
    then show ?thesis by (simp add: pdf_page_loop_done quiet_refl)
  next
    case True
    show ?thesis
    proof (cases "env_page env i")
      case (Recognize updates res)
      let ?s2 = "setProcessingMessage
                   (''Analisando '' @ page_word @ '' '' @ string_of_nat i @ ''/''
                      @ string_of_nat numPages @ '' com OCR...'') ?s1"
      let ?s3 = "run_logger (pageAwarePdfOcrLogger env) updates (log_effect RecognizeCall ?s2)"
      have q3: "quiet st ?s3"
        using q1 quiet_setProcessingMessage [of ?s1] quiet_log_effect [of ?s2 RecognizeCall]
          quiet_run_pdf_logger [of "log_effect RecognizeCall ?s2" env updates]
        by (meson quiet_trans)
      show ?thesis
      proof (cases res)
        case (Inl e)
        with True Recognize q3 show ?thesis
          by (subst pdf_page_loop.simps) (simp add: Let_def)
      next
        case (Inr pageText)
        let ?s4 = "log_effect (PageCleanup i) ?s3"
        have q4: "quiet st ?s4" using q3 quiet_log_effect by (rule quiet_trans)
        have "quiet ?s4 (snd (pdf_page_loop env numPages (Suc i)
                (fullText @ pageText @ [newline]) ?s4))"
          using "1.IH" [OF True refl Recognize refl refl Inr] .
        with q4 have "quiet st (snd (pdf_page_loop env numPages (Suc i)
                (fullText @ pageText @ [newline]) ?s4))"
          by (rule quiet_trans)
        with True Recognize Inr show ?thesis
          by (subst pdf_page_loop.simps) (simp add: Let_def)
      qed
    qed (use True q1 in \<open>subst pdf_page_loop.simps, simp add: Let_def\<close>)+
  qed
qed

lemma quiet_initializeTesseractWorker_pdf:
  "quiet st (snd (initializeTesseractWorker env (pageAwarePdfOcrLogger env) st))"
proof -
  let ?s1 = "run_logger (pageAwarePdfOcrLogger env) (env_createWorker_updates env)
               (log_effect CreateWorker st)"
  have q: "quiet st ?s1"
    using quiet_log_effect quiet_run_pdf_logger by (rule quiet_trans)
  then have "quiet st (log_effect WorkerCreated ?s1)"
    using quiet_log_effect by (rule quiet_trans)
  with q show ?thesis
    by (simp add: initializeTesseractWorker_def Let_def split: option.splits)
qed

lemma quiet_initializeTesseractWorker_image:
  "quiet st (snd (initializeTesseractWorker env (imageOcrLogger env) st))"
proof -
  let ?s1 = "run_logger (imageOcrLogger env) (env_createWorker_updates env)
               (log_effect CreateWorker st)"
  have q: "quiet st ?s1"
    using quiet_log_effect quiet_run_image_logger by (rule quiet_trans)
  then have "quiet st (log_effect WorkerCreated ?s1)"
    using quiet_log_effect by (rule quiet_trans)
  with q show ?thesis
    by (simp add: initializeTesseractWorker_def Let_def split: option.splits)
qed

lemma quiet_terminate_worker: "quiet st (snd (terminate_worker env st))"
  by (simp add: terminate_worker_def quiet_log_effect split: option.splits)


lemma quiet_seen: "quiet a b \<Longrightarrow> seen_only {rawExtractedText a} a b"
  by (simp add: quiet_def)

lemma seen_then_set_text:
  assumes "quiet a b" and "trace c = trace b"
  shows "seen_only {rawExtractedText a} a c"
  using assms seen_only_trans [of "{rawExtractedText a}" a b c]
  by (simp add: quiet_def seen_only_same_trace)

text \<open>The \<^verbatim>\<open>try\<close> blocks: until they are left only the text they started with is seen;
  they change it only in completing.\<close>

lemma pdf_try_texts:
  assumes "ocrPdfDocument_try env st = (thrown, w, s)"
  shows "seen_only {rawExtractedText st} st s
         \<and> (thrown \<noteq> None \<longrightarrow> rawExtractedText s = rawExtractedText st)
         \<and> (thrown = None \<longrightarrow>
               (statusMessage s = Some pdf_empty_status \<and> rawExtractedText s = [])
               \<or> statusMessage s = Some pdf_success_status)"
proof (cases "env_arrayBuffer_error env")
  case (Some e)
  with assms show ?thesis by (auto simp add: ocrPdfDocument_try_def seen_only_refl)
next
  case None
  have q0: "quiet st (log_effect GetDocument st)" by (rule quiet_log_effect)
  show ?thesis
  proof (cases "env_getDocument env")
    case (Inl e)
    with None assms q0 show ?thesis
      by (auto simp add: ocrPdfDocument_try_def quiet_def)
  next
    case (Inr numPages)
    let ?s1 = "(log_effect GetDocument st)\<lparr>ocrPageProgressDataRef := pdf_init_page_data numPages\<rparr>"
    have "quiet (log_effect GetDocument st) ?s1" by (rule quiet_same) simp_all
    with q0 have q1: "quiet st ?s1" by (rule quiet_trans)
    obtain r s2 where init:
      "initializeTesseractWorker env (pageAwarePdfOcrLogger env) ?s1 = (r, s2)"
      by (cases "initializeTesseractWorker env (pageAwarePdfOcrLogger env) ?s1")
    have q2: "quiet st s2"
      using q1 quiet_initializeTesseractWorker_pdf [of ?s1 env] init
      by (auto intro: quiet_trans)
    show ?thesis
    proof (cases r)
      case (Some e)
      with None Inr init assms q2 show ?thesis
        by (auto simp add: ocrPdfDocument_try_def quiet_def)
    next
      case rNone: None
      obtain res s3 where loop: "pdf_page_loop env numPages 1 [] s2 = (res, s3)"
        by (cases "pdf_page_loop env numPages 1 [] s2")
      have q3: "quiet st s3"
        using q2 quiet_pdf_page_loop [of s2 env numPages 1 "[]"] loop
        by (auto intro: quiet_trans)
      show ?thesis
      proof (cases res)
        case (Inl e)
        with None Inr init rNone loop assms q3 show ?thesis
          by (auto simp add: ocrPdfDocument_try_def quiet_def)
      next
        case fullText: (Inr fullText)
        obtain t s4 where tw: "terminate_worker env s3 = (t, s4)"
          by (cases "terminate_worker env s3")
        have q4: "quiet st s4"
          using q3 quiet_terminate_worker [of s3 env] tw by (auto intro: quiet_trans)
        note facts = None Inr init rNone loop fullText tw
        show ?thesis
        proof (cases t)
          case (Some e)
          with facts assms q4 show ?thesis
            by (auto simp add: ocrPdfDocument_try_def quiet_def)
        next
          case tNone: None
          show ?thesis
          proof (cases "trim fullText = []")
            case True
            with facts tNone assms
            have s: "s = setStatusMessage (Some pdf_empty_status) (setRawExtractedText [] s4)"
              by (simp add: ocrPdfDocument_try_def)
            have "seen_only {rawExtractedText st} st s"
              using q4 by (rule seen_then_set_text) (simp add: s trace_setters)
            with facts tNone assms True show ?thesis
              by (auto simp add: ocrPdfDocument_try_def setters)
          next
            case False
            with facts tNone assms
            have s: "s = clearStatusMessageAfterDelay 5000
                           (setStatusMessage (Some pdf_success_status)
                              (setRawExtractedText (trim fullText) s4))"
              by (simp add: ocrPdfDocument_try_def)
            have "seen_only {rawExtractedText st} st s"
              using q4 by (rule seen_then_set_text) (simp add: s trace_setters)
            with facts tNone assms False show ?thesis
              by (auto simp add: ocrPdfDocument_try_def setters)
          qed
        qed
      qed
    qed
  qed
qed

lemma image_try_texts:
  assumes "ocrImageFile_try env st = (thrown, w, s)"
  shows "seen_only {rawExtractedText st} st s
         \<and> (thrown \<noteq> None \<longrightarrow> rawExtractedText s = rawExtractedText st)
         \<and> (thrown = None \<longrightarrow>
               (statusMessage s = Some image_empty_status \<and> rawExtractedText s = [])
               \<or> statusMessage s = Some image_success_status)"
proof -
  obtain r s1 where init:
    "initializeTesseractWorker env (imageOcrLogger env) st = (r, s1)"
    by (cases "initializeTesseractWorker env (imageOcrLogger env) st")
  have q1: "quiet st s1"
    using quiet_initializeTesseractWorker_image [of st env] init by simp
  show ?thesis
  proof (cases r)
    case (Some e)
    with init assms q1 show ?thesis
      by (auto simp add: ocrImageFile_try_def quiet_def)
  next
    case rNone: None
    let ?s2 = "run_logger (imageOcrLogger env) (env_image_updates env) (log_effect RecognizeCall s1)"
    have q2: "quiet st ?s2"
      using q1 quiet_log_effect [of s1 RecognizeCall]
        quiet_run_image_logger [of "log_effect RecognizeCall s1" env "env_image_updates env"]
      by (meson quiet_trans)
    show ?thesis
    proof (cases "env_image_result env")
      case (Inl e)
      with init rNone assms q2 show ?thesis
        by (auto simp add: ocrImageFile_try_def Let_def quiet_def)
    next
      case result_text: (Inr result_text)
      obtain t s3 where tw: "terminate_worker env ?s2 = (t, s3)"
        by (cases "terminate_worker env ?s2")
      have q3: "quiet st s3"
        using q2 quiet_terminate_worker [of ?s2 env] tw by (auto intro: quiet_trans)
      note facts = init rNone result_text tw
      show ?thesis
      proof (cases t)
        case (Some e)
        with facts assms q3 show ?thesis
          by (auto simp add: ocrImageFile_try_def Let_def quiet_def)
      next
        case tNone: None
        show ?thesis
        proof (cases "trim result_text = []")
          case True
          with facts tNone assms
          have s: "s = setStatusMessage (Some image_empty_status) (setRawExtractedText [] s3)"
            by (simp add: ocrImageFile_try_def Let_def)
          have "seen_only {rawExtractedText st} st s"
            using q3 by (rule seen_then_set_text) (simp add: s trace_setters)
          with facts tNone assms True show ?thesis
            by (auto simp add: ocrImageFile_try_def Let_def setters)
        next
          case False
          with facts tNone assms
          have s: "s = clearStatusMessageAfterDelay 5000
                         (setStatusMessage (Some image_success_status)
                            (setRawExtractedText result_text s3))"
            by (simp add: ocrImageFile_try_def Let_def)
          have "seen_only {rawExtractedText st} st s"
            using q3 by (rule seen_then_set_text) (simp add: s trace_setters)
          with facts tNone assms False show ?thesis
            by (auto simp add: ocrImageFile_try_def Let_def setters)
        qed
      qed
    qed
  qed
qed


text \<open>The rest of an operation after its \<^verbatim>\<open>try\<close> block, for both operations.\<close>

lemma texts_after_try:
  assumes tr: "seen_only {rawExtractedText begun} begun tried"
      "thrown \<noteq> None \<longrightarrow> rawExtractedText tried = rawExtractedText begun"
    and begun: "quiet st begun"
    and fin: "\<And>s. rawExtractedText (fin_block s) = rawExtractedText s"
      "\<And>s. quiet s (fin_block s)"
    and cat: "\<And>e s. catch_block e s = terminate_if_live env w (prepare e s)"
    and prep: "\<And>e s. rawExtractedText (prepare e s) = []"
      "\<And>e s. trace (prepare e s) = trace s"
    and res: "s' = (case thrown of
                      None \<Rightarrow> fin_block tried
                    | Some e \<Rightarrow> (case catch_block e tried of
                                  (None, s2) \<Rightarrow> fin_block s2
                                | (Some e2, s2) \<Rightarrow> log_effect (PromiseRejected e2) (fin_block s2)))"
  shows "seen_only {rawExtractedText st, rawExtractedText s'} st s'
         \<and> (thrown \<noteq> None \<longrightarrow> rawExtractedText s' = [])
         \<and> (thrown = None \<longrightarrow> rawExtractedText s' = rawExtractedText tried)"
proof -
  have r0: "rawExtractedText begun = rawExtractedText st" using begun by (simp add: quiet_def)
  have a: "seen_only {rawExtractedText st} st tried"
    using quiet_seen [OF begun] tr(1) unfolding r0 by (rule seen_only_trans)
  show ?thesis
  proof (cases thrown)
    case None
    then have s': "s' = fin_block tried" using res by simp
    have "seen_only {rawExtractedText tried} tried s'"
      unfolding s' using fin(2) by (rule quiet_seen)
    then have "seen_only {rawExtractedText st, rawExtractedText s'} tried s'"
      by (rule seen_only_mono) (simp add: s' fin(1))
    moreover have "seen_only {rawExtractedText st, rawExtractedText s'} st tried"
      using a by (rule seen_only_mono) simp
    ultimately have "seen_only {rawExtractedText st, rawExtractedText s'} st s'"
      by (rule seen_only_trans [rotated])
    with None show ?thesis by (simp add: s' fin(1))
  next
    case (Some e)
    let ?p = "prepare e tried"
    obtain t s2 where c: "catch_block e tried = (t, s2)" by (cases "catch_block e tried")
    have q2: "quiet ?p s2"
      using c quiet_terminate_worker [of ?p env]
      by (cases w) (auto simp add: cat terminate_if_live_def quiet_refl)
    let ?f = "fin_block s2"
    have q3: "quiet ?p ?f" using q2 fin(2) by (rule quiet_trans)
    have "quiet ?f (log_effect (PromiseRejected x) ?f)" for x by (rule quiet_log_effect)
    with q3 have q4: "quiet ?p (log_effect (PromiseRejected x) ?f)" for x
      by (rule quiet_trans)
    have s': "s' = ?f \<or> (\<exists>x. s' = log_effect (PromiseRejected x) ?f)"
      using res Some c by (cases t) auto
    then have q5: "quiet ?p s'" using q3 q4 by auto
    then have raw: "rawExtractedText s' = []" by (simp add: quiet_def prep)
    have "seen_only {[]} ?p s'" using q5 by (simp add: quiet_def prep)
    moreover have "seen_only {[]} tried ?p" by (rule seen_only_same_trace) (simp add: prep)
    ultimately have "seen_only {[]} tried s'" by (rule seen_only_trans [rotated])
    then have "seen_only {rawExtractedText st, rawExtractedText s'} tried s'"
      by (rule seen_only_mono) (simp add: raw)
    moreover have "seen_only {rawExtractedText st, rawExtractedText s'} st tried"
      using a by (rule seen_only_mono) simp
    ultimately have "seen_only {rawExtractedText st, rawExtractedText s'} st s'"
      by (rule seen_only_trans [rotated])
    with Some raw show ?thesis by simp
  qed
qed

lemma quiet_pdf_finally: "quiet s (ocrPdfDocument_finally s)"
proof -
  let ?a = "setProcessingMessage [] (setIsLoading False s)"
  have "quiet s ?a" by (rule quiet_same) (simp_all add: setters)
  moreover have "quiet ?a (setProcessingProgress (Num 0) ?a)"
    by (rule quiet_setProcessingProgress)
  moreover have "quiet (setProcessingProgress (Num 0) ?a) (ocrPdfDocument_finally s)"
    by (rule quiet_same) (simp_all add: ocrPdfDocument_finally_def)
  ultimately show ?thesis by (meson quiet_trans)
qed

lemma quiet_image_finally: "quiet s (ocrImageFile_finally s)"
proof -
  let ?a = "setProcessingMessage [] (setIsLoading False s)"
  have "quiet s ?a" by (rule quiet_same) (simp_all add: setters)
  moreover have "quiet ?a (setProcessingProgress (Num 0) ?a)"
    by (rule quiet_setProcessingProgress)
  ultimately show ?thesis unfolding ocrImageFile_finally_def by (rule quiet_trans)
qed

lemma pdf_texts:
  "seen_only {rawExtractedText st, rawExtractedText (ocrPdfDocument env st)} st
     (ocrPdfDocument env st)
   \<and> (outcome (ocrPdfDocument env st) \<noteq> Some Success
        \<longrightarrow> rawExtractedText (ocrPdfDocument env st) = [])"
proof -
  let ?st0 = "setProcessingProgress (Num 0)
                (setProcessingMessage ''Iniciando processamento OCR do PDF...'' st)"
  obtain thrown w s1 where tr: "ocrPdfDocument_try env ?st0 = (thrown, w, s1)"
    by (cases "ocrPdfDocument_try env ?st0")
  note t = pdf_try_texts [OF tr]
  have q0: "quiet st ?st0"
    using quiet_setProcessingMessage quiet_setProcessingProgress by (rule quiet_trans)
  have res: "ocrPdfDocument env st =
      (case thrown of
         None \<Rightarrow> ocrPdfDocument_finally s1
       | Some e \<Rightarrow>
           (case ocrPdfDocument_catch env e w s1 of
              (None, s2) \<Rightarrow> ocrPdfDocument_finally s2
            | (Some e2, s2) \<Rightarrow> log_effect (PromiseRejected e2) (ocrPdfDocument_finally s2)))"
    by (cases thrown) (simp_all add: ocrPdfDocument_def Let_def tr)
  have main: "seen_only {rawExtractedText st, rawExtractedText (ocrPdfDocument env st)} st
                (ocrPdfDocument env st)
         \<and> (thrown \<noteq> None \<longrightarrow> rawExtractedText (ocrPdfDocument env st) = [])
         \<and> (thrown = None \<longrightarrow> rawExtractedText (ocrPdfDocument env st) = rawExtractedText s1)"
  proof (rule texts_after_try [where begun = ?st0 and tried = s1
          and fin_block = ocrPdfDocument_finally and w = w and env = env
          and catch_block = "\<lambda>e s. ocrPdfDocument_catch env e w s"
          and prepare = "\<lambda>e s. setStatusMessage
            (Some \<lparr>sm_text = ''Falha ao processar PDF com OCR: '' @ e, sm_type = Error\<rparr>)
            (setRawExtractedText [] s)"])
    show "seen_only {rawExtractedText ?st0} ?st0 s1" using t by simp
    show "thrown \<noteq> None \<longrightarrow> rawExtractedText s1 = rawExtractedText ?st0"
      using t by simp
    show "quiet st ?st0" by (rule q0)
    show "rawExtractedText (ocrPdfDocument_finally s) = rawExtractedText s" for s
      by (simp add: pdf_finally_fields)
    show "quiet s (ocrPdfDocument_finally s)" for s by (rule quiet_pdf_finally)
    show "ocrPdfDocument_catch env e w s = terminate_if_live env w
            (setStatusMessage
              (Some \<lparr>sm_text = ''Falha ao processar PDF com OCR: '' @ e, sm_type = Error\<rparr>)
              (setRawExtractedText [] s))" for e s
      by (simp add: ocrPdfDocument_catch_def)
    show "rawExtractedText (setStatusMessage
              (Some \<lparr>sm_text = ''Falha ao processar PDF com OCR: '' @ e, sm_type = Error\<rparr>)
              (setRawExtractedText [] s)) = []" for e s
      by (simp add: setters)
    show "trace (setStatusMessage
              (Some \<lparr>sm_text = ''Falha ao processar PDF com OCR: '' @ e, sm_type = Error\<rparr>)
              (setRawExtractedText [] s)) = trace s" for e s
      by (simp add: setters)
    show "ocrPdfDocument env st =
      (case thrown of
         None \<Rightarrow> ocrPdfDocument_finally s1
       | Some e \<Rightarrow>
           (case ocrPdfDocument_catch env e w s1 of
              (None, s2) \<Rightarrow> ocrPdfDocument_finally s2
            | (Some e2, s2) \<Rightarrow> log_effect (PromiseRejected e2) (ocrPdfDocument_finally s2)))"
      by (rule res)
  qed
  have "outcome (ocrPdfDocument env st) \<noteq> Some Success
        \<longrightarrow> rawExtractedText (ocrPdfDocument env st) = []"
  proof (cases thrown)
    case None
    with t main res show ?thesis
      by (auto simp add: outcome_def pdf_finally_fields pdf_success_status_def)
  next
    case (Some e)
    with main show ?thesis by simp
  qed
  with main show ?thesis by simp
qed

lemma image_texts:
  "seen_only {rawExtractedText st, rawExtractedText (ocrImageFile env st)} st
     (ocrImageFile env st)
   \<and> (outcome (ocrImageFile env st) \<noteq> Some Success
        \<longrightarrow> rawExtractedText (ocrImageFile env st) = [])"
proof -
  let ?st0 = "setProcessingProgress (Num 0)
                (setProcessingMessage ''Processando Imagem (OCR)...'' st)"
  obtain thrown w s1 where tr: "ocrImageFile_try env ?st0 = (thrown, w, s1)"
    by (cases "ocrImageFile_try env ?st0")
  note t = image_try_texts [OF tr]
  have q0: "quiet st ?st0"
    using quiet_setProcessingMessage quiet_setProcessingProgress by (rule quiet_trans)
  have res: "ocrImageFile env st =
      (case thrown of
         None \<Rightarrow> ocrImageFile_finally s1
       | Some e \<Rightarrow>
           (case ocrImageFile_catch env e w s1 of
              (None, s2) \<Rightarrow> ocrImageFile_finally s2
            | (Some e2, s2) \<Rightarrow> log_effect (PromiseRejected e2) (ocrImageFile_finally s2)))"
    by (cases thrown) (simp_all add: ocrImageFile_def Let_def tr)
  have main: "seen_only {rawExtractedText st, rawExtractedText (ocrImageFile env st)} st
                (ocrImageFile env st)
         \<and> (thrown \<noteq> None \<longrightarrow> rawExtractedText (ocrImageFile env st) = [])
         \<and> (thrown = None \<longrightarrow> rawExtractedText (ocrImageFile env st) = rawExtractedText s1)"
  proof (rule texts_after_try [where begun = ?st0 and tried = s1
          and fin_block = ocrImageFile_finally and w = w and env = env
          and catch_block = "\<lambda>e s. ocrImageFile_catch env e w s"
          and prepare = "\<lambda>e s. setStatusMessage
            (Some \<lparr>sm_text = ''Falha ao processar imagem com OCR: '' @ e, sm_type = Error\<rparr>)
            (setRawExtractedText [] s)"])
    show "seen_only {rawExtractedText ?st0} ?st0 s1" using t by simp
    show "thrown \<noteq> None \<longrightarrow> rawExtractedText s1 = rawExtractedText ?st0"
      using t by simp
    show "quiet st ?st0" by (rule q0)
    show "rawExtractedText (ocrImageFile_finally s) = rawExtractedText s" for s
      by (simp add: image_finally_fields)
    show "quiet s (ocrImageFile_finally s)" for s by (rule quiet_image_finally)
    show "ocrImageFile_catch env e w s = terminate_if_live env w
            (setStatusMessage
              (Some \<lparr>sm_text = ''Falha ao processar imagem com OCR: '' @ e, sm_type = Error\<rparr>)
              (setRawExtractedText [] s))" for e s
      by (simp add: ocrImageFile_catch_def)
    show "rawExtractedText (setStatusMessage
              (Some \<lparr>sm_text = ''Falha ao processar imagem com OCR: '' @ e, sm_type = Error\<rparr>)
              (setRawExtractedText [] s)) = []" for e s
      by (simp add: setters)
    show "trace (setStatusMessage
              (Some \<lparr>sm_text = ''Falha ao processar imagem com OCR: '' @ e, sm_type = Error\<rparr>)
              (setRawExtractedText [] s)) = trace s" for e s
      by (simp add: setters)
    show "ocrImageFile env st =
      (case thrown of
         None \<Rightarrow> ocrImageFile_finally s1
       | Some e \<Rightarrow>
           (case ocrImageFile_catch env e w s1 of
              (None, s2) \<Rightarrow> ocrImageFile_finally s2
            | (Some e2, s2) \<Rightarrow> log_effect (PromiseRejected e2) (ocrImageFile_finally s2)))"
      by (rule res)
  qed
  have "outcome (ocrImageFile env st) \<noteq> Some Success
        \<longrightarrow> rawExtractedText (ocrImageFile env st) = []"
  proof (cases thrown)
    case None
    with t main res show ?thesis
      by (auto simp add: outcome_def image_finally_fields image_success_status_def)
  next
    case (Some e)
    with main show ?thesis by simp
  qed
  with main show ?thesis by simp
qed


lemma handleFile_accept_fields:
  "rawExtractedText (handleFile_accept f st) = []"
  "trace (handleFile_accept f st) = trace st"
  "handleFile_accept f (st\<lparr>rawExtractedText := old\<rparr>) = handleFile_accept f st"
  by (simp_all add: handleFile_accept_def setters)

lemma handleFile_texts:
  "seen_only {[], rawExtractedText (handleFile env (Some f) st)} st (handleFile env (Some f) st)
   \<and> (outcome (handleFile env (Some f) st) \<noteq> Some Success
        \<longrightarrow> rawExtractedText (handleFile env (Some f) st) = [])"
proof -
  let ?a = "handleFile_accept f st"
  have lift: "seen_only {[], rawExtractedText s'} st s'"
    if "seen_only {rawExtractedText ?a, rawExtractedText s'} ?a s'" for s'
    using that by (simp add: seen_only_def handleFile_accept_fields)
  consider (pdf) "file_type f = ''application/pdf''"
    | (image) "file_type f \<noteq> ''application/pdf''" "prefix ''image/'' (file_type f)"
    | (other) "file_type f \<noteq> ''application/pdf''" "\<not> prefix ''image/'' (file_type f)"
    by blast
  then show ?thesis
  proof cases
    case pdf
    then have h: "handleFile env (Some f) st = ocrPdfDocument env ?a"
      by (simp add: handleFile_def)
    show ?thesis unfolding h using pdf_texts [of ?a env] lift by blast
  next
    case image
    then have h: "handleFile env (Some f) st = ocrImageFile env ?a"
      by (simp add: handleFile_def)
    show ?thesis unfolding h using image_texts [of ?a env] lift by blast
  next
    case other
    then have h: "handleFile env (Some f) st =
        setCurrentFile None (setIsLoading False (clearStatusMessageAfterDelay 5000
          (setStatusMessage (Some unsupported_status) ?a)))"
      by (simp add: handleFile_def)
    have "rawExtractedText (handleFile env (Some f) st) = []"
      unfolding h by (simp add: raw_setters handleFile_accept_fields)
    moreover have "trace (handleFile env (Some f) st) = trace st"
      unfolding h by (simp add: trace_setters handleFile_accept_fields)
    ultimately show ?thesis by (simp add: seen_only_same_trace)
  qed
qed

text \<open>
  Claim C10. Text extracted from a previous document never survives into a later operation:
  whatever text \<open>old\<close> the state holds when a file is accepted, \<^verbatim>\<open>handleFile\<close> ends in the very
  same state, trace included, as it does from the state holding any other text; the state in
  which processing starts holds the empty text; at every call made while the file is
  processed an observer sees either the empty text or the text this operation ends with; and
  every operation (\<^verbatim>\<open>handleFile\<close>, \<^verbatim>\<open>ocrPdfDocument\<close>, \<^verbatim>\<open>ocrImageFile\<close>) that does not end
  with the success status, so with an error or the empty warning, leaves the raw extracted
  text empty.
\<close>

theorem previous_text_cleared:
  "handleFile env (Some f) (st\<lparr>rawExtractedText := old\<rparr>) = handleFile env (Some f) st
   \<and> rawExtractedText (handleFile_accept f st) = []
   \<and> set (texts_seen (trace_since st (handleFile env (Some f) st)))
        \<subseteq> {[], rawExtractedText (handleFile env (Some f) st)}
   \<and> (outcome (handleFile env (Some f) st) \<noteq> Some Success
        \<longrightarrow> rawExtractedText (handleFile env (Some f) st) = [])
   \<and> (outcome (ocrPdfDocument env st) \<noteq> Some Success
        \<longrightarrow> rawExtractedText (ocrPdfDocument env st) = [])
   \<and> (outcome (ocrImageFile env st) \<noteq> Some Success
        \<longrightarrow> rawExtractedText (ocrImageFile env st) = [])"
proof -
  have "handleFile env (Some f) (st\<lparr>rawExtractedText := old\<rparr>) = handleFile env (Some f) st"
    by (simp add: handleFile_def handleFile_accept_fields)
  moreover have "set (texts_seen (trace_since st (handleFile env (Some f) st)))
        \<subseteq> {[], rawExtractedText (handleFile env (Some f) st)}"
    using handleFile_texts [of env f st] by (simp add: seen_only_since)
  ultimately show ?thesis
    using handleFile_texts [of env f st] pdf_texts [of st env] image_texts [of st env]
    by (simp add: handleFile_accept_fields)
qed

theorem previous_text_cleared_witness:
  "outcome (handleFile failing_env (Some pdf_file)
              (initial_state\<lparr>rawExtractedText := ''old text''\<rparr>)) = Some Error
   \<and> rawExtractedText (handleFile failing_env (Some pdf_file)
              (initial_state\<lparr>rawExtractedText := ''old text''\<rparr>)) = []
   \<and> outcome (ocrPdfDocument failing_env
              (initial_state\<lparr>rawExtractedText := ''old text''\<rparr>)) = Some Error
   \<and> rawExtractedText (ocrPdfDocument failing_env
              (initial_state\<lparr>rawExtractedText := ''old text''\<rparr>)) = []
   \<and> outcome (ocrImageFile (simple_env 0 [] [])
              (initial_state\<lparr>rawExtractedText := ''old text''\<rparr>)) = Some Warning
   \<and> rawExtractedText (ocrImageFile (simple_env 0 [] [])
              (initial_state\<lparr>rawExtractedText := ''old text''\<rparr>)) = []"
proof -
  let ?st = "initial_state\<lparr>rawExtractedText := ''old text''\<rparr>"
  have a: "outcome (handleFile failing_env (Some pdf_file) ?st) = Some Error"
    by (simp add: run_defs pdf_page_loop.simps handleFile_def handleFile_accept_def
        outcome_def failing_env_def simple_env_def initial_state_def pdf_file_def)
  have b: "outcome (ocrPdfDocument failing_env ?st) = Some Error"
    by (simp add: run_defs pdf_page_loop.simps outcome_def failing_env_def simple_env_def
        initial_state_def)
  have c: "outcome (ocrImageFile (simple_env 0 [] []) ?st) = Some Warning"
    by (simp add: run_defs outcome_def simple_env_def initial_state_def
        image_empty_status_def)
  show ?thesis
    using previous_text_cleared [where env = failing_env and f = pdf_file and st = ?st
        and old = "''old text''"]
      previous_text_cleared [where env = "simple_env 0 [] []" and f = pdf_file and st = ?st
        and old = "''old text''"]
    unfolding a b c by simp
qed

section \<open>Classification of the recognised text\<close>

text \<open>
  What \<^verbatim>\<open>trim\<close> does: the result is empty exactly for a text of white space only;
  otherwise only white space is cut, at the two ends, and the result starts and ends with
  a character that is not white space.
\<close>

lemma trim_empty_iff: "trim s = [] \<longleftrightarrow> (\<forall>c \<in> set s. is_whitespace c)"
proof -
  let ?t = "dropWhile is_whitespace s"
  have "(\<forall>c \<in> set ?t. is_whitespace c) \<longleftrightarrow> ?t = []"
  proof
    assume all: "\<forall>c \<in> set ?t. is_whitespace c"
    show "?t = []"
    proof (rule ccontr)
      assume ne: "?t \<noteq> []"
      then have "\<not> is_whitespace (hd ?t)" by (rule hd_dropWhile)
      moreover have "hd ?t \<in> set ?t" using ne by (rule hd_in_set)
      ultimately show False using all by blast
    qed
  next
    assume e: "?t = []"
    show "\<forall>c \<in> set ?t. is_whitespace c" unfolding e by simp
  qed
  then have "trim s = [] \<longleftrightarrow> ?t = []"
    by (simp add: trim_def dropWhile_eq_Nil_conv)
  then show ?thesis
    by (simp add: dropWhile_eq_Nil_conv)
qed

lemma trim_decompose:
  "s = takeWhile is_whitespace s @ trim s
         @ rev (takeWhile is_whitespace (rev (dropWhile is_whitespace s)))"
proof -
  let ?t = "dropWhile is_whitespace s"
  have "rev ?t = takeWhile is_whitespace (rev ?t) @ dropWhile is_whitespace (rev ?t)"
    by simp
  then have "?t = rev (dropWhile is_whitespace (rev ?t)) @ rev (takeWhile is_whitespace (rev ?t))"
    by (metis rev_append rev_rev_ident)
  then have "?t = trim s @ rev (takeWhile is_whitespace (rev ?t))"
    by (simp add: trim_def)
  moreover have "s = takeWhile is_whitespace s @ ?t"
    by simp
  ultimately show ?thesis by metis
qed

lemma trim_ends:
  assumes "trim s \<noteq> []"
  shows "\<not> is_whitespace (hd (trim s)) \<and> \<not> is_whitespace (last (trim s))"
proof -
  let ?t = "dropWhile is_whitespace s"
  let ?u = "dropWhile is_whitespace (rev ?t)"
  have u: "?u \<noteq> []" using assms by (simp add: trim_def)
  then have t: "?t \<noteq> []" by (metis dropWhile.simps(1) rev.simps(1))
  have l: "\<not> is_whitespace (hd ?u)"
    using u by (rule hd_dropWhile)
  have "\<not> is_whitespace (hd ?t)"
    using t by (rule hd_dropWhile)
  moreover have "hd (rev ?u) = hd ?t"
  proof -
    have "rev ?t = takeWhile is_whitespace (rev ?t) @ ?u" by simp
    then have "?t = rev ?u @ rev (takeWhile is_whitespace (rev ?t))"
      by (metis rev_append rev_rev_ident)
    then show ?thesis using u by (metis hd_append2 rev_is_Nil_conv)
  qed
  ultimately show ?thesis
    using l u by (simp add: trim_def last_rev)
qed

text \<open>
  The two \<^verbatim>\<open>try\<close> blocks, when they complete: both classify by the trimmed text; the
  PDF path surfaces the trimmed text, the image path the text as recognised.
\<close>

lemma pdf_try_classification:
  assumes "ocrPdfDocument_try env st = (None, w, s)"
  shows "\<exists>fullText.
           (trim fullText = [] \<and> rawExtractedText s = [] \<and> outcome s = Some Warning)
           \<or> (trim fullText \<noteq> [] \<and> rawExtractedText s = trim fullText
               \<and> outcome s = Some Success)"
  using assms
  by (auto simp add: ocrPdfDocument_try_def Let_def setters outcome_def pdf_empty_status_def
      pdf_success_status_def split: option.splits sum.splits prod.splits if_splits)

lemma image_try_classification:
  assumes "ocrImageFile_try env st = (None, w, s)"
  shows "\<exists>result_text. env_image_result env = Inr result_text
           \<and> ((trim result_text = [] \<and> rawExtractedText s = [] \<and> outcome s = Some Warning)
              \<or> (trim result_text \<noteq> [] \<and> rawExtractedText s = result_text
                  \<and> outcome s = Some Success))"
  using assms
  by (auto simp add: ocrImageFile_try_def Let_def setters outcome_def image_empty_status_def
      image_success_status_def split: option.splits sum.splits prod.splits if_splits)

text \<open>
  Claim C5, on an image whose recognised text is \<^verbatim>\<open>"abc\\n"\<close>: the outcome is success and
  the text surfaced is \<^verbatim>\<open>"abc\\n"\<close>, with its trailing newline, while the trimmed text is
  \<^verbatim>\<open>"abc"\<close>; the PDF path surfaces the trimmed \<^verbatim>\<open>"abc"\<close> for a page with that text.
\<close>

theorem image_text_not_trimmed:
  "rawExtractedText (ocrImageFile (simple_env 0 [] (''abc'' @ [newline])) initial_state)
     = ''abc'' @ [newline]
   \<and> outcome (ocrImageFile (simple_env 0 [] (''abc'' @ [newline])) initial_state) = Some Success
   \<and> trim (''abc'' @ [newline]) = ''abc''
   \<and> rawExtractedText (ocrPdfDocument (simple_env 1 [] ''abc'') initial_state) = ''abc''"
  by (simp add: run_defs simple_env_def outcome_def image_success_status_def pdf_page_loop.simps)

section \<open>A PDF whose pages are all recognised\<close>

lemma cell_setters:
  "ocrPageProgressDataRef (setProcessingMessage m st) = ocrPageProgressDataRef st"
  "ocrPageProgressDataRef (setStatusMessage sm st) = ocrPageProgressDataRef st"
  "ocrPageProgressDataRef (setIsLoading b st) = ocrPageProgressDataRef st"
  "ocrPageProgressDataRef (clearStatusMessageAfterDelay n st) = ocrPageProgressDataRef st"
  "ocrPageProgressDataRef (log_effect e st) = ocrPageProgressDataRef st"
  "ocrPageProgressDataRef (setProcessingProgress v st) = ocrPageProgressDataRef st"
  "ocrPageProgressDataRef (setRawExtractedText t st) = ocrPageProgressDataRef st"
  by (simp_all add: setters)

lemma trace_log_effect:
  "trace (log_effect e st) = trace st @ [(e, rawExtractedText st, ocrPageProgressDataRef st)]"
  by (simp add: log_effect_def)

lemma pdf_page_loop_step:
  assumes "i \<le> n" and "env_page env i = Recognize ups (Inr t)"
  shows "pdf_page_loop env n i fullText st
           = pdf_page_loop env n (Suc i) (fullText @ t @ [newline]) (pdf_page_done env n i ups st)"
  by (subst pdf_page_loop.simps) (simp add: assms Let_def pdf_page_done_def)

lemma page_cell_update:
  assumes "totalPages d = n" and "pageBudget d = js_div 100 (of_nat n)"
  shows "d\<lparr>currentPage := i,
           baseProgress := js_mul (js_div (of_nat i - 1) (of_nat n)) (Num 100)\<rparr> = page_cell n i"
  using assms by (cases d) (simp add: page_cell_def)

lemma pdf_begin_page_trace:
  assumes "totalPages (ocrPageProgressDataRef st) = n"
    and "pageBudget (ocrPageProgressDataRef st) = js_div 100 (of_nat n)"
  shows "ocrPageProgressDataRef (pdf_begin_page n i st) = page_cell n i"
    and "trace (pdf_begin_page n i st)
           = trace st @ [(SetProgress (render_start_value n i), rawExtractedText st, page_cell n i)]"
    and "rawExtractedText (pdf_begin_page n i st) = rawExtractedText st"
  using page_cell_update [OF assms, of i]
  by (simp_all add: pdf_begin_page_def Let_def setters render_start_value_def)

lemma pdf_page_done_facts:
  assumes "totalPages (ocrPageProgressDataRef st) = n"
    and "pageBudget (ocrPageProgressDataRef st) = js_div 100 (of_nat n)"
  shows "ocrPageProgressDataRef (pdf_page_done env n i ups st) = page_cell n i"
    and "rawExtractedText (pdf_page_done env n i ups st) = rawExtractedText st"
    and "emitted_progress (pdf_page_done env n i ups st)
           = emitted_progress st @ page_emissions n i ups"
    and "page_starts (trace (pdf_page_done env n i ups st))
           = page_starts (trace st) @ [(i, page_cell n i)]"
proof -
  have b: "ocrPageProgressDataRef (pdf_begin_page n i st) = page_cell n i"
    "trace (pdf_begin_page n i st)
           = trace st @ [(SetProgress (render_start_value n i), rawExtractedText st, page_cell n i)]"
    "rawExtractedText (pdf_begin_page n i st) = rawExtractedText st"
    using assms by (simp_all add: pdf_begin_page_trace)
  let ?s = "log_effect RecognizeCall
             (setProcessingMessage
                (''Analisando '' @ page_word @ '' '' @ string_of_nat i @ ''/''
                   @ string_of_nat n @ '' com OCR...'')
                (log_effect (GetPage i) (pdf_begin_page n i st)))"
  have c: "ocrPageProgressDataRef ?s = page_cell n i" 
    and r: "rawExtractedText ?s = rawExtractedText st"
    and t: "trace ?s = trace st
              @ [(SetProgress (render_start_value n i), rawExtractedText st, page_cell n i),
                 (GetPage i, rawExtractedText st, page_cell n i),
                 (RecognizeCall, rawExtractedText st, page_cell n i)]"
  proof -
    show "ocrPageProgressDataRef ?s = page_cell n i"
      by (simp only: cell_setters b)
    show "rawExtractedText ?s = rawExtractedText st"
      by (simp only: raw_setters b)
    show "trace ?s = trace st
              @ [(SetProgress (render_start_value n i), rawExtractedText st, page_cell n i),
                 (GetPage i, rawExtractedText st, page_cell n i),
                 (RecognizeCall, rawExtractedText st, page_cell n i)]"
      by (simp add: trace_log_effect trace_setters raw_setters cell_setters b)
  qed
  show "ocrPageProgressDataRef (pdf_page_done env n i ups st) = page_cell n i"
    unfolding pdf_page_done_def by (simp only: cell_setters run_pdf_logger_fields b)
  show "rawExtractedText (pdf_page_done env n i ups st) = rawExtractedText st"
    unfolding pdf_page_done_def by (simp only: raw_setters run_pdf_logger_fields b)
  have tr: "trace (pdf_page_done env n i ups st) = trace ?s
      @ map (\<lambda>p. (SetProgress (pdf_overall_progress (page_cell n i) p),
                          rawExtractedText st, page_cell n i)) (recognition_fractions ups)
      @ [(PageCleanup i, rawExtractedText st, page_cell n i)]"
    unfolding pdf_page_done_def
    by (simp only: trace_log_effect [of "PageCleanup i"] run_pdf_logger_trace
        run_pdf_logger_fields c r append_assoc)
  show "emitted_progress (pdf_page_done env n i ups st)
           = emitted_progress st @ page_emissions n i ups"
    unfolding emitted_progress_def effects_def tr t
    by (simp add: progress_values_append emitted_logged page_emissions_def)
  show "page_starts (trace (pdf_page_done env n i ups st))
           = page_starts (trace st) @ [(i, page_cell n i)]"
    unfolding tr t
    by (simp add: page_starts_append page_starts_SetProgress)
qed

lemma pdf_page_loop_complete:
  assumes "\<forall>j. i \<le> j \<and> j \<le> n \<longrightarrow> env_page env j = Recognize (ups j) (Inr (t j))"
    and "totalPages (ocrPageProgressDataRef st) = n"
    and "pageBudget (ocrPageProgressDataRef st) = js_div 100 (of_nat n)"
  shows "fst (pdf_page_loop env n i fullText st)
           = Inr (fullText @ concat (map (\<lambda>j. t j @ [newline]) [i..<Suc n]))
         \<and> emitted_progress (snd (pdf_page_loop env n i fullText st))
             = emitted_progress st @ concat (map (\<lambda>j. page_emissions n j (ups j)) [i..<Suc n])
         \<and> page_starts (trace (snd (pdf_page_loop env n i fullText st)))
             = page_starts (trace st) @ map (\<lambda>j. (j, page_cell n j)) [i..<Suc n]
         \<and> rawExtractedText (snd (pdf_page_loop env n i fullText st)) = rawExtractedText st"
  using assms
proof (induction env n i fullText st rule: pdf_page_loop.induct)
  case (1 env numPages i fullText st)
  show ?case
  proof (cases "i \<le> numPages")
    case False
    then show ?thesis by (simp add: pdf_page_loop_done)
  next
    case True
    from "1.prems"(1) True have page: "env_page env i = Recognize (ups i) (Inr (t i))" by blast
    have rest: "\<forall>j. Suc i \<le> j \<and> j \<le> numPages
                  \<longrightarrow> env_page env j = Recognize (ups j) (Inr (t j))"
      using "1.prems"(1) by simp
    have upt: "[i..<Suc numPages] = i # [Suc i..<Suc numPages]"
      using True by (simp add: upt_conv_Cons)
    note step = pdf_page_loop_step [OF True page, of fullText st]
    note d = pdf_page_done_facts [where env = env and i = i and ups = "ups i",
        OF "1.prems"(2,3)]
    have c: "totalPages (ocrPageProgressDataRef (pdf_page_done env numPages i (ups i) st))
               = numPages"
      "pageBudget (ocrPageProgressDataRef (pdf_page_done env numPages i (ups i) st))
               = js_div 100 (of_nat numPages)"
      unfolding d(1) by (simp_all add: page_cell_def)
    have ih: "fst (pdf_page_loop env numPages (Suc i) (fullText @ t i @ [newline])
                     (pdf_page_done env numPages i (ups i) st))
           = Inr ((fullText @ t i @ [newline])
                    @ concat (map (\<lambda>j. t j @ [newline]) [Suc i..<Suc numPages]))
         \<and> emitted_progress (snd (pdf_page_loop env numPages (Suc i) (fullText @ t i @ [newline])
                     (pdf_page_done env numPages i (ups i) st)))
             = emitted_progress (pdf_page_done env numPages i (ups i) st)
                 @ concat (map (\<lambda>j. page_emissions numPages j (ups j)) [Suc i..<Suc numPages])
         \<and> page_starts (trace (snd (pdf_page_loop env numPages (Suc i) (fullText @ t i @ [newline])
                     (pdf_page_done env numPages i (ups i) st))))
             = page_starts (trace (pdf_page_done env numPages i (ups i) st))
                 @ map (\<lambda>j. (j, page_cell numPages j)) [Suc i..<Suc numPages]
         \<and> rawExtractedText (snd (pdf_page_loop env numPages (Suc i) (fullText @ t i @ [newline])
                     (pdf_page_done env numPages i (ups i) st)))
             = rawExtractedText (pdf_page_done env numPages i (ups i) st)"
      using "1.IH" [OF True refl page refl refl refl rest] c
      by (simp add: pdf_page_done_def)
    show ?thesis
      unfolding step upt using ih unfolding d
      by (simp del: upt_Suc)
  qed
qed


lemma pdf_loop_start_facts:
  "ocrPageProgressDataRef (pdf_loop_start env N st) = pdf_init_page_data N"
  "rawExtractedText (pdf_loop_start env N st) = rawExtractedText st"
  "terminate_calls (pdf_loop_start env N st) = terminate_calls st"
  "emitted_progress (pdf_loop_start env N st)
     = emitted_progress st @ Num 0
         # map (pdf_overall_progress (pdf_init_page_data N))
             (recognition_fractions (env_createWorker_updates env))"
  "page_starts (trace (pdf_loop_start env N st)) = page_starts (trace st)"
proof -
  show "ocrPageProgressDataRef (pdf_loop_start env N st) = pdf_init_page_data N"
    unfolding pdf_loop_start_def
    by (simp add: cell_setters run_pdf_logger_fields)
  show "rawExtractedText (pdf_loop_start env N st) = rawExtractedText st"
    unfolding pdf_loop_start_def
    by (simp add: raw_setters run_pdf_logger_fields)
  show "terminate_calls (pdf_loop_start env N st) = terminate_calls st"
    unfolding pdf_loop_start_def terminate_calls_def
    by (simp add: calls_setters calls_run_pdf_logger)
  let ?a = "(log_effect GetDocument
                 (setProcessingProgress (Num 0)
                    (setProcessingMessage ''Iniciando processamento OCR do PDF...'' st)))
                \<lparr>ocrPageProgressDataRef := pdf_init_page_data N\<rparr>"
  have ta: "trace ?a = trace st @ [(SetProgress (Num 0), rawExtractedText st,
                                     ocrPageProgressDataRef st),
                                    (GetDocument, rawExtractedText st,
                                     ocrPageProgressDataRef st)]"
    by (simp add: setters)
  have ca: "ocrPageProgressDataRef ?a = pdf_init_page_data N"
    and ra: "rawExtractedText ?a = rawExtractedText st"
    by (simp_all add: setters)
  have tr: "trace (pdf_loop_start env N st) = trace ?a
       @ (CreateWorker, rawExtractedText st, pdf_init_page_data N)
       # map (\<lambda>p. (SetProgress (pdf_overall_progress (pdf_init_page_data N) p),
                          rawExtractedText st, pdf_init_page_data N))
                    (recognition_fractions (env_createWorker_updates env))
       @ [(WorkerCreated, rawExtractedText st, pdf_init_page_data N)]"
    unfolding pdf_loop_start_def
    by (simp only: trace_log_effect run_pdf_logger_trace run_pdf_logger_fields cell_setters
        raw_setters ca ra append_assoc append_Cons append_Nil)
  show "emitted_progress (pdf_loop_start env N st)
     = emitted_progress st @ Num 0
         # map (pdf_overall_progress (pdf_init_page_data N))
             (recognition_fractions (env_createWorker_updates env))"
    unfolding emitted_progress_def effects_def tr ta
    by (simp add: progress_values_append emitted_logged)
  show "page_starts (trace (pdf_loop_start env N st)) = page_starts (trace st)"
    unfolding tr ta by (simp add: page_starts_append page_starts_SetProgress)
qed

lemma ocrPdfDocument_complete:
  assumes ab: "env_arrayBuffer_error env = None"
    and gd: "env_getDocument env = Inr N"
    and cw: "env_createWorker_error env = None"
    and pages: "\<forall>j. 1 \<le> j \<and> j \<le> N \<longrightarrow> env_page env j = Recognize (ups j) (Inr (t j))"
    and tm: "env_terminate env (terminate_calls st) = None"
  shows "ocrPdfDocument env st =
           ocrPdfDocument_finally
             (pdf_surface (concat (map (\<lambda>j. t j @ [newline]) [1..<Suc N]))
                (log_effect WorkerTerminated
                   (snd (pdf_page_loop env N 1 [] (pdf_loop_start env N st)))))"
proof -
  let ?s0 = "setProcessingProgress (Num 0)
               (setProcessingMessage ''Iniciando processamento OCR do PDF...'' st)"
  let ?s1 = "(log_effect GetDocument ?s0)\<lparr>ocrPageProgressDataRef := pdf_init_page_data N\<rparr>"
  let ?s2 = "pdf_loop_start env N st"
  let ?full = "concat (map (\<lambda>j. t j @ [newline]) [1..<Suc N])"
  obtain res s3 where loop: "pdf_page_loop env N 1 [] ?s2 = (res, s3)"
    by (cases "pdf_page_loop env N 1 [] ?s2")
  have init: "initializeTesseractWorker env (pageAwarePdfOcrLogger env) ?s1 = (None, ?s2)"
    by (simp add: initializeTesseractWorker_def cw pdf_loop_start_def Let_def)
  have cell: "totalPages (ocrPageProgressDataRef ?s2) = N"
    "pageBudget (ocrPageProgressDataRef ?s2) = js_div 100 (of_nat N)"
    by (simp_all add: pdf_loop_start_facts pdf_init_page_data_def)
  have res: "res = Inr ?full"
    using pdf_page_loop_complete [OF pages cell, of "[]"] loop by simp
  have "terminate_calls s3 = terminate_calls ?s2"
    using calls_pdf_page_loop [of WorkerTerminated env N 1 "[]" ?s2]
      calls_pdf_page_loop [of TerminateRejected env N 1 "[]" ?s2] loop
    by (simp add: terminate_calls_def)
  then have tc: "env_terminate env (terminate_calls s3) = None"
    using tm by (simp add: pdf_loop_start_facts)
  have tw: "terminate_worker env s3 = (None, log_effect WorkerTerminated s3)"
    by (simp add: terminate_worker_def tc)
  have "ocrPdfDocument_try env ?s0 = (None, False, pdf_surface ?full (log_effect WorkerTerminated s3))"
    unfolding ocrPdfDocument_try_def
    by (simp add: ab gd init loop res tw pdf_surface_def Let_def del: upt_Suc One_nat_def)
  then show ?thesis
    using loop by (simp add: ocrPdfDocument_def Let_def del: upt_Suc One_nat_def)
qed


lemma emitted_progress_setters:
  "emitted_progress (setProcessingMessage m st) = emitted_progress st"
  "emitted_progress (setRawExtractedText t st) = emitted_progress st"
  "emitted_progress (setStatusMessage sm st) = emitted_progress st"
  "emitted_progress (setIsLoading b st) = emitted_progress st"
  "emitted_progress (clearStatusMessageAfterDelay n st) = emitted_progress st"
  "emitted_progress (st\<lparr>ocrPageProgressDataRef := d\<rparr>) = emitted_progress st"
  "emitted_progress (setProcessingProgress v st) = emitted_progress st @ [v]"
  "(\<forall>v. e \<noteq> SetProgress v) \<Longrightarrow> emitted_progress (log_effect e st) = emitted_progress st"
  by (cases e; simp add: emitted_progress_def effects_def setters progress_values_append)+

lemma page_starts_setters:
  "page_starts (trace (setProcessingMessage m st)) = page_starts (trace st)"
  "page_starts (trace (setRawExtractedText t st)) = page_starts (trace st)"
  "page_starts (trace (setStatusMessage sm st)) = page_starts (trace st)"
  "page_starts (trace (setIsLoading b st)) = page_starts (trace st)"
  "page_starts (trace (clearStatusMessageAfterDelay n st)) = page_starts (trace st)"
  "page_starts (trace (st\<lparr>ocrPageProgressDataRef := d\<rparr>)) = page_starts (trace st)"
  "page_starts (trace (setProcessingProgress v st)) = page_starts (trace st)"
  "(\<forall>j. e \<noteq> GetPage j) \<Longrightarrow> page_starts (trace (log_effect e st)) = page_starts (trace st)"
  by (cases e; simp add: setters page_starts_append)+

lemma pdf_surface_fields:
  "rawExtractedText (pdf_surface fullText st) = trim fullText"
  "trace (pdf_surface fullText st) = trace st"
  "statusMessage (pdf_surface fullText st)
     = Some (if trim fullText = [] then pdf_empty_status else pdf_success_status)"
  by (simp_all add: pdf_surface_def setters)

lemma pdf_finally_trace:
  "emitted_progress (ocrPdfDocument_finally s) = emitted_progress s @ [Num 0]"
  "page_starts (trace (ocrPdfDocument_finally s)) = page_starts (trace s)"
  by (simp_all add: ocrPdfDocument_finally_def emitted_progress_setters page_starts_setters)

lemma since_append:
  assumes "seen_only T st st'"
  shows "page_starts (trace st') = page_starts (trace st) @ page_starts (trace_since st st')"
    and "emitted_progress st' = emitted_progress st @ emitted_since st st'"
proof -
  from assms obtain new where n: "trace st' = trace st @ new"
    unfolding seen_only_def by blast
  then show "page_starts (trace st') = page_starts (trace st) @ page_starts (trace_since st st')"
    by (simp add: trace_since_def page_starts_append)
  from n show "emitted_progress st' = emitted_progress st @ emitted_since st st'"
    by (simp add: emitted_since_def emitted_progress_def effects_def progress_values_append)
qed

text \<open>What a run shows when every page is recognised and \<^verbatim>\<open>terminate\<close> resolves.\<close>

lemma ocrPdfDocument_complete_facts:
  assumes ab: "env_arrayBuffer_error env = None"
    and gd: "env_getDocument env = Inr N"
    and cw: "env_createWorker_error env = None"
    and pages: "\<forall>j. 1 \<le> j \<and> j \<le> N \<longrightarrow> env_page env j = Recognize (ups j) (Inr (t j))"
    and tm: "env_terminate env (terminate_calls st) = None"
  shows "rawExtractedText (ocrPdfDocument env st)
           = trim (concat (map (\<lambda>j. t j @ [newline]) [1..<Suc N]))"
    and "statusMessage (ocrPdfDocument env st)
           = Some (if trim (concat (map (\<lambda>j. t j @ [newline]) [1..<Suc N])) = []
                   then pdf_empty_status else pdf_success_status)"
    and "emitted_since st (ocrPdfDocument env st)
           = Num 0 # map (pdf_overall_progress (pdf_init_page_data N))
                       (recognition_fractions (env_createWorker_updates env))
               @ concat (map (\<lambda>j. page_emissions N j (ups j)) [1..<Suc N]) @ [Num 0]"
    and "page_starts (trace_since st (ocrPdfDocument env st))
           = map (\<lambda>j. (j, page_cell N j)) [1..<Suc N]"
proof -
  let ?s2 = "pdf_loop_start env N st"
  let ?s3 = "snd (pdf_page_loop env N 1 [] ?s2)"
  note run = ocrPdfDocument_complete [OF ab gd cw pages tm]
  have cell: "totalPages (ocrPageProgressDataRef ?s2) = N"
    "pageBudget (ocrPageProgressDataRef ?s2) = js_div 100 (of_nat N)"
    by (simp_all add: pdf_loop_start_facts pdf_init_page_data_def)
  note loop = pdf_page_loop_complete [OF pages cell, of "[]"]
  note since = since_append [OF conjunct1 [OF pdf_texts [of st env]]]
  show "rawExtractedText (ocrPdfDocument env st)
           = trim (concat (map (\<lambda>j. t j @ [newline]) [1..<Suc N]))"
    unfolding run by (simp only: pdf_finally_fields pdf_surface_fields)
  show "statusMessage (ocrPdfDocument env st)
           = Some (if trim (concat (map (\<lambda>j. t j @ [newline]) [1..<Suc N])) = []
                   then pdf_empty_status else pdf_success_status)"
    unfolding run by (simp only: pdf_finally_fields pdf_surface_fields)
  have "emitted_progress (ocrPdfDocument env st)
           = emitted_progress st @ (Num 0 # map (pdf_overall_progress (pdf_init_page_data N))
                       (recognition_fractions (env_createWorker_updates env))
               @ concat (map (\<lambda>j. page_emissions N j (ups j)) [1..<Suc N]) @ [Num 0])"
    unfolding run pdf_finally_trace
    by (simp add: emitted_progress_def [of "pdf_surface _ _"] effects_def pdf_surface_fields
        emitted_progress_def [symmetric, unfolded effects_def] emitted_progress_setters
        loop pdf_loop_start_facts del: upt_Suc One_nat_def)
  with since(2) show "emitted_since st (ocrPdfDocument env st)
           = Num 0 # map (pdf_overall_progress (pdf_init_page_data N))
                       (recognition_fractions (env_createWorker_updates env))
               @ concat (map (\<lambda>j. page_emissions N j (ups j)) [1..<Suc N]) @ [Num 0]"
    by simp
  have "page_starts (trace (ocrPdfDocument env st))
           = page_starts (trace st) @ map (\<lambda>j. (j, page_cell N j)) [1..<Suc N]"
    unfolding run pdf_finally_trace
    by (simp add: pdf_surface_fields page_starts_setters loop pdf_loop_start_facts
        del: upt_Suc One_nat_def)
  with since(1) show "page_starts (trace_since st (ocrPdfDocument env st))
           = map (\<lambda>j. (j, page_cell N j)) [1..<Suc N]"
    by simp
qed

section \<open>Text accumulated over the pages\<close>

text \<open>
  Claim C6. For a PDF of any number \<open>N\<close> of pages, page \<open>j\<close> recognised as the text \<open>t j\<close>
  whatever progress updates the engine sends: the loop leaves in \<^verbatim>\<open>fullText\<close> the texts of
  the pages in page order, each followed by one newline, and the text surfaced is that
  buffer trimmed. For two pages recognised as \<^verbatim>\<open>Alpha\<close> and \<^verbatim>\<open>Beta\<close> the buffer is
  \<^verbatim>\<open>Alpha\<close>, newline, \<^verbatim>\<open>Beta\<close>, newline, and the text surfaced is \<^verbatim>\<open>Alpha\<close>, newline,
  \<^verbatim>\<open>Beta\<close>, with the success status.
\<close>

theorem pages_joined_by_newline:
  assumes "env_arrayBuffer_error env = None"
    and "env_getDocument env = Inr N"
    and "env_createWorker_error env = None"
    and "\<forall>j. 1 \<le> j \<and> j \<le> N \<longrightarrow> env_page env j = Recognize (ups j) (Inr (t j))"
    and "env_terminate env (terminate_calls st) = None"
  shows "fst (pdf_page_loop env N 1 [] (pdf_loop_start env N st))
           = Inr (concat (map (\<lambda>j. t j @ [newline]) [1..<Suc N]))
         \<and> rawExtractedText (ocrPdfDocument env st)
             = trim (concat (map (\<lambda>j. t j @ [newline]) [1..<Suc N]))
         \<and> (N = 2 \<and> t 1 = ''Alpha'' \<and> t 2 = ''Beta'' \<longrightarrow>
               fst (pdf_page_loop env N 1 [] (pdf_loop_start env N st))
                 = Inr (''Alpha'' @ [newline] @ ''Beta'' @ [newline])
               \<and> rawExtractedText (ocrPdfDocument env st) = ''Alpha'' @ [newline] @ ''Beta''
               \<and> outcome (ocrPdfDocument env st) = Some Success)"
proof -
  let ?full = "concat (map (\<lambda>j. t j @ [newline]) [1..<Suc N])"
  have cell: "totalPages (ocrPageProgressDataRef (pdf_loop_start env N st)) = N"
    "pageBudget (ocrPageProgressDataRef (pdf_loop_start env N st)) = js_div 100 (of_nat N)"
    by (simp_all add: pdf_loop_start_facts pdf_init_page_data_def)
  have loop: "fst (pdf_page_loop env N 1 [] (pdf_loop_start env N st)) = Inr ?full"
    using pdf_page_loop_complete [OF assms(4) cell, of "[]"] by simp
  note run = ocrPdfDocument_complete_facts(1,2) [OF assms]
  have two: "?full = ''Alpha'' @ [newline] @ ''Beta'' @ [newline]"
    if "N = 2" "t 1 = ''Alpha''" "t 2 = ''Beta''"
  proof -
    have "[1..<Suc 2] = [1, 2::nat]" by (simp add: upt_conv_Cons)
    with that show ?thesis by simp
  qed
  have tr: "trim (''Alpha'' @ [newline] @ ''Beta'' @ [newline]) = ''Alpha'' @ [newline] @ ''Beta''"
    by (simp add: trim_def is_whitespace_def)
  have "N = 2 \<and> t 1 = ''Alpha'' \<and> t 2 = ''Beta'' \<longrightarrow>
               fst (pdf_page_loop env N 1 [] (pdf_loop_start env N st))
                 = Inr (''Alpha'' @ [newline] @ ''Beta'' @ [newline])
               \<and> rawExtractedText (ocrPdfDocument env st) = ''Alpha'' @ [newline] @ ''Beta''
               \<and> outcome (ocrPdfDocument env st) = Some Success"
  proof (intro impI, elim conjE)
    assume that: "N = 2" "t 1 = ''Alpha''" "t 2 = ''Beta''"
    have "rawExtractedText (ocrPdfDocument env st) = ''Alpha'' @ [newline] @ ''Beta''"
      unfolding run two [OF that] tr by (rule refl)
    moreover have "outcome (ocrPdfDocument env st) = Some Success"
      unfolding run outcome_def two [OF that] tr by (simp add: pdf_success_status_def)
    moreover have "fst (pdf_page_loop env N 1 [] (pdf_loop_start env N st))
                 = Inr (''Alpha'' @ [newline] @ ''Beta'' @ [newline])"
      unfolding loop two [OF that] by (rule refl)
    ultimately show "fst (pdf_page_loop env N 1 [] (pdf_loop_start env N st))
                 = Inr (''Alpha'' @ [newline] @ ''Beta'' @ [newline])
               \<and> rawExtractedText (ocrPdfDocument env st) = ''Alpha'' @ [newline] @ ''Beta''
               \<and> outcome (ocrPdfDocument env st) = Some Success"
      by (intro conjI)
  qed
  with loop run(1) show ?thesis by (intro conjI)
qed

theorem pages_joined_by_newline_witness:
  "env_arrayBuffer_error alpha_beta_env = None
   \<and> env_getDocument alpha_beta_env = Inr 2
   \<and> env_createWorker_error alpha_beta_env = None
   \<and> env_page alpha_beta_env 1 = Recognize [] (Inr ''Alpha'')
   \<and> env_page alpha_beta_env 2 = Recognize [recognizing (1 / 2)] (Inr ''Beta'')
   \<and> env_terminate alpha_beta_env (terminate_calls initial_state) = None
   \<and> rawExtractedText (ocrPdfDocument alpha_beta_env initial_state)
       = ''Alpha'' @ [newline] @ ''Beta''
   \<and> outcome (ocrPdfDocument alpha_beta_env initial_state) = Some Success"
proof -
  let ?ups = "\<lambda>j::nat. if j = 1 then [] else [recognizing (1 / 2)]"
  let ?t = "\<lambda>j::nat. if j = 1 then ''Alpha'' else ''Beta''"
  have h1: "env_arrayBuffer_error alpha_beta_env = None"
    and h2: "env_getDocument alpha_beta_env = Inr 2"
    and h3: "env_createWorker_error alpha_beta_env = None"
    and h5: "env_terminate alpha_beta_env (terminate_calls initial_state) = None"
    and p1: "env_page alpha_beta_env 1 = Recognize [] (Inr ''Alpha'')"
    and p2: "env_page alpha_beta_env 2 = Recognize [recognizing (1 / 2)] (Inr ''Beta'')"
    by (simp_all add: alpha_beta_env_def simple_env_def)
  have h4: "\<forall>j. 1 \<le> j \<and> j \<le> 2 \<longrightarrow> env_page alpha_beta_env j = Recognize (?ups j) (Inr (?t j))"
    by (simp add: alpha_beta_env_def simple_env_def)
  note th = pages_joined_by_newline [OF h1 h2 h3 h4 h5]
  have "rawExtractedText (ocrPdfDocument alpha_beta_env initial_state)
          = ''Alpha'' @ [newline] @ ''Beta''
        \<and> outcome (ocrPdfDocument alpha_beta_env initial_state) = Some Success"
    using th [THEN conjunct2, THEN conjunct2] by simp
  with h1 h2 h3 h5 p1 p2 show ?thesis by (intro conjI) simp_all
qed

section \<open>A PDF without pages\<close>






section \<open>Ground facts of binary64 arithmetic\<close>

text \<open>The operations on the doubles that the examples below go through.\<close>

lemma dbl_lit_1: "js_literal (1 / 2) = Num (1 / 2)"
  unfolding js_literal_def
  by (simp add: fl64_scaled [where k = 53] round_ties_even_numeral_fraction
      round_ties_even_numeral)

lemma dbl_lit_1_value: "literal_value (1 / 2) = 1 / 2"
  by (simp add: literal_value_def dbl_lit_1)

lemma dbl_lit_2: "js_literal (1 / 5) = Num (3602879701896397 / 18014398509481984)"
  unfolding js_literal_def
  by (simp add: fl64_scaled [where k = 55] round_ties_even_numeral_fraction
      round_ties_even_numeral)

lemma dbl_lit_2_value: "literal_value (1 / 5) = 3602879701896397 / 18014398509481984"
  by (simp add: literal_value_def dbl_lit_2)

lemma dbl_lit_3: "js_literal (1 / 10) = Num (3602879701896397 / 36028797018963968)"
  unfolding js_literal_def
  by (simp add: fl64_scaled [where k = 56] round_ties_even_numeral_fraction
      round_ties_even_numeral)

lemma dbl_lit_3_value: "literal_value (1 / 10) = 3602879701896397 / 36028797018963968"
  by (simp add: literal_value_def dbl_lit_3)

lemma dbl_div_4: "js_div 0 1 = Num 0"
  by (simp add: fl64_zero)

lemma dbl_mul_5: "js_mul (Num 0) (Num 100) = Num 0"
  by (simp add: fl64_zero)

lemma dbl_div_6: "js_div 100 1 = Num 100"
  by (simp add: fl64_scaled [where k = 46] round_ties_even_numeral_fraction
      round_ties_even_numeral)

lemma dbl_mul_7: "js_mul (Num 100) (Num (3602879701896397 / 36028797018963968)) = Num 10"
  by (simp add: fl64_scaled [where k = 49] round_ties_even_numeral_fraction
      round_ties_even_numeral)

lemma dbl_add_8: "js_add (Num 0) (Num 10) = Num 10"
  by (simp add: fl64_scaled [where k = 49] round_ties_even_numeral_fraction
      round_ties_even_numeral)

lemma dbl_mul_12: "js_mul (Num (1 / 2)) (Num 100) = Num 50"
  by (simp add: fl64_scaled [where k = 47] round_ties_even_numeral_fraction
      round_ties_even_numeral)

lemma dbl_add_13: "js_add (Num 0) (Num 50) = Num 50"
  by (simp add: fl64_scaled [where k = 47] round_ties_even_numeral_fraction
      round_ties_even_numeral)

lemma dbl_mul_17: "js_mul (Num (3602879701896397 / 18014398509481984)) (Num 100) = Num 20"
  by (simp add: fl64_scaled [where k = 48] round_ties_even_numeral_fraction
      round_ties_even_numeral)

lemma dbl_add_18: "js_add (Num 0) (Num 20) = Num 20"
  by (simp add: fl64_scaled [where k = 48] round_ties_even_numeral_fraction
      round_ties_even_numeral)

lemma dbl_div_19: "js_div 0 3 = Num 0"
  by (simp add: fl64_zero)

lemma dbl_div_21: "js_div 100 3 = Num (4691249611844267 / 140737488355328)"
  by (simp add: fl64_scaled [where k = 47] round_ties_even_numeral_fraction
      round_ties_even_numeral)

lemma dbl_mul_25: "js_mul (Num (4691249611844267 / 140737488355328)) (Num (3602879701896397 / 36028797018963968)) = Num (1876499844737707 / 562949953421312)"
  by (simp add: fl64_scaled [where k = 51] round_ties_even_numeral_fraction
      round_ties_even_numeral)

lemma dbl_add_26: "js_add (Num 0) (Num (1876499844737707 / 562949953421312)) = Num (1876499844737707 / 562949953421312)"
  by (simp add: fl64_scaled [where k = 51] round_ties_even_numeral_fraction
      round_ties_even_numeral)

lemma dbl_mul_30: "js_mul (Num (1 / 2)) (Num (4691249611844267 / 140737488355328)) = Num (4691249611844267 / 281474976710656)"
  by (simp add: fl64_scaled [where k = 48] round_ties_even_numeral_fraction
      round_ties_even_numeral)

lemma dbl_add_31: "js_add (Num 0) (Num 17) = Num 17"
  by (simp add: fl64_scaled [where k = 48] round_ties_even_numeral_fraction
      round_ties_even_numeral)

lemma dbl_div_32: "js_div 1 3 = Num (6004799503160661 / 18014398509481984)"
  by (simp add: fl64_scaled [where k = 54] round_ties_even_numeral_fraction
      round_ties_even_numeral)

lemma dbl_mul_33: "js_mul (Num (6004799503160661 / 18014398509481984)) (Num 100) = Num (2345624805922133 / 70368744177664)"
  by (simp add: fl64_scaled [where k = 47] round_ties_even_numeral_fraction
      round_ties_even_numeral)

lemma dbl_add_39: "js_add (Num (2345624805922133 / 70368744177664)) (Num (1876499844737707 / 562949953421312)) = Num (5160374573028693 / 140737488355328)"
  by (simp add: fl64_scaled [where k = 47] round_ties_even_numeral_fraction
      round_ties_even_numeral)

lemma dbl_add_44: "js_add (Num (2345624805922133 / 70368744177664)) (Num 17) = Num (3541893456942421 / 70368744177664)"
  by (simp add: fl64_scaled [where k = 47] round_ties_even_numeral_fraction
      round_ties_even_numeral)

lemma dbl_div_45: "js_div 2 3 = Num (6004799503160661 / 9007199254740992)"
  by (simp add: fl64_scaled [where k = 53] round_ties_even_numeral_fraction
      round_ties_even_numeral)

lemma dbl_mul_46: "js_mul (Num (6004799503160661 / 9007199254740992)) (Num 100) = Num (2345624805922133 / 35184372088832)"
  by (simp add: fl64_scaled [where k = 46] round_ties_even_numeral_fraction
      round_ties_even_numeral)

lemma dbl_add_52: "js_add (Num (2345624805922133 / 35184372088832)) (Num (1876499844737707 / 562949953421312)) = Num (4925812092436479 / 70368744177664)"
  by (simp add: fl64_scaled [where k = 46] round_ties_even_numeral_fraction
      round_ties_even_numeral)

lemma dbl_add_57: "js_add (Num (2345624805922133 / 35184372088832)) (Num 17) = Num (2943759131432277 / 35184372088832)"
  by (simp add: fl64_scaled [where k = 46] round_ties_even_numeral_fraction
      round_ties_even_numeral)

lemma dbl_mul_61: "js_mul (Num (3602879701896397 / 18014398509481984)) (Num (4691249611844267 / 140737488355328)) = Num (1876499844737707 / 281474976710656)"
  by (simp add: fl64_scaled [where k = 50] round_ties_even_numeral_fraction
      round_ties_even_numeral)

lemma dbl_add_62: "js_add (Num (2345624805922133 / 70368744177664)) (Num 7) = Num (2838206015165781 / 70368744177664)"
  by (simp add: fl64_scaled [where k = 47] round_ties_even_numeral_fraction
      round_ties_even_numeral)

lemma dbl_mul_66: "js_mul (Num (3602879701896397 / 36028797018963968)) (Num (4691249611844267 / 140737488355328)) = Num (1876499844737707 / 562949953421312)"
  by (simp add: fl64_scaled [where k = 51] round_ties_even_numeral_fraction
      round_ties_even_numeral)

lemma dbl_add_67: "js_add (Num (2345624805922133 / 70368744177664)) (Num 3) = Num (2556731038455125 / 70368744177664)"
  by (simp add: fl64_scaled [where k = 47] round_ties_even_numeral_fraction
      round_ties_even_numeral)

lemma dbl_add_77: "js_add (Num (2345624805922133 / 70368744177664)) (Num (4691249611844267 / 281474976710656)) = Num 50"
  by (simp add: fl64_scaled [where k = 47] round_ties_even_numeral_fraction
      round_ties_even_numeral)

lemma dbl_add_83: "js_add (Num 0) (Num 3) = Num 3"
  by (simp add: fl64_scaled [where k = 51] round_ties_even_numeral_fraction
      round_ties_even_numeral)

lemma dbl_add_88: "js_add (Num (2345624805922133 / 35184372088832)) (Num 3) = Num (2451177922188629 / 35184372088832)"
  by (simp add: fl64_scaled [where k = 46] round_ties_even_numeral_fraction
      round_ties_even_numeral)

lemmas dbl_facts =
  dbl_lit_1 dbl_lit_1_value dbl_lit_2 dbl_lit_2_value dbl_lit_3 dbl_lit_3_value
  dbl_div_4 dbl_mul_5 dbl_div_6 dbl_mul_7 dbl_add_8 dbl_mul_12
  dbl_add_13 dbl_mul_17 dbl_add_18 dbl_div_19 dbl_div_21 dbl_mul_25
  dbl_add_26 dbl_mul_30 dbl_add_31 dbl_div_32 dbl_mul_33 dbl_add_39
  dbl_add_44 dbl_div_45 dbl_mul_46 dbl_add_52 dbl_add_57 dbl_mul_61
  dbl_add_62 dbl_mul_66 dbl_add_67 dbl_add_77 dbl_add_83 dbl_add_88

lemmas dbl_eval =
  page_cell_def render_start_value_def pdf_overall_progress_def image_overall_progress_def
  page_emissions_def pdf_init_page_data_def recognizing_def dbl_facts
  round_half_up_fraction round_half_up_whole

lemma simple_env_complete:
  "env_arrayBuffer_error (simple_env n ups txt) = None"
  "env_getDocument (simple_env n ups txt) = Inr n"
  "env_createWorker_error (simple_env n ups txt) = None"
  "env_page (simple_env n ups txt) j = Recognize ups (Inr txt)"
  "env_terminate (simple_env n ups txt) k = None"
  "env_createWorker_updates (simple_env n ups txt) = []"
  by (simp_all add: simple_env_def)

lemma emitted_since_initial: "emitted_since initial_state s = emitted_progress s"
  by (simp add: emitted_since_def emitted_progress_def effects_def initial_state_def)

lemma trace_since_initial: "trace_since initial_state s = trace s"
  by (simp add: trace_since_def initial_state_def)

lemma upt_1_2: "[1..<Suc 1] = [1]"
  by simp

lemma upt_1_4: "[1..<Suc 3] = [1, 2, 3]"
  by (simp add: upt_conv_Cons)

section \<open>Progress within one recognition call\<close>

lemma pdf_overall_progress_mono:
  assumes "baseProgress d = Num b" and "pageBudget d = Num g" and "0 \<le> g" and "p \<le> q"
  shows "js_le (pdf_overall_progress d p) (pdf_overall_progress d q)"
  unfolding pdf_overall_progress_def assms(1,2)
  by (intro Math_min_mono Math_round_mono js_add_mono js_mul_mono assms(3,4))

lemma image_overall_progress_mono:
  assumes "p \<le> q"
  shows "js_le (image_overall_progress p) (image_overall_progress q)"
  unfolding image_overall_progress_def
  by (intro Math_round_mono js_mul_mono assms) simp

lemma sorted_wrt_js_le_map:
  assumes "\<And>p q. p \<le> q \<Longrightarrow> js_le (f p) (f q)" and "sorted ps"
  shows "sorted_wrt js_le (map f (ps :: rat list))"
  using assms(2) by (induction ps) (auto simp add: assms(1))

text \<open>On the pages of a PDF the cell holds finite numbers: a budget between 0 and 100 and
  a base between 0 and 100.\<close>

lemma page_cell_finite:
  assumes "1 \<le> N" and "1 \<le> i" and "i \<le> N"
  shows "\<exists>b g. baseProgress (page_cell N i) = Num b \<and> pageBudget (page_cell N i) = Num g
               \<and> 0 \<le> b \<and> b \<le> 100 \<and> 0 \<le> g \<and> g \<le> 100"
proof -
  have N: "(0::rat) < of_nat N" using assms(1) by simp
  have "(100::rat) / of_nat N \<le> 100 / 1"
    using assms(1) by (intro divide_left_mono) simp_all
  then have "(100::rat) / of_nat N \<le> of_int 100" by simp
  moreover have "(0::rat) \<le> 100 / of_nat N" by simp
  ultimately obtain g where g: "fl64 (100 / of_nat N) = Num g" "0 \<le> g" "g \<le> 100"
    using fl64_between [of "100 / of_nat N" 100] by auto
  have i: "(0::rat) \<le> of_nat i - 1" using assms(2) by simp
  have "(of_nat i - 1 :: rat) \<le> of_nat N" using assms(3) by simp
  then have "(of_nat i - 1 :: rat) / of_nat N \<le> 1"
    using N by (simp add: field_simps)
  then have "(of_nat i - 1 :: rat) / of_nat N \<le> of_int 1" by simp
  moreover have "(0::rat) \<le> (of_nat i - 1) / of_nat N" using i N by simp
  ultimately obtain q where q: "fl64 ((of_nat i - 1) / of_nat N) = Num q" "0 \<le> q" "q \<le> 1"
    using fl64_between [of "(of_nat i - 1) / of_nat N" 1] by auto
  have "q * 100 \<le> of_int 100" "0 \<le> q * 100" using q(2,3) by simp_all
  then obtain b where b: "fl64 (q * 100) = Num b" "0 \<le> b" "b \<le> 100"
    using fl64_between [of "q * 100" 100] by auto
  have "baseProgress (page_cell N i) = Num b"
    using N q(1) b(1) by (simp add: page_cell_def)
  moreover have "pageBudget (page_cell N i) = Num g"
    using N g(1) by (simp add: page_cell_def)
  ultimately show ?thesis using b(2,3) g(2,3) by blast
qed

text \<open>
  Claim C1 as stated fails: for a PDF of one page whose recognition reports the fraction
  0.5 and then 0.2, the values emitted are 0, 10 (render start), 50, 20 and the final
  reset 0; the value 20 is emitted after 50. No earlier maximum is kept.
\<close>

theorem progress_not_monotone_counterexample:
  "emitted_progress
     (ocrPdfDocument (simple_env 1 [recognizing (1 / 2), recognizing (1 / 5)] ''abc'')
        initial_state)
     = [Num 0, Num 10, Num 50, Num 20, Num 0]
   \<and> \<not> js_le (Num 50) (Num 20)"
proof -
  let ?env = "simple_env 1 [recognizing (1 / 2), recognizing (1 / 5)] ''abc''"
  have "emitted_since initial_state (ocrPdfDocument ?env initial_state)
          = Num 0 # map (pdf_overall_progress (pdf_init_page_data 1))
                       (recognition_fractions (env_createWorker_updates ?env))
               @ concat (map (\<lambda>j. page_emissions 1 j
                                    [recognizing (1 / 2), recognizing (1 / 5)]) [1..<Suc 1])
               @ [Num 0]"
    by (rule ocrPdfDocument_complete_facts(3) [where t = "\<lambda>j. ''abc''"])
       (simp_all add: simple_env_complete)
  also have "\<dots> = [Num 0, Num 10, Num 50, Num 20, Num 0]"
    unfolding upt_1_2 simple_env_complete
    by (simp add: dbl_eval del: js_div.simps js_mul.simps js_add.simps)
  finally show ?thesis
    by (simp add: emitted_since_initial)
qed

text \<open>
  Claim C1, amended. Within one recognition call, on page \<open>i\<close> of a PDF of \<open>N \<ge> 1\<close> pages
  (\<open>1 \<le> i \<le> N\<close>) or on an image, if the recognition fractions arrive in non-decreasing
  order then the overall-progress values emitted for them are non-decreasing, in the
  arithmetic of the doubles. (Updates with another status emit no progress value.)
\<close>

theorem progress_monotone_within_call:
  assumes "1 \<le> N"
    and "1 \<le> i" and "i \<le> N"
    and "pageBudget (ocrPageProgressDataRef st0) = js_div 100 (of_nat N)"
    and "ocrPageProgressDataRef st = ocrPageProgressDataRef (pdf_begin_page N i st0)"
    and "sorted (recognition_fractions ms)"
  shows "sorted_wrt js_le (emitted_since st (run_logger (pageAwarePdfOcrLogger env) ms st))
         \<and> sorted_wrt js_le (emitted_since st (run_logger (imageOcrLogger env) ms st))"
proof -
  let ?d = "ocrPageProgressDataRef st"
  from page_cell_finite [OF assms(1,2,3)] obtain b g where
    c: "baseProgress (page_cell N i) = Num b" "pageBudget (page_cell N i) = Num g" "0 \<le> g"
    by blast
  have base: "baseProgress ?d = Num b"
    using c(1) unfolding assms(5)
    by (simp add: pdf_begin_page_def Let_def setters page_cell_def)
  have budget: "pageBudget ?d = Num g"
    using c(2) unfolding assms(5)
    by (simp add: pdf_begin_page_def Let_def setters page_cell_def assms(4))
  have "sorted_wrt js_le (map (pdf_overall_progress ?d) (recognition_fractions ms))"
    using pdf_overall_progress_mono [OF base budget c(3)] assms(6)
    by (rule sorted_wrt_js_le_map)
  moreover have "sorted_wrt js_le (map image_overall_progress (recognition_fractions ms))"
    using image_overall_progress_mono assms(6) by (rule sorted_wrt_js_le_map)
  ultimately show ?thesis
    by (simp add: emitted_since_run_pdf_logger emitted_since_run_image_logger)
qed

theorem progress_monotone_within_call_witness:
  "(1::nat) \<le> 3 \<and> (1::nat) \<le> 2 \<and> (2::nat) \<le> 3
   \<and> pageBudget (ocrPageProgressDataRef
         (initial_state\<lparr>ocrPageProgressDataRef := pdf_init_page_data 3\<rparr>))
       = js_div 100 (of_nat 3)
   \<and> sorted (recognition_fractions [recognizing (1 / 5), recognizing (1 / 2)])
   \<and> emitted_since
         (pdf_begin_page 3 2 (initial_state\<lparr>ocrPageProgressDataRef := pdf_init_page_data 3\<rparr>))
         (run_logger (pageAwarePdfOcrLogger (simple_env 3 [] []))
            [recognizing (1 / 5), recognizing (1 / 2)]
            (pdf_begin_page 3 2
               (initial_state\<lparr>ocrPageProgressDataRef := pdf_init_page_data 3\<rparr>)))
       = [Num 40, Num 50]
   \<and> sorted_wrt js_le [Num 40, Num 50]"
proof -
  let ?st0 = "initial_state\<lparr>ocrPageProgressDataRef := pdf_init_page_data 3\<rparr>"
  have h1: "(1::nat) \<le> 3" and h2: "(1::nat) \<le> 2" and h3: "(2::nat) \<le> 3" by simp_all
  have h4: "pageBudget (ocrPageProgressDataRef ?st0) = js_div 100 (of_nat 3)"
    by (simp add: pdf_init_page_data_def)
  have h6: "sorted (recognition_fractions [recognizing (1 / 5), recognizing (1 / 2)])"
    by (simp add: recognizing_def dbl_facts)
  have c: "ocrPageProgressDataRef (pdf_begin_page 3 2 ?st0) = page_cell 3 2"
    by (rule pdf_begin_page_trace) (simp_all add: pdf_init_page_data_def)
  have e: "emitted_since (pdf_begin_page 3 2 ?st0)
         (run_logger (pageAwarePdfOcrLogger (simple_env 3 [] []))
            [recognizing (1 / 5), recognizing (1 / 2)] (pdf_begin_page 3 2 ?st0))
       = [Num 40, Num 50]"
    unfolding emitted_since_run_pdf_logger c
    by (simp add: dbl_eval del: js_div.simps js_mul.simps js_add.simps)
  from progress_monotone_within_call [OF h1 h2 h3 h4 refl h6, where env = "simple_env 3 [] []"]
  have "sorted_wrt js_le [Num 40, Num 50]"
    unfolding e by (rule conjunct1)
  with h1 h2 h3 h4 h6 e show ?thesis by (intro conjI)
qed

section \<open>The value emitted for a recognition fraction\<close>




section \<open>The base progress of a page\<close>

text \<open>The pages started by the loop, whatever the collaborators answer: an initial part of
  the pages \<open>i, \<dots>, n\<close>, each with its cell.\<close>

lemma pdf_page_loop_starts:
  assumes "totalPages (ocrPageProgressDataRef st) = n"
    and "pageBudget (ocrPageProgressDataRef st) = js_div 100 (of_nat n)"
  shows "\<exists>ps. page_starts (trace (snd (pdf_page_loop env n i fullText st)))
                 = page_starts (trace st) @ ps
              \<and> prefix ps (map (\<lambda>j. (j, page_cell n j)) [i..<Suc n])"
  using assms
proof (induction env n i fullText st rule: pdf_page_loop.induct)
  case (1 env numPages i fullText st)
  show ?case
  proof (cases "i \<le> numPages")
    case False
    then show ?thesis by (simp add: pdf_page_loop_done)
  next
    case True
    note b = pdf_begin_page_trace [where i = i, OF "1.prems"]
    let ?s1 = "log_effect (GetPage i) (pdf_begin_page numPages i st)"
    let ?s2 = "setProcessingMessage
                 (''Analisando '' @ page_word @ '' '' @ string_of_nat i @ ''/''
                    @ string_of_nat numPages @ '' com OCR...'') ?s1"
    have upt: "[i..<Suc numPages] = i # [Suc i..<Suc numPages]"
      using True by (simp add: upt_conv_Cons)
    have s1: "page_starts (trace ?s1) = page_starts (trace st) @ [(i, page_cell numPages i)]"
      by (simp add: trace_log_effect b page_starts_append)
    have one: "prefix [(i, page_cell numPages i)]
                 (map (\<lambda>j. (j, page_cell numPages j)) [i..<Suc numPages])"
      unfolding upt by simp
    show ?thesis
    proof (cases "env_page env i")
      case (GetPageFails e)
      then have "pdf_page_loop env numPages i fullText st = (Inl e, ?s1)"
        by (subst pdf_page_loop.simps) (simp add: True Let_def)
      with s1 one show ?thesis by simp
    next
      case NoCanvasContext
      then have "pdf_page_loop env numPages i fullText st = (Inl no_context_error, ?s1)"
        by (subst pdf_page_loop.simps) (simp add: True Let_def)
      with s1 one show ?thesis by simp
    next
      case (RenderFails e)
      then have "pdf_page_loop env numPages i fullText st = (Inl e, ?s1)"
        by (subst pdf_page_loop.simps) (simp add: True Let_def)
      with s1 one show ?thesis by simp
    next
      case (Recognize updates res)
      let ?s3 = "run_logger (pageAwarePdfOcrLogger env) updates (log_effect RecognizeCall ?s2)"
      have s3: "page_starts (trace ?s3) = page_starts (trace st) @ [(i, page_cell numPages i)]"
        using s1
        by (simp add: run_pdf_logger_trace page_starts_append page_starts_SetProgress
            trace_log_effect trace_setters)
      show ?thesis
      proof (cases res)
        case (Inl e)
        with Recognize have "pdf_page_loop env numPages i fullText st = (Inl e, ?s3)"
          by (subst pdf_page_loop.simps) (simp add: True Let_def)
        with s3 one show ?thesis by simp
      next
        case (Inr pageText)
        note step = pdf_page_loop_step [OF True Recognize [unfolded Inr], of fullText st]
        note d = pdf_page_done_facts [where env = env and i = i and ups = updates,
            OF "1.prems"]
        have c: "totalPages (ocrPageProgressDataRef (pdf_page_done env numPages i updates st))
                   = numPages"
          "pageBudget (ocrPageProgressDataRef (pdf_page_done env numPages i updates st))
                   = js_div 100 (of_nat numPages)"
          unfolding d(1) by (simp_all add: page_cell_def)
        from "1.IH" [OF True refl Recognize refl refl Inr] c
        obtain ps where ps:
          "page_starts (trace (snd (pdf_page_loop env numPages (Suc i)
                                      (fullText @ pageText @ [newline])
                                      (pdf_page_done env numPages i updates st))))
             = page_starts (trace (pdf_page_done env numPages i updates st)) @ ps"
          "prefix ps (map (\<lambda>j. (j, page_cell numPages j)) [Suc i..<Suc numPages])"
          by (auto simp add: pdf_page_done_def)
        have "prefix ((i, page_cell numPages i) # ps)
                (map (\<lambda>j. (j, page_cell numPages j)) [i..<Suc numPages])"
          unfolding upt using ps(2) by simp
        then show ?thesis
          unfolding step ps(1) d(4) by (intro exI [of _ "(i, page_cell numPages i) # ps"]) simp
      qed
    qed
  qed
qed

lemma page_starts_initializeTesseractWorker:
  "page_starts (trace (snd (initializeTesseractWorker env (pageAwarePdfOcrLogger env) st)))
     = page_starts (trace st)"
  by (simp add: initializeTesseractWorker_def Let_def run_pdf_logger_trace page_starts_append
      page_starts_SetProgress trace_log_effect split: option.splits)

lemma cell_initializeTesseractWorker:
  "ocrPageProgressDataRef (snd (initializeTesseractWorker env (pageAwarePdfOcrLogger env) st))
     = ocrPageProgressDataRef st"
  by (simp add: initializeTesseractWorker_def Let_def run_pdf_logger_fields cell_setters
      split: option.splits)

lemma page_starts_terminate_worker:
  "page_starts (trace (snd (terminate_worker env st))) = page_starts (trace st)"
  by (simp add: terminate_worker_def trace_log_effect page_starts_append split: option.splits)

lemma pdf_try_starts:
  assumes "ocrPdfDocument_try env st = (thrown, w, s)"
  shows "\<exists>ps. page_starts (trace s) = page_starts (trace st) @ ps
              \<and> (\<forall>N. env_getDocument env = Inr N
                      \<longrightarrow> prefix ps (map (\<lambda>j. (j, page_cell N j)) [1..<Suc N]))"
proof (cases "env_arrayBuffer_error env")
  case (Some e)
  with assms show ?thesis by (simp add: ocrPdfDocument_try_def)
next
  case None
  show ?thesis
  proof (cases "env_getDocument env")
    case (Inl e)
    with None assms show ?thesis
      by (auto simp add: ocrPdfDocument_try_def page_starts_setters)
  next
    case (Inr numPages)
    let ?s1 = "(log_effect GetDocument st)\<lparr>ocrPageProgressDataRef := pdf_init_page_data numPages\<rparr>"
    have p1: "page_starts (trace ?s1) = page_starts (trace st)"
      by (simp add: page_starts_setters)
    obtain r s2 where init:
      "initializeTesseractWorker env (pageAwarePdfOcrLogger env) ?s1 = (r, s2)"
      by (cases "initializeTesseractWorker env (pageAwarePdfOcrLogger env) ?s1")
    have p2: "page_starts (trace s2) = page_starts (trace st)"
      using page_starts_initializeTesseractWorker [of env ?s1] init p1 by simp
    have c2: "totalPages (ocrPageProgressDataRef s2) = numPages"
      "pageBudget (ocrPageProgressDataRef s2) = js_div 100 (of_nat numPages)"
      using cell_initializeTesseractWorker [of env ?s1] init
      by (simp_all add: pdf_init_page_data_def)
    show ?thesis
    proof (cases r)
      case (Some e)
      with None Inr init assms p2 show ?thesis
        by (auto simp add: ocrPdfDocument_try_def)
    next
      case rNone: None
      obtain res s3 where loop: "pdf_page_loop env numPages 1 [] s2 = (res, s3)"
        by (cases "pdf_page_loop env numPages 1 [] s2")
      from pdf_page_loop_starts [OF c2, of env 1 "[]"] loop p2
      obtain ps where ps: "page_starts (trace s3) = page_starts (trace st) @ ps"
        "prefix ps (map (\<lambda>j. (j, page_cell numPages j)) [1..<Suc numPages])"
        by auto
      show ?thesis
      proof (cases res)
        case (Inl e)
        with None Inr init rNone loop assms have "s = s3"
          by (simp add: ocrPdfDocument_try_def)
        with ps Inr show ?thesis by auto
      next
        case fullText: (Inr fullText)
        obtain tr s4 where tw: "terminate_worker env s3 = (tr, s4)"
          by (cases "terminate_worker env s3")
        have p4: "page_starts (trace s4) = page_starts (trace s3)"
          using page_starts_terminate_worker [of env s3] tw by simp
        have "page_starts (trace s) = page_starts (trace s4)"
          using None Inr init rNone loop fullText tw assms
          by (cases tr)
             (auto simp add: ocrPdfDocument_try_def page_starts_setters split: if_splits)
        with ps p4 Inr show ?thesis by auto
      qed
    qed
  qed
qed

lemma pdf_starts:
  "\<exists>ps. page_starts (trace (ocrPdfDocument env st)) = page_starts (trace st) @ ps
        \<and> (\<forall>N. env_getDocument env = Inr N
                \<longrightarrow> prefix ps (map (\<lambda>j. (j, page_cell N j)) [1..<Suc N]))"
proof -
  let ?st0 = "setProcessingProgress (Num 0)
                (setProcessingMessage ''Iniciando processamento OCR do PDF...'' st)"
  obtain thrown w s1 where tr: "ocrPdfDocument_try env ?st0 = (thrown, w, s1)"
    by (cases "ocrPdfDocument_try env ?st0")
  from pdf_try_starts [OF tr] obtain ps where
    ps: "page_starts (trace s1) = page_starts (trace st) @ ps"
      "\<forall>N. env_getDocument env = Inr N
           \<longrightarrow> prefix ps (map (\<lambda>j. (j, page_cell N j)) [1..<Suc N])"
    by (auto simp add: page_starts_setters)
  have "page_starts (trace (ocrPdfDocument env st)) = page_starts (trace s1)"
  proof (cases thrown)
    case None
    then show ?thesis by (simp add: ocrPdfDocument_def Let_def tr pdf_finally_trace)
  next
    case (Some e)
    obtain r s2 where cat: "ocrPdfDocument_catch env e w s1 = (r, s2)"
      by (cases "ocrPdfDocument_catch env e w s1")
    have "page_starts (trace s2) = page_starts (trace s1)"
      using cat page_starts_terminate_worker [of env "setStatusMessage
                (Some \<lparr>sm_text = ''Falha ao processar PDF com OCR: '' @ e, sm_type = Error\<rparr>)
                (setRawExtractedText [] s1)"]
      unfolding ocrPdfDocument_catch_def terminate_if_live_def
      by (cases w) (auto simp add: page_starts_setters)
    then show ?thesis
      by (cases r)
         (simp_all add: ocrPdfDocument_def Let_def tr Some cat pdf_finally_trace
            page_starts_setters)
  qed
  with ps show ?thesis by auto
qed


text \<open>
  Claim C8 as stated fails for \<open>N = 3\<close>, \<open>i = 2\<close>: the cell recorded when page 2 is
  fetched holds the base \<^verbatim>\<open>(1 / 3) * 100\<close>, the double 33.33333333333333 (the fraction
  below), while \<open>round((i - 1) / N * 100)\<close> is 33. The base is not rounded.
\<close>

theorem base_progress_counterexample:
  "page_starts (trace (ocrPdfDocument (simple_env 3 [] ''abc'') initial_state))
     = [(1, \<lparr>currentPage = 1, totalPages = 3, baseProgress = Num 0,
              pageBudget = Num (4691249611844267 / 140737488355328)\<rparr>),
        (2, \<lparr>currentPage = 2, totalPages = 3,
              baseProgress = Num (2345624805922133 / 70368744177664),
              pageBudget = Num (4691249611844267 / 140737488355328)\<rparr>),
        (3, \<lparr>currentPage = 3, totalPages = 3,
              baseProgress = Num (2345624805922133 / 35184372088832),
              pageBudget = Num (4691249611844267 / 140737488355328)\<rparr>)]
   \<and> round_half_up ((2 - 1) / 3 * 100) = 33
   \<and> Num (2345624805922133 / 70368744177664) \<noteq> Num 33"
proof -
  let ?env = "simple_env 3 [] ''abc''"
  have "page_starts (trace_since initial_state (ocrPdfDocument ?env initial_state))
          = map (\<lambda>j. (j, page_cell 3 j)) [1..<Suc 3]"
    by (rule ocrPdfDocument_complete_facts(4) [where t = "\<lambda>j. ''abc''" and ups = "\<lambda>j. []"])
       (simp_all add: simple_env_complete)
  also have "\<dots> = [(1, \<lparr>currentPage = 1, totalPages = 3, baseProgress = Num 0,
              pageBudget = Num (4691249611844267 / 140737488355328)\<rparr>),
        (2, \<lparr>currentPage = 2, totalPages = 3,
              baseProgress = Num (2345624805922133 / 70368744177664),
              pageBudget = Num (4691249611844267 / 140737488355328)\<rparr>),
        (3, \<lparr>currentPage = 3, totalPages = 3,
              baseProgress = Num (2345624805922133 / 35184372088832),
              pageBudget = Num (4691249611844267 / 140737488355328)\<rparr>)]"
    unfolding upt_1_4
    by (simp add: dbl_eval del: js_div.simps js_mul.simps js_add.simps)
  finally have run: "page_starts (trace (ocrPdfDocument ?env initial_state))
     = [(1, \<lparr>currentPage = 1, totalPages = 3, baseProgress = Num 0,
              pageBudget = Num (4691249611844267 / 140737488355328)\<rparr>),
        (2, \<lparr>currentPage = 2, totalPages = 3,
              baseProgress = Num (2345624805922133 / 70368744177664),
              pageBudget = Num (4691249611844267 / 140737488355328)\<rparr>),
        (3, \<lparr>currentPage = 3, totalPages = 3,
              baseProgress = Num (2345624805922133 / 35184372088832),
              pageBudget = Num (4691249611844267 / 140737488355328)\<rparr>)]"
    by (simp only: trace_since_initial)
  have r: "round_half_up ((2 - 1) / 3 * 100) = 33"
    by (simp add: round_half_up_fraction)
  have n: "Num (2345624805922133 / 70368744177664) \<noteq> Num 33"
    by simp
  from run r n show ?thesis by (intro conjI)
qed

text \<open>
  Claim C8, amended. For a PDF that is parsed to \<open>N\<close> pages, whatever else the
  collaborators answer: the pages fetched during the operation are an initial part of
  the pages 1 to \<open>N\<close>, in this order, and when page \<open>i\<close> is fetched the progress cell holds
  the page number \<open>i\<close>, the page count \<open>N\<close>, the budget \<^verbatim>\<open>100 / N\<close> and the base
  \<^verbatim>\<open>((i - 1) / N) * 100\<close>, computed on doubles and not rounded to an integer. When the
  file is read, the worker is created, every page is recognised and \<^verbatim>\<open>terminate\<close>
  resolves, these are all the pages 1 to \<open>N\<close>. For \<open>1 \<le> i \<le> N\<close> the base is a finite
  number between 0 and 100; for \<open>N = 3\<close>, \<open>i = 2\<close> it is the double 33.33333333333333.
\<close>

theorem base_progress_unrounded:
  assumes "env_getDocument env = Inr N"
  shows "prefix (page_starts (trace_since st (ocrPdfDocument env st)))
           (map (\<lambda>i. (i, \<lparr>currentPage = i, totalPages = N,
                           baseProgress = js_mul (js_div (of_nat i - 1) (of_nat N)) (Num 100),
                           pageBudget = js_div 100 (of_nat N)\<rparr>))
              [1..<Suc N])
         \<and> (env_arrayBuffer_error env = None \<and> env_createWorker_error env = None
              \<and> (\<forall>j. 1 \<le> j \<and> j \<le> N \<longrightarrow> (\<exists>ups t. env_page env j = Recognize ups (Inr t)))
              \<and> env_terminate env (terminate_calls st) = None
            \<longrightarrow> page_starts (trace_since st (ocrPdfDocument env st))
                  = map (\<lambda>i. (i, \<lparr>currentPage = i, totalPages = N,
                           baseProgress = js_mul (js_div (of_nat i - 1) (of_nat N)) (Num 100),
                           pageBudget = js_div 100 (of_nat N)\<rparr>))
                      [1..<Suc N])
         \<and> (\<forall>i. 1 \<le> i \<and> i \<le> N \<longrightarrow>
               (\<exists>b. js_mul (js_div (of_nat i - 1) (of_nat N)) (Num 100) = Num b
                     \<and> 0 \<le> b \<and> b \<le> 100))
         \<and> js_mul (js_div (of_nat 2 - 1) (of_nat 3)) (Num 100)
             = Num (2345624805922133 / 70368744177664)"
proof -
  have cell: "(\<lambda>i. (i, \<lparr>currentPage = i, totalPages = N,
                           baseProgress = js_mul (js_div (of_nat i - 1) (of_nat N)) (Num 100),
                           pageBudget = js_div 100 (of_nat N)\<rparr>))
              = (\<lambda>i. (i, page_cell N i))"
    by (simp add: page_cell_def)
  note since = since_append(1) [OF conjunct1 [OF pdf_texts [of st env]]]
  from pdf_starts [of env st] assms obtain ps where
    ps: "page_starts (trace (ocrPdfDocument env st)) = page_starts (trace st) @ ps"
      "prefix ps (map (\<lambda>j. (j, page_cell N j)) [1..<Suc N])"
    by blast
  from ps(1) since have "page_starts (trace_since st (ocrPdfDocument env st)) = ps"
    by simp
  with ps(2) have a: "prefix (page_starts (trace_since st (ocrPdfDocument env st)))
                        (map (\<lambda>i. (i, page_cell N i)) [1..<Suc N])"
    by simp
  have b: "page_starts (trace_since st (ocrPdfDocument env st))
             = map (\<lambda>i. (i, page_cell N i)) [1..<Suc N]"
    if h: "env_arrayBuffer_error env = None \<and> env_createWorker_error env = None
           \<and> (\<forall>j. 1 \<le> j \<and> j \<le> N \<longrightarrow> (\<exists>ups t. env_page env j = Recognize ups (Inr t)))
           \<and> env_terminate env (terminate_calls st) = None"
  proof -
    from h have "\<forall>j. \<exists>p. 1 \<le> j \<and> j \<le> N
                    \<longrightarrow> env_page env j = Recognize (fst p) (Inr (snd p))"
      by (metis fst_conv snd_conv)
    from choice [OF this] obtain f where
      f: "\<forall>j. 1 \<le> j \<and> j \<le> N \<longrightarrow> env_page env j = Recognize (fst (f j)) (Inr (snd (f j)))"
      by blast
    define ups where "ups j = fst (f j)" for j
    define t where "t j = snd (f j)" for j
    have pages: "\<forall>j. 1 \<le> j \<and> j \<le> N \<longrightarrow> env_page env j = Recognize (ups j) (Inr (t j))"
      using f by (simp add: ups_def t_def)
    from h show ?thesis
      by (intro ocrPdfDocument_complete_facts(4) [OF _ assms _ pages]) simp_all
  qed
  have c: "\<exists>b. js_mul (js_div (of_nat i - 1) (of_nat N)) (Num 100) = Num b \<and> 0 \<le> b \<and> b \<le> 100"
    if "1 \<le> i \<and> i \<le> N" for i
  proof -
    from that have "1 \<le> N" "1 \<le> i" "i \<le> N" by simp_all
    from page_cell_finite [OF this] obtain b where
      b: "baseProgress (page_cell N i) = Num b" "0 \<le> b" "b \<le> 100"
      by blast
    have "baseProgress (page_cell N i) = js_mul (js_div (of_nat i - 1) (of_nat N)) (Num 100)"
      unfolding page_cell_def by (simp del: js_div.simps js_mul.simps)
    with b show ?thesis by (intro exI [of _ b]) (simp del: js_div.simps js_mul.simps)
  qed
  have d: "js_mul (js_div (of_nat 2 - 1) (of_nat 3)) (Num 100)
             = Num (2345624805922133 / 70368744177664)"
    by (simp add: dbl_facts del: js_div.simps js_mul.simps js_add.simps)
  from a b c d show ?thesis unfolding cell by (intro conjI allI impI)
qed

theorem base_progress_unrounded_witness:
  "env_getDocument (simple_env 3 [recognizing (1 / 5)] ''xyz'') = Inr 3
   \<and> env_arrayBuffer_error (simple_env 3 [recognizing (1 / 5)] ''xyz'') = None
   \<and> env_createWorker_error (simple_env 3 [recognizing (1 / 5)] ''xyz'') = None
   \<and> env_page (simple_env 3 [recognizing (1 / 5)] ''xyz'') 1
       = Recognize [recognizing (1 / 5)] (Inr ''xyz'')
   \<and> env_page (simple_env 3 [recognizing (1 / 5)] ''xyz'') 2
       = Recognize [recognizing (1 / 5)] (Inr ''xyz'')
   \<and> env_page (simple_env 3 [recognizing (1 / 5)] ''xyz'') 3
       = Recognize [recognizing (1 / 5)] (Inr ''xyz'')
   \<and> env_terminate (simple_env 3 [recognizing (1 / 5)] ''xyz'') (terminate_calls initial_state)
       = None
   \<and> (1::nat) \<le> 2 \<and> (2::nat) \<le> 3
   \<and> map (\<lambda>(i, d). (i, baseProgress d))
        (page_starts (trace_since initial_state
           (ocrPdfDocument (simple_env 3 [recognizing (1 / 5)] ''xyz'') initial_state)))
       = [(1, Num 0), (2, Num (2345624805922133 / 70368744177664)),
          (3, Num (2345624805922133 / 35184372088832))]
   \<and> (\<exists>b. js_mul (js_div (of_nat 2 - 1) (of_nat 3)) (Num 100) = Num b \<and> 0 \<le> b \<and> b \<le> 100)"
proof -
  let ?env = "simple_env 3 [recognizing (1 / 5)] ''xyz''"
  have h0: "env_getDocument ?env = Inr 3"
    and h1: "env_arrayBuffer_error ?env = None"
    and h3: "env_createWorker_error ?env = None"
    and h4: "\<forall>j. 1 \<le> j \<and> j \<le> 3 \<longrightarrow> (\<exists>ups t. env_page ?env j = Recognize ups (Inr t))"
    and h5: "env_terminate ?env (terminate_calls initial_state) = None"
    by (simp_all add: simple_env_complete)
  have i: "(1::nat) \<le> 2" "(2::nat) \<le> 3" by simp_all
  note th = base_progress_unrounded [OF h0, of initial_state]
  from th h1 h3 h4 h5 have "page_starts (trace_since initial_state
           (ocrPdfDocument ?env initial_state))
     = map (\<lambda>i. (i, \<lparr>currentPage = i, totalPages = 3,
                           baseProgress = js_mul (js_div (of_nat i - 1) (of_nat 3)) (Num 100),
                           pageBudget = js_div 100 (of_nat 3)\<rparr>))
                      [1..<Suc 3]"
    by blast
  then have e: "map (\<lambda>(i, d). (i, baseProgress d))
        (page_starts (trace_since initial_state (ocrPdfDocument ?env initial_state)))
       = [(1, Num 0), (2, Num (2345624805922133 / 70368744177664)),
          (3, Num (2345624805922133 / 35184372088832))]"
    unfolding upt_1_4
    by (simp add: dbl_facts del: js_div.simps js_mul.simps js_add.simps)
  from th i have b: "\<exists>b. js_mul (js_div (of_nat 2 - 1) (of_nat 3)) (Num 100) = Num b
                        \<and> 0 \<le> b \<and> b \<le> 100"
    by blast
  have p: "env_page ?env 1 = Recognize [recognizing (1 / 5)] (Inr ''xyz'')"
    "env_page ?env 2 = Recognize [recognizing (1 / 5)] (Inr ''xyz'')"
    "env_page ?env 3 = Recognize [recognizing (1 / 5)] (Inr ''xyz'')"
    by (simp_all add: simple_env_complete)
  from h0 h1 h3 p h5 i e b show ?thesis by (intro conjI)
qed

end
